theory Spec2Isabelle
  imports Complex_Main "HOL-Library.Product_Lexorder" "HOL-Library.Multiset" "HOL-Library.AList"
begin

section \<open>Exceptions\<close>

text \<open>
  The exceptions the modelled code raises or passes on, each with its message. A
  \<^verbatim>\<open>PlaywrightError\<close> is whatever a browser operation raised (a timeout, a detached
  target); the browser chooses its message.
\<close>

datatype exn =
    PermissionError string
  | RuntimeError string
  | ValueError string
  | FileNotFoundError string
  | ZeroDivisionError
  | IndexError
  | PlaywrightError string

text \<open>\<^verbatim>\<open>f'{e}'\<close>: the message of an exception.\<close>

fun exn_message :: "exn \<Rightarrow> string" where
  "exn_message (PermissionError m) = m"
| "exn_message (RuntimeError m) = m"
| "exn_message (ValueError m) = m"
| "exn_message (FileNotFoundError m) = m"
| "exn_message ZeroDivisionError = ''division by zero''"
| "exn_message IndexError = ''list index out of range''"
| "exn_message (PlaywrightError m) = m"

section \<open>Permission policy (permissions.py)\<close>

text \<open>
  \<^verbatim>\<open>PermissionPolicy\<close> is a dataclass of four booleans; \<^verbatim>\<open>PermissionManager.check\<close>
  compares the action string with three literals in turn and falls through to
  \<^verbatim>\<open>return True\<close>. The \<^verbatim>\<open>context\<close> argument is read into a local and never used; the
  warnings go to the logger only.
\<close>

record PermissionPolicy =
  allow_login :: bool
  allow_upload :: bool
  allow_off_allowlist :: bool
  auto_approve :: bool

definition check :: "PermissionPolicy \<Rightarrow> string \<Rightarrow> bool" where
  "check policy action =
     (if action = ''login'' then allow_login policy \<or> auto_approve policy
      else if action = ''upload'' then allow_upload policy \<or> auto_approve policy
      else if action = ''off-allowlist'' then allow_off_allowlist policy \<or> auto_approve policy
      else True)"

section \<open>Rate limiting and the domain allowlist (security.py)\<close>

subsection \<open>TokenBucket\<close>

text \<open>
  \<^verbatim>\<open>capacity\<close> is a Python int; \<^verbatim>\<open>tokens\<close>, the refill rate and the clock readings of
  \<^verbatim>\<open>time.time()\<close> are Python floats, idealised here as exact rationals. The clock reading
  is an argument \<open>now\<close> of every operation that calls \<^verbatim>\<open>time.time()\<close>.
\<close>

record TokenBucket =
  capacity :: int
  tokens :: rat
  refill_rate :: rat
  last_refill :: rat

definition TokenBucket_init :: "int \<Rightarrow> rat \<Rightarrow> rat \<Rightarrow> TokenBucket" where
  "TokenBucket_init cap refill_rate_per_sec now =
     \<lparr>capacity = cap, tokens = of_int cap, refill_rate = refill_rate_per_sec, last_refill = now\<rparr>"

text \<open>The first half of \<^verbatim>\<open>consume\<close>: the lazy refill, applied only when it is positive.\<close>

definition refill :: "TokenBucket \<Rightarrow> rat \<Rightarrow> TokenBucket" where
  "refill b now =
     (let elapsed = now - last_refill b;
          amount = elapsed * refill_rate b
      in if amount > 0
         then b\<lparr>tokens := min (of_int (capacity b)) (tokens b + amount), last_refill := now\<rparr>
         else b)"

definition consume :: "TokenBucket \<Rightarrow> rat \<Rightarrow> int \<Rightarrow> bool \<times> TokenBucket" where
  "consume b now n =
     (let b1 = refill b now
      in if tokens b1 \<ge> of_int n
         then (True, b1\<lparr>tokens := tokens b1 - of_int n\<rparr>)
         else (False, b1))"

text \<open>A sequence of \<^verbatim>\<open>consume\<close> calls, each with its clock reading and its request.\<close>

fun consume_all :: "TokenBucket \<Rightarrow> (rat \<times> int) list \<Rightarrow> TokenBucket" where
  "consume_all b [] = b"
| "consume_all b ((now, n) # calls) = consume_all (snd (consume b now n)) calls"

lemma refill_capacity [simp]: "capacity (refill b now) = capacity b"
  by (simp add: refill_def Let_def)

lemma refill_preserves_bound:
  "tokens b \<le> of_int (capacity b) \<Longrightarrow> tokens (refill b now) \<le> of_int (capacity (refill b now))"
  by (simp add: refill_def Let_def)

lemma consume_preserves_bound:
  assumes "tokens b \<le> of_int (capacity b)" and "0 \<le> n"
  shows "tokens (snd (consume b now n)) \<le> of_int (capacity (snd (consume b now n)))
         \<and> capacity (snd (consume b now n)) = capacity b"
proof -
  have r: "tokens (refill b now) \<le> of_int (capacity b)"
    using refill_preserves_bound [OF assms(1), of now] by simp
  have n: "(0::rat) \<le> of_int n" using assms(2) by simp
  show ?thesis using r n by (simp add: consume_def Let_def)
qed

subsection \<open>Strings as Python has them\<close>

text \<open>A string is a list of characters; a \<open>char\<close> is a code point below 256.\<close>

definition endswith :: "string \<Rightarrow> string \<Rightarrow> bool" where
  "endswith s d = (length d \<le> length s \<and> drop (length s - length d) s = d)"

definition startswith :: "string \<Rightarrow> string \<Rightarrow> bool" where
  "startswith s d = (take (length d) s = d)"

definition ascii_upper :: string where
  "ascii_upper = ''ABCDEFGHIJKLMNOPQRSTUVWXYZ''"

definition ascii_lower :: string where
  "ascii_lower = ''abcdefghijklmnopqrstuvwxyz''"

definition digits :: string where
  "digits = ''0123456789''"

fun assoc_default :: "('a \<times> 'b) list \<Rightarrow> 'a \<Rightarrow> 'b \<Rightarrow> 'b" where
  "assoc_default [] k d = d"
| "assoc_default ((a, b) # xs) k d = (if a = k then b else assoc_default xs k d)"

text \<open>
  \<^verbatim>\<open>str.lower()\<close>: the ASCII capitals, and the capitals from 0xC0 to 0xDE (the
  multiplication sign 0xD7 is none), move to the letter 32 code points up.
\<close>

definition lower_char :: "char \<Rightarrow> char" where
  "lower_char c =
     assoc_default (zip ascii_upper ascii_lower) c
       (if 0xC0 \<le> (of_char c :: nat) \<and> (of_char c :: nat) \<le> 0xDE \<and> (of_char c :: nat) \<noteq> 0xD7
        then char_of ((of_char c :: nat) + 32) else c)"

definition lower :: "string \<Rightarrow> string" where
  "lower s = map lower_char s"

text \<open>\<^verbatim>\<open>s.find(c)\<close> for a single character: the first index, or None for Python's -1.\<close>

fun find_char :: "char \<Rightarrow> string \<Rightarrow> nat option" where
  "find_char c [] = None"
| "find_char c (x # xs) =
     (if x = c then Some 0 else (case find_char c xs of None \<Rightarrow> None | Some i \<Rightarrow> Some (Suc i)))"

text \<open>\<^verbatim>\<open>s.split(c)\<close> for a one-character separator: always at least one piece.\<close>

fun split_on :: "char \<Rightarrow> string \<Rightarrow> string list" where
  "split_on c [] = [[]]"
| "split_on c (x # xs) =
     (case split_on c xs of
        piece # pieces \<Rightarrow> if x = c then [] # piece # pieces else (x # piece) # pieces
      | [] \<Rightarrow> [[x]])"

text \<open>
  \<^verbatim>\<open>repr\<close> of a string. The quote is the apostrophe, or the double quote when the string
  holds an apostrophe and no double quote. The quote in use and the backslash are written
  with a backslash before them; tab, line feed and carriage return as \<^verbatim>\<open>\t\<close>, \<^verbatim>\<open>\n\<close>,
  \<^verbatim>\<open>\r\<close>; any other character that is not printable (below 0x20, 0x7F to 0xA0, and 0xAD)
  as \<^verbatim>\<open>\x\<close> and two lower-case hex digits; every other character as itself.
\<close>

definition printable :: "char \<Rightarrow> bool" where
  "printable c =
     (let n = (of_char c :: nat) in (0x20 \<le> n \<and> n < 0x7F) \<or> (0xA0 < n \<and> n \<noteq> 0xAD))"

definition hexdigits :: string where
  "hexdigits = ''0123456789abcdef''"

definition repr_char :: "char \<Rightarrow> char \<Rightarrow> string" where
  "repr_char quote c =
     (if c = quote \<or> c = CHR 0x5C then [CHR 0x5C, c]
      else if c = CHR 0x09 then [CHR 0x5C, CHR ''t'']
      else if c = CHR 0x0A then [CHR 0x5C, CHR ''n'']
      else if c = CHR 0x0D then [CHR 0x5C, CHR ''r'']
      else if printable c then [c]
      else [CHR 0x5C, CHR ''x'', hexdigits ! ((of_char c :: nat) div 16),
            hexdigits ! ((of_char c :: nat) mod 16)])"

definition repr_str :: "string \<Rightarrow> string" where
  "repr_str s =
     (let quote = (if CHR 0x27 \<in> set s \<and> CHR 0x22 \<notin> set s then CHR 0x22 else CHR 0x27)
      in [quote] @ concat (map (repr_char quote) s) @ [quote])"

subsection \<open>ipaddress: what is an address\<close>

text \<open>
  \<^verbatim>\<open>urlsplit\<close> hands a host between square brackets to the standard library's
  \<^verbatim>\<open>ipaddress\<close> module. Only whether the text is accepted matters here.

  \<^verbatim>\<open>IPv4Address(s)\<close> accepts four pieces between dots, each of one to three ASCII digits,
  without a leading zero unless the piece is \<^verbatim>\<open>0\<close>, and at most 255.
\<close>

definition decimal :: "string \<Rightarrow> nat" where
  "decimal s = foldl (\<lambda>n c. 10 * n + (of_char c - of_char CHR ''0'')) 0 s"

definition parse_octet_ok :: "string \<Rightarrow> bool" where
  "parse_octet_ok s =
     (s \<noteq> [] \<and> list_all (\<lambda>c. c \<in> set digits) s \<and> length s \<le> 3
      \<and> (if s = ''0'' then True else hd s \<noteq> CHR ''0'') \<and> decimal s \<le> 255)"

definition IPv4Address_ok :: "string \<Rightarrow> bool" where
  "IPv4Address_ok s =
     (CHR ''/'' \<notin> set s \<and> s \<noteq> [] \<and> length (split_on CHR ''.'' s) = 4
      \<and> list_all parse_octet_ok (split_on CHR ''.'' s))"

text \<open>
  \<^verbatim>\<open>IPv6Address(s)\<close>, after \<^verbatim>\<open>_ip_int_from_string\<close>. The pieces between colons are at least
  three and at most nine; a last piece with a dot must be an IPv4 address and then
  counts as two hextets. An empty piece other than the first and the last stands for
  \<^verbatim>\<open>::\<close> and may occur once; with it, an empty first (last) piece must be next to it and
  at most seven hextets remain; without it there are exactly eight pieces, the first and
  the last not empty. A hextet is one to four hex digits. A scope id after \<^verbatim>\<open>%\<close> is not
  empty and holds no further \<^verbatim>\<open>%\<close>.
\<close>

definition hex_digits_any_case :: string where
  "hex_digits_any_case = ''0123456789ABCDEFabcdef''"

definition parse_hextet_ok :: "string \<Rightarrow> bool" where
  "parse_hextet_ok s = (list_all (\<lambda>c. c \<in> set hex_digits_any_case) s \<and> length s \<le> 4 \<and> s \<noteq> [])"

definition hextets_ok :: "string list \<Rightarrow> bool" where
  "hextets_ok parts =
     (let n = length parts;
          skips = filter (\<lambda>i. parts ! i = []) [1..<n - 1]
      in if 9 < n \<or> 1 < length skips then False
         else if skips \<noteq> []
         then (let skip_index = hd skips;
                   parts_hi = (if hd parts = [] then skip_index - 1 else skip_index);
                   parts_lo = (if last parts = [] then n - skip_index - 2 else n - skip_index - 1)
               in (if hd parts = [] then parts_hi = 0 else True)
                  \<and> (if last parts = [] then parts_lo = 0 else True)
                  \<and> parts_hi + parts_lo \<le> 7
                  \<and> list_all parse_hextet_ok (take parts_hi parts)
                  \<and> list_all parse_hextet_ok (drop (n - parts_lo) parts))
         else n = 8 \<and> hd parts \<noteq> [] \<and> last parts \<noteq> [] \<and> list_all parse_hextet_ok parts)"

definition ip_int_from_string_ok :: "string \<Rightarrow> bool" where
  "ip_int_from_string_ok s =
     (s \<noteq> [] \<and> 3 \<le> length (split_on CHR '':'' s)
      \<and> (let parts = split_on CHR '':'' s
          in if CHR ''.'' \<in> set (last parts)
             then IPv4Address_ok (last parts) \<and> hextets_ok (butlast parts @ [''0'', ''0''])
             else hextets_ok parts))"

definition IPv6Address_ok :: "string \<Rightarrow> bool" where
  "IPv6Address_ok s =
     (CHR ''/'' \<notin> set s
      \<and> (if CHR ''%'' \<in> set s
          then (let scope_id = drop 1 (dropWhile (\<lambda>c. c \<noteq> CHR ''%'') s)
                in scope_id \<noteq> [] \<and> CHR ''%'' \<notin> set scope_id)
          else True)
      \<and> ip_int_from_string_ok (takeWhile (\<lambda>c. c \<noteq> CHR ''%'') s))"

subsection \<open>urllib.parse.urlparse: scheme and netloc\<close>

text \<open>
  \<^verbatim>\<open>urlparse\<close> belongs to Python's standard library (here as of CPython 3.11.4). The two
  fields the program reads are modelled after \<^verbatim>\<open>urlsplit\<close>. The URL first loses its
  leading characters up to \<^verbatim>\<open>U+0020\<close> (C0 controls and space) and every tab, carriage
  return and line feed. A scheme is split off at the first colon when the text before it
  starts with an ASCII letter and consists of scheme characters. The netloc is what
  follows a leading \<^verbatim>\<open>//\<close> up to the first of \<^verbatim>\<open>/\<close>, \<^verbatim>\<open>?\<close>, \<^verbatim>\<open>#\<close>. A netloc with one
  square bracket and not the other raises ValueError, and so does one whose text between
  the brackets is neither an IPv6 address nor of the form \<^verbatim>\<open>v\<close>, hex digits, a dot and
  more. The last check of \<^verbatim>\<open>urlsplit\<close>, on characters that compatibility normalisation
  turns into one of \<^verbatim>\<open>/?#@:\<close>, never fires on code points below 256.
\<close>

definition c0_control_or_space :: string where
  "c0_control_or_space =
     [CHR 0x00, CHR 0x01, CHR 0x02, CHR 0x03, CHR 0x04, CHR 0x05, CHR 0x06, CHR 0x07,
      CHR 0x08, CHR 0x09, CHR 0x0A, CHR 0x0B, CHR 0x0C, CHR 0x0D, CHR 0x0E, CHR 0x0F,
      CHR 0x10, CHR 0x11, CHR 0x12, CHR 0x13, CHR 0x14, CHR 0x15, CHR 0x16, CHR 0x17,
      CHR 0x18, CHR 0x19, CHR 0x1A, CHR 0x1B, CHR 0x1C, CHR 0x1D, CHR 0x1E, CHR 0x1F,
      CHR 0x20]"

definition unsafe_url_bytes :: string where
  "unsafe_url_bytes = [CHR 0x09, CHR 0x0D, CHR 0x0A]"

definition clean_url :: "string \<Rightarrow> string" where
  "clean_url url =
     filter (\<lambda>c. c \<notin> set unsafe_url_bytes)
            (dropWhile (\<lambda>c. c \<in> set c0_control_or_space) url)"

definition scheme_chars :: string where
  "scheme_chars = ascii_lower @ ascii_upper @ digits @ ''+-.''"

definition split_scheme :: "string \<Rightarrow> string \<times> string" where
  "split_scheme url =
     (case find_char CHR '':'' url of
        None \<Rightarrow> ('''', url)
      | Some i \<Rightarrow>
          if i > 0 \<and> hd url \<in> set (ascii_lower @ ascii_upper)
             \<and> list_all (\<lambda>c. c \<in> set scheme_chars) (take i url)
          then (lower (take i url), drop (Suc i) url)
          else ('''', url))"

text \<open>The two fields as \<^verbatim>\<open>urlsplit\<close> computes them, before its checks.\<close>

definition urlparse_scheme :: "string \<Rightarrow> string" where
  "urlparse_scheme url = fst (split_scheme (clean_url url))"

definition urlparse_netloc :: "string \<Rightarrow> string" where
  "urlparse_netloc url =
     (let rest = snd (split_scheme (clean_url url))
      in if take 2 rest = ''//''
         then takeWhile (\<lambda>c. c \<notin> set ''/?#'') (drop 2 rest)
         else '''')"

text \<open>
  \<^verbatim>\<open>netloc.partition('[')[2].partition(']')[0]\<close>, and \<^verbatim>\<open>_check_bracketed_host\<close> on it:
  the regular expression \<^verbatim>\<open>\Av[a-fA-F0-9]+\..+\Z\<close> for a host that starts with \<^verbatim>\<open>v\<close>,
  \<^verbatim>\<open>ipaddress.ip_address\<close> for any other.
\<close>

definition bracketed_host :: "string \<Rightarrow> string" where
  "bracketed_host netloc =
     takeWhile (\<lambda>c. c \<noteq> CHR '']'') (drop 1 (dropWhile (\<lambda>c. c \<noteq> CHR ''['') netloc))"

definition ipvfuture_match :: "string \<Rightarrow> bool" where
  "ipvfuture_match hostname =
     (let rest = dropWhile (\<lambda>c. c \<in> set hex_digits_any_case) (drop 1 hostname)
      in takeWhile (\<lambda>c. c \<in> set hex_digits_any_case) (drop 1 hostname) \<noteq> []
         \<and> take 1 rest = ''.'' \<and> drop 1 rest \<noteq> [] \<and> CHR 0x0A \<notin> set (drop 1 rest))"

definition check_bracketed_host :: "string \<Rightarrow> exn option" where
  "check_bracketed_host hostname =
     (if startswith hostname ''v''
      then (if ipvfuture_match hostname then None
            else Some (ValueError ''IPvFuture address is invalid''))
      else if IPv4Address_ok hostname
      then Some (ValueError ''An IPv4 address cannot be in brackets'')
      else if IPv6Address_ok hostname then None
      else Some (ValueError (repr_str hostname
                             @ '' does not appear to be an IPv4 or IPv6 address'')))"

text \<open>The exception \<^verbatim>\<open>urlparse(url)\<close> raises, if any.\<close>

definition urlparse_error :: "string \<Rightarrow> exn option" where
  "urlparse_error url =
     (let netloc = urlparse_netloc url
      in if (CHR ''['' \<in> set netloc) \<noteq> (CHR '']'' \<in> set netloc)
         then Some (ValueError ''Invalid IPv6 URL'')
         else if CHR ''['' \<in> set netloc then check_bracketed_host (bracketed_host netloc)
         else None)"

subsection \<open>SecurityManager\<close>

text \<open>
  \<^verbatim>\<open>is_domain_allowed\<close> takes the netloc and asks whether it ends with some entry of the
  allowlist (\<^verbatim>\<open>any(host.endswith(d) for d in self.allowed_domains)\<close>). An exception of
  \<^verbatim>\<open>urlparse\<close> leaves the method.
\<close>

definition host_allowed :: "string list \<Rightarrow> string \<Rightarrow> bool" where
  "host_allowed allowed_domains host = list_ex (\<lambda>d. endswith host d) allowed_domains"

definition is_domain_allowed :: "string list \<Rightarrow> string \<Rightarrow> exn + bool" where
  "is_domain_allowed allowed_domains url =
     (case urlparse_error url of
        Some e \<Rightarrow> Inl e
      | None \<Rightarrow> Inr (host_allowed allowed_domains (urlparse_netloc url)))"

text \<open>
  What the specification asks of a host: it equals an allowlist entry, or it ends with a
  dot followed by the entry.
\<close>

definition spec_host_allowed :: "string list \<Rightarrow> string \<Rightarrow> bool" where
  "spec_host_allowed allowed_domains host =
     list_ex (\<lambda>d. host = d \<or> endswith host (CHR ''.'' # d)) allowed_domains"

section \<open>Selector memory (executor/selector\_memory.py)\<close>

text \<open>
  The SQLite table \<^verbatim>\<open>selectors\<close> is a list of rows in rowid order. \<^verbatim>\<open>id INTEGER PRIMARY KEY\<close>
  is the rowid; \<^verbatim>\<open>updated REAL\<close> holds \<^verbatim>\<open>time.time()\<close>, passed in as \<open>now\<close>.
\<close>

record selector_row =
  rowid :: int
  sel_host :: string
  sel_action :: string
  sel_label :: string
  selector :: string
  success_count :: int
  updated :: rat

text \<open>The two WHERE clauses.\<close>

definition where_hal :: "string \<Rightarrow> string \<Rightarrow> string \<Rightarrow> selector_row \<Rightarrow> bool" where
  "where_hal h a l r = (sel_host r = h \<and> sel_action r = a \<and> sel_label r = l)"

definition where_hals :: "string \<Rightarrow> string \<Rightarrow> string \<Rightarrow> string \<Rightarrow> selector_row \<Rightarrow> bool" where
  "where_hals h a l s r = (sel_host r = h \<and> sel_action r = a \<and> sel_label r = l \<and> selector r = s)"

text \<open>
  \<^verbatim>\<open>ORDER BY success_count DESC, updated DESC\<close>: ascending in the pair of negated columns,
  compared lexicographically. SQL leaves the order of rows equal in both columns open;
  the stable sort keeps them in rowid order.
\<close>

definition order_by :: "selector_row \<Rightarrow> int \<times> rat" where
  "order_by r = (- success_count r, - updated r)"

definition get_rows :: "selector_row list \<Rightarrow> string \<Rightarrow> string \<Rightarrow> string \<Rightarrow> selector_row list" where
  "get_rows tbl h a l = sort_key order_by (filter (where_hal h a l) tbl)"

definition get :: "selector_row list \<Rightarrow> string \<Rightarrow> string \<Rightarrow> string \<Rightarrow> string list" where
  "get tbl h a l = map selector (get_rows tbl h a l)"

text \<open>A fresh rowid: one more than the largest in use, 1 in an empty table.\<close>

definition next_rowid :: "selector_row list \<Rightarrow> int" where
  "next_rowid tbl = fold max (map rowid tbl) 0 + 1"

text \<open>
  \<^verbatim>\<open>save_success\<close>: \<^verbatim>\<open>fetchone()\<close> takes the first matching row; the UPDATE addresses it by
  its id and writes \<^verbatim>\<open>cnt + 1\<close>, the count read from that row, and the new timestamp.
\<close>

definition save_success ::
  "selector_row list \<Rightarrow> string \<Rightarrow> string \<Rightarrow> string \<Rightarrow> string \<Rightarrow> rat \<Rightarrow> selector_row list" where
  "save_success tbl h a l s now =
     (case find (where_hals h a l s) tbl of
        Some row \<Rightarrow>
          map (\<lambda>r. if rowid r = rowid row
                    then r\<lparr>success_count := success_count row + 1, updated := now\<rparr>
                    else r) tbl
      | None \<Rightarrow>
          tbl @ [\<lparr>rowid = next_rowid tbl, sel_host = h, sel_action = a, sel_label = l,
                   selector = s, success_count = 1, updated = now\<rparr>])"

lemma fold_max_ge: "(m::int) \<le> fold max xs m"
  by (induction xs arbitrary: m) (auto intro: order_trans [OF max.cobounded2])

lemma fold_max_upper: "x \<in> set xs \<Longrightarrow> (x::int) \<le> fold max xs m"
proof (induction xs arbitrary: m)
  case Nil
  then show ?case by simp
next
  case (Cons y ys)
  show ?case
  proof (cases "x = y")
    case True
    have "x \<le> max y m" using True by simp
    also have "\<dots> \<le> fold max ys (max y m)" by (rule fold_max_ge)
    finally show ?thesis by simp
  next
    case False
    with Cons.prems have "x \<in> set ys" by simp
    from Cons.IH [OF this] show ?thesis by simp
  qed
qed

lemma next_rowid_fresh: "next_rowid tbl \<notin> rowid ` set tbl"
proof
  assume "next_rowid tbl \<in> rowid ` set tbl"
  then have "next_rowid tbl \<in> set (map rowid tbl)" by simp
  from fold_max_upper [OF this, of 0] show False by (simp add: next_rowid_def)
qed

lemma find_split:
  "\<not> list_ex P pre \<Longrightarrow> P r \<Longrightarrow> find P (pre @ r # post) = Some r"
  by (induction pre) auto

lemma find_none: "\<not> list_ex P xs \<Longrightarrow> find P xs = None"
  by (induction xs) auto

lemma map_update_unique:
  assumes "distinct (map f (pre @ r # post))"
  shows "map (\<lambda>x. if f x = f r then g x else x) (pre @ r # post) = pre @ g r # post"
proof -
  have "f r \<notin> f ` set pre" using assms by simp
  then have "\<forall>x \<in> set pre. f x \<noteq> f r" by (metis imageI)
  then have p: "map (\<lambda>x. if f x = f r then g x else x) pre = pre"
    by (induction pre) auto
  have "f r \<notin> f ` set post" using assms by simp
  then have "\<forall>x \<in> set post. f x \<noteq> f r" by (metis imageI)
  then have q: "map (\<lambda>x. if f x = f r then g x else x) post = post"
    by (induction post) auto
  show ?thesis using p q by simp
qed

lemma save_success_rowids:
  "map rowid (save_success tbl h a l s now) = map rowid tbl
   \<or> map rowid (save_success tbl h a l s now) = map rowid tbl @ [next_rowid tbl]"
  by (cases "find (where_hals h a l s) tbl") (simp_all add: save_success_def comp_def)

lemma save_success_distinct:
  assumes "distinct (map rowid tbl)"
  shows "distinct (map rowid (save_success tbl h a l s now))"
  using save_success_rowids [of tbl h a l s now] assms next_rowid_fresh [of tbl]
  by auto

lemma get_rows_sorted:
  "sorted_wrt (\<lambda>r r'. success_count r > success_count r'
                 \<or> (success_count r = success_count r' \<and> updated r \<ge> updated r'))
     (get_rows tbl h a l)"
proof -
  have "sorted (map order_by (get_rows tbl h a l))"
    by (simp add: get_rows_def)
  then have "sorted_wrt (\<lambda>r r'. order_by r \<le> order_by r') (get_rows tbl h a l)"
    by (simp add: sorted_map)
  then show ?thesis
    by (rule sorted_wrt_mono_rel [rotated]) (auto simp: order_by_def less_eq_prod_def)
qed

section \<open>Browser pool (executor/browser\_pool.py)\<close>

text \<open>
  Browsers, contexts and pages are objects of the browser driver; the model names them by
  numbers drawn from a counter \<open>fresh_name\<close> kept in the pool. Every pooled page is created
  together with its own context. Each slot queue is a \<^verbatim>\<open>queue.Queue()\<close> built with no
  \<^verbatim>\<open>maxsize\<close>, that is, a FIFO list without bound. The model is sequential: while one call
  runs, no other thread touches the queues. Launching a browser and opening a page are
  taken to succeed.
\<close>

record Page =
  page_id :: nat
  page_context :: nat

record PageHandle =
  handle_page :: Page
  browser_idx :: int

record BrowserPool =
  max_browsers :: int
  max_pages_per_browser :: int
  browsers :: "nat list"
  pages_queues :: "(Page \<times> nat) list list"
  started :: bool
  fresh_name :: nat
  closed_pages :: "Page list"

definition BrowserPool_init :: "int \<Rightarrow> int \<Rightarrow> BrowserPool" where
  "BrowserPool_init mb mp =
     \<lparr>max_browsers = mb, max_pages_per_browser = mp, browsers = [], pages_queues = [],
      started = False, fresh_name = 0, closed_pages = []\<rparr>"

text \<open>\<^verbatim>\<open>ctx = browser.new_context(); page = ctx.new_page()\<close> with two fresh names.\<close>

definition new_page :: "nat \<Rightarrow> Page \<times> nat" where
  "new_page s = (\<lparr>page_id = Suc s, page_context = s\<rparr>, s + 2)"

text \<open>The inner loop of \<^verbatim>\<open>start\<close>: \<^verbatim>\<open>for _ in range(self.max_pages_per_browser)\<close>.\<close>

fun fill_queue :: "nat \<Rightarrow> (Page \<times> nat) list \<Rightarrow> nat \<Rightarrow> (Page \<times> nat) list \<times> nat" where
  "fill_queue 0 q s = (q, s)"
| "fill_queue (Suc k) q s =
     (let (pg, s') = new_page s in fill_queue k (q @ [(pg, page_context pg)]) s')"

text \<open>The outer loop: \<^verbatim>\<open>for i in range(self.max_browsers)\<close>.\<close>

fun launch_browsers :: "nat \<Rightarrow> BrowserPool \<Rightarrow> BrowserPool" where
  "launch_browsers 0 p = p"
| "launch_browsers (Suc k) p =
     (let b = fresh_name p;
          (q, s') = fill_queue (nat (max_pages_per_browser p)) [] (Suc b)
      in launch_browsers k
           (p\<lparr>browsers := browsers p @ [b], pages_queues := pages_queues p @ [q], fresh_name := s'\<rparr>))"

definition start :: "BrowserPool \<Rightarrow> BrowserPool" where
  "start p =
     (if started p then p
      else (launch_browsers (nat (max_browsers p)) p)\<lparr>started := True\<rparr>)"

datatype acquire_result =
    Acquired PageHandle BrowserPool
  | Blocked
  | Raised exn BrowserPool

text \<open>
  The round-robin loop of \<^verbatim>\<open>_acquire\<close> over the indices still to visit. \<^verbatim>\<open>q.get(timeout)\<close>
  raises ValueError on a negative timeout, waits for ever on an empty queue when the
  timeout is None (\<open>Blocked\<close>: the call does not return), raises \<^verbatim>\<open>queue.Empty\<close> on an
  empty queue after a non-negative timeout (the loop goes on), and otherwise takes the
  head of the queue. The result None means that the loop ended without a return.
\<close>

fun scan_queues :: "rat option \<Rightarrow> nat list \<Rightarrow> BrowserPool \<Rightarrow> acquire_result option" where
  "scan_queues timeout [] p = None"
| "scan_queues timeout (i # rest) p =
     (let n = length (pages_queues p);
          idx = (0 + i) mod n;
          q = pages_queues p ! idx
      in if timeout \<noteq> None \<and> the timeout < 0
         then Some (Raised (ValueError ''timeout must be a non-negative number'') p)
         else (case q of
                 [] \<Rightarrow> if timeout = None then Some Blocked else scan_queues timeout rest p
               | (pg, ctx) # q' \<Rightarrow>
                   Some (Acquired \<lparr>handle_page = pg, browser_idx = int idx\<rparr>
                           (p\<lparr>pages_queues := (pages_queues p)[idx := q']\<rparr>))))"

definition acquire :: "BrowserPool \<Rightarrow> rat option \<Rightarrow> acquire_result" where
  "acquire p0 timeout =
     (let p = (if \<not> started p0 then start p0 else p0);
          n = length (pages_queues p)
      in case scan_queues timeout [0..<n] p of
           Some r \<Rightarrow> r
         | None \<Rightarrow>
             if browsers p \<noteq> []
             then (let (pg, s') = new_page (fresh_name p)
                   in Acquired \<lparr>handle_page = pg, browser_idx = 0\<rparr> (p\<lparr>fresh_name := s'\<rparr>))
             else Raised (RuntimeError ''No browsers available'') p)"

text \<open>
  \<^verbatim>\<open>_release\<close>. \<^verbatim>\<open>self._pages_queues[idx]\<close> is Python indexing: an index from \<open>-n\<close> to
  \<open>n - 1\<close> names a slot, any other raises IndexError and the page is closed. The
  \<^verbatim>\<open>put(..., block=False)\<close> into a queue without bound cannot raise \<^verbatim>\<open>queue.Full\<close>, so the
  second handler is never entered.
\<close>

definition py_slot :: "nat \<Rightarrow> int \<Rightarrow> nat option" where
  "py_slot n idx =
     (if 0 \<le> idx \<and> idx < int n then Some (nat idx)
      else if - int n \<le> idx \<and> idx < 0 then Some (nat (int n + idx))
      else None)"

definition release :: "BrowserPool \<Rightarrow> PageHandle \<Rightarrow> BrowserPool" where
  "release p h =
     (case py_slot (length (pages_queues p)) (browser_idx h) of
        None \<Rightarrow> p\<lparr>closed_pages := closed_pages p @ [handle_page h]\<rparr>
      | Some i \<Rightarrow>
          p\<lparr>pages_queues :=
               (pages_queues p)[i := pages_queues p ! i
                                      @ [(handle_page h, page_context (handle_page h))]]\<rparr>)"

fun release_all :: "BrowserPool \<Rightarrow> PageHandle list \<Rightarrow> BrowserPool" where
  "release_all p [] = p"
| "release_all p (h # hs) = release_all (release p h) hs"

lemma scan_queues_all_empty:
  assumes "list_all (\<lambda>q. q = []) (pages_queues p)" and "0 \<le> t"
    and "pages_queues p \<noteq> []"
  shows "scan_queues (Some t) is p = None"
proof (induction "is")
  case Nil
  then show ?case by simp
next
  case (Cons i rest)
  have "i mod length (pages_queues p) < length (pages_queues p)"
    using assms(3) by simp
  then have "pages_queues p ! (i mod length (pages_queues p)) = []"
    using assms(1) by (simp add: list_all_length)
  then show ?case using Cons.IH assms(2) by (simp add: Let_def)
qed

lemma release_slot0_length:
  assumes "pages_queues p \<noteq> []" and "browser_idx h = 0"
  shows "length (pages_queues (release p h) ! 0) = Suc (length (pages_queues p ! 0))
         \<and> pages_queues (release p h) \<noteq> []"
  using assms by (simp add: release_def py_slot_def)

lemma release_all_slot0_length:
  "pages_queues p \<noteq> [] \<Longrightarrow> list_all (\<lambda>h. browser_idx h = 0) hs \<Longrightarrow>
   length (pages_queues (release_all p hs) ! 0) = length (pages_queues p ! 0) + length hs"
proof (induction hs arbitrary: p)
  case Nil
  then show ?case by simp
next
  case (Cons h hs)
  from Cons.prems have h0: "browser_idx h = 0" and rest: "list_all (\<lambda>h. browser_idx h = 0) hs"
    by simp_all
  note step = release_slot0_length [OF Cons.prems(1) h0]
  from Cons.IH [of "release p h"] step rest show ?case by simp
qed

section \<open>The run loops (agents/orchestrator.py, agents/base\_agent.py)\<close>

text \<open>\<^verbatim>\<open>sub in s\<close> for strings.\<close>

fun contains :: "string \<Rightarrow> string \<Rightarrow> bool" where
  "contains [] sub = (sub = [])"
| "contains (x # xs) sub = (startswith (x # xs) sub \<or> contains xs sub)"

definition validate :: "string \<Rightarrow> bool" where
  "validate observation =
     (\<not> list_ex (\<lambda>k. contains (lower observation) k) [''error'', ''timeout'', ''not found''])"

definition classify :: "string \<Rightarrow> string" where
  "classify step =
     (let s = lower step
      in if contains s ''login'' \<or> contains s ''sign in'' then ''login''
         else if contains s ''form'' \<or> contains s ''fill'' \<or> contains s ''submit'' then ''form''
         else if contains s ''research'' \<or> contains s ''search'' \<or> contains s ''summarize''
         then ''research''
         else ''base'')"

text \<open>
  What the loop calls but does not define: the stop flag of the run manager, the step
  executor of the agent the step is routed to (it returns an observation or raises), the
  planner's \<^verbatim>\<open>replan\<close> (goal and context are fixed during a run) and the DOM snapshot.
  They act on a world \<open>'w\<close> (browser, planner, clock) that the loop threads through.
  The planner and the snapshot are taken to return; an exception of theirs would leave
  the loop.
\<close>

record 'w env =
  should_stop :: "'w \<Rightarrow> bool"
  execute_step :: "'w \<Rightarrow> string \<Rightarrow> string \<Rightarrow> (exn + string) \<times> 'w"
  replan :: "'w \<Rightarrow> string list \<Rightarrow> string \<Rightarrow> string list \<times> 'w"
  snapshot_dom :: "'w \<Rightarrow> string"

text \<open>
  The local variables of \<^verbatim>\<open>run\<close> that the loop changes: \<^verbatim>\<open>plan\<close>, \<^verbatim>\<open>observations\<close>, and
  the step log written by \<^verbatim>\<open>memory.add_step\<close>.
\<close>

record run_state =
  plan :: "string list"
  observations :: "string list"
  step_log :: "(nat \<times> string \<times> string) list"

definition newline :: string where
  "newline = [CHR 0x0A]"

text \<open>
  \<^verbatim>\<open>for idx, step in enumerate(plan, start=1)\<close> in \<^verbatim>\<open>MultiAgentRunner.run\<close>. The iterator is
  made once, from the list that \<^verbatim>\<open>plan\<close> names when the loop starts; the third argument is
  what that iterator has still to yield. The assignments \<^verbatim>\<open>plan = repl\<close> and
  \<^verbatim>\<open>plan = self.base.planner.replan(...)\<close> give the variable a new list and leave the
  iterator alone; \<^verbatim>\<open>continue\<close> asks it for its next item. The screenshot branch is off
  (\<^verbatim>\<open>screenshots_dir\<close> is None by default).
\<close>

fun run_steps :: "'w env \<Rightarrow> nat \<Rightarrow> string list \<Rightarrow> run_state \<times> 'w \<Rightarrow> run_state \<times> 'w" where
  "run_steps E idx [] (st, w) = (st, w)"
| "run_steps E idx (step # rest) (st, w) =
     (if should_stop E w then (st, w)
      else
        let who = classify step
        in case execute_step E w who step of
             (Inr obs, w1) \<Rightarrow>
               let st1 = st\<lparr>observations := observations st @ [''['' @ who @ ''] '' @ obs],
                            step_log := step_log st @ [(idx, who @ '':'' @ step, obs)]\<rparr>
               in if \<not> validate obs
                  then
                    let dom = snapshot_dom E w1;
                        (repl, w2) = replan E w1 (plan st1)
                           (''Validation failed: '' @ obs @ newline @ ''DOM: '' @ take 2000 dom)
                    in run_steps E (idx + 1) rest (st1\<lparr>plan := repl\<rparr>, w2)
                  else run_steps E (idx + 1) rest (st1, w1)
           | (Inl e, w1) \<Rightarrow>
               let dom = snapshot_dom E w1;
                   observation = ''Error: '' @ exn_message e @ newline @ ''DOM: '' @ take 2000 dom;
                   (repl, w2) = replan E w1 (plan st) observation
               in run_steps E (idx + 1) rest (st\<lparr>plan := repl\<rparr>, w2))"

text \<open>\<^verbatim>\<open>MultiAgentRunner.run\<close> from the planner's first plan to the end of the loop.\<close>

definition run :: "'w env \<Rightarrow> 'w \<Rightarrow> string list \<Rightarrow> run_state \<times> 'w" where
  "run E w plan0 = run_steps E 1 plan0 (\<lparr>plan = plan0, observations = [], step_log = []\<rparr>, w)"

text \<open>
  The loop of \<^verbatim>\<open>BaseAgent.run\<close>: no stop flag, no routing, no validation; an exception
  makes it replan and \<^verbatim>\<open>continue\<close> in the same way.
\<close>

fun base_run_steps :: "'w env \<Rightarrow> nat \<Rightarrow> string list \<Rightarrow> run_state \<times> 'w \<Rightarrow> run_state \<times> 'w" where
  "base_run_steps E idx [] (st, w) = (st, w)"
| "base_run_steps E idx (step # rest) (st, w) =
     (case execute_step E w ''base'' step of
        (Inr obs, w1) \<Rightarrow>
          base_run_steps E (idx + 1) rest
            (st\<lparr>observations := observations st @ [obs],
                step_log := step_log st @ [(idx, step, obs)]\<rparr>, w1)
      | (Inl e, w1) \<Rightarrow>
          let dom = snapshot_dom E w1;
              observation = ''Error: '' @ exn_message e @ newline @ ''DOM: '' @ take 2000 dom;
              (repl, w2) = replan E w1 (plan st) observation
          in base_run_steps E (idx + 1) rest (st\<lparr>plan := repl\<rparr>, w2))"

definition base_run :: "'w env \<Rightarrow> 'w \<Rightarrow> string list \<Rightarrow> run_state \<times> 'w" where
  "base_run E w plan0 =
     base_run_steps E 1 plan0 (\<lparr>plan = plan0, observations = [], step_log = []\<rparr>, w)"

text \<open>
  An environment for running the loops on an example. Its world is the list of the steps
  dispatched so far; the step \<^verbatim>\<open>click #buy\<close> raises a timeout, every other step returns
  \<^verbatim>\<open>done\<close>; the planner always answers with the same two-step plan.
\<close>

definition example_env :: "string list env" where
  "example_env =
     \<lparr>should_stop = (\<lambda>w. False),
      execute_step = (\<lambda>w who step.
         (if step = ''click #buy'' then Inl (PlaywrightError ''Timeout 10000ms exceeded'')
          else Inr ''done'', w @ [step])),
      replan = (\<lambda>w last_plan observation. ([''open https://shop.example/cart'', ''click #pay''], w)),
      snapshot_dom = (\<lambda>w. ''<html></html>'')\<rparr>"

section \<open>Semantic resolver (memory/vector\_store.py)\<close>

subsection \<open>Floats\<close>

text \<open>
  A Python float is an IEEE 754 double: 53 significant bits, and every arithmetic operation
  (and \<^verbatim>\<open>math.sqrt\<close>) returns the exact result rounded to the nearest double, a tie going to
  the even significand. A float is modelled as the real number it denotes and the rounding
  as \<open>fl\<close>: between \<open>pow2 e\<close> and \<open>pow2 (e + 1)\<close> the doubles are the multiples of
  \<open>pow2 (e - 52)\<close>. The exponent is not bounded: the vector store computes with token counts, their squares,
  and quotients and products of these, far from overflow and from the subnormal range.
\<close>

definition pow2 :: "int \<Rightarrow> real" where
  "pow2 e = (if 0 \<le> e then 2 ^ nat e else 1 / 2 ^ nat (- e))"

definition round_half_even :: "real \<Rightarrow> int" where
  "round_half_even y =
     (let f = \<lfloor>y\<rfloor>; r = y - of_int f
      in if r < 1 / 2 then f else if 1 / 2 < r then f + 1 else if even f then f else f + 1)"

definition fl :: "real \<Rightarrow> real" where
  "fl x =
     (if x = 0 then 0
      else (let e = \<lfloor>log 2 \<bar>x\<bar>\<rfloor>; u = pow2 (e - 52)
            in of_int (round_half_even (x / u)) * u))"

subsection \<open>Built-ins of the interpreter\<close>

text \<open>
  Two built-ins are not fixed by the language. \<^verbatim>\<open>hash\<close> on strings is salted per process.
  \<^verbatim>\<open>sum\<close> on floats adds from left to right, rounding each partial sum, in CPython up to
  3.11, and carries a compensation term since 3.12; the two can differ in the last bit.
  Both are parameters, collected in \<open>h\<close>. \<^verbatim>\<open>sum\<close> of no items is the int 0 in every version.
\<close>

record builtins =
  str_hash :: "string \<Rightarrow> int"
  float_sum :: "real list \<Rightarrow> real"

definition py_sum :: "builtins \<Rightarrow> real list \<Rightarrow> real" where
  "py_sum h xs = (if xs = [] then 0 else float_sum h xs)"

text \<open>The summation from left to right, and the interpreter that has it, for a given hash.\<close>

definition sum_left :: "real list \<Rightarrow> real" where
  "sum_left xs = foldl (\<lambda>acc x. fl (acc + x)) 0 xs"

definition python_with_hash :: "(string \<Rightarrow> int) \<Rightarrow> builtins" where
  "python_with_hash f = \<lparr>str_hash = f, float_sum = sum_left\<rparr>"

subsection \<open>SimpleVectorStore\<close>

text \<open>\<^verbatim>\<open>dim\<close> is the constructor's argument, an int (512 by default).\<close>

record SimpleVectorStore =
  vs_dim :: int
  docs :: "string list"
  vecs :: "real list list"

definition SimpleVectorStore_init :: "int \<Rightarrow> SimpleVectorStore" where
  "SimpleVectorStore_init d = \<lparr>vs_dim = d, docs = [], vecs = []\<rparr>"

text \<open>
  \<^verbatim>\<open>re.findall(r'[a-zA-Z0-9]+', s)\<close>: the maximal runs of ASCII letters and digits, from
  left to right. The second argument is the run being read.
\<close>

definition alnum :: "char \<Rightarrow> bool" where
  "alnum c = (c \<in> set (ascii_lower @ ascii_upper @ digits))"

fun findall_alnum :: "string \<Rightarrow> string \<Rightarrow> string list" where
  "findall_alnum [] cur = (if cur = [] then [] else [cur])"
| "findall_alnum (c # cs) cur =
     (if alnum c then findall_alnum cs (cur @ [c])
      else if cur = [] then findall_alnum cs []
      else cur # findall_alnum cs [])"

definition tokenize :: "string \<Rightarrow> string list" where
  "tokenize text = findall_alnum (lower text) []"

text \<open>\<^verbatim>\<open>_hash\<close>: \<^verbatim>\<open>(hash(token) % self.dim + self.dim) % self.dim\<close>, Python's floored \<^verbatim>\<open>%\<close>.\<close>

definition hash :: "builtins \<Rightarrow> int \<Rightarrow> string \<Rightarrow> int" where
  "hash h d token = (str_hash h token mod d + d) mod d"

text \<open>
  The counting loop of \<^verbatim>\<open>_embed\<close>, \<^verbatim>\<open>v[self._hash(t)] += 1.0\<close> on a vector of length \<open>dim\<close>;
  used for \<open>dim > 0\<close>, where every bucket is a valid index.
\<close>

definition bag :: "builtins \<Rightarrow> int \<Rightarrow> string \<Rightarrow> real list" where
  "bag h d text =
     fold (\<lambda>t v. v[nat (hash h d t) := fl (v ! nat (hash h d t) + 1)])
          (tokenize text) (replicate (nat d) 0)"

text \<open>\<^verbatim>\<open>norm = math.sqrt(sum(x*x for x in v)) or 1.0\<close>: 1.0 replaces a norm of 0.0.\<close>

definition norm2 :: "builtins \<Rightarrow> real list \<Rightarrow> real" where
  "norm2 h v =
     (let n = fl (sqrt (py_sum h (map (\<lambda>x. fl (x * x)) v))) in if n = 0 then 1 else n)"

text \<open>\<^verbatim>\<open>return [x / norm for x in v]\<close>.\<close>

definition normalize :: "builtins \<Rightarrow> real list \<Rightarrow> real list" where
  "normalize h v = map (\<lambda>x. fl (x / norm2 h v)) v"

text \<open>
  \<^verbatim>\<open>_embed\<close>. With \<open>dim = 0\<close> the first token makes \<^verbatim>\<open>_hash\<close> divide by zero; with
  \<open>dim < 0\<close> the vector is empty and the first token's index is out of range. A text
  without tokens embeds to the unchanged vector of zeros.
\<close>

definition embed :: "builtins \<Rightarrow> int \<Rightarrow> string \<Rightarrow> exn + real list" where
  "embed h d text =
     (if tokenize text \<noteq> [] \<and> d = 0 then Inl ZeroDivisionError
      else if tokenize text \<noteq> [] \<and> d < 0 then Inl IndexError
      else Inr (normalize h (bag h d text)))"

text \<open>
  \<^verbatim>\<open>add_texts\<close>, text by text. An exception of \<^verbatim>\<open>_embed\<close> leaves the method; the store is
  then the caller's to discard.
\<close>

fun add_texts :: "builtins \<Rightarrow> SimpleVectorStore \<Rightarrow> string list \<Rightarrow> exn + SimpleVectorStore" where
  "add_texts h st [] = Inr st"
| "add_texts h st (t # ts) =
     (case embed h (vs_dim st) t of
        Inl e \<Rightarrow> Inl e
      | Inr v \<Rightarrow> add_texts h (st\<lparr>docs := docs st @ [t], vecs := vecs st @ [v]\<rparr>) ts)"

text \<open>\<^verbatim>\<open>sum(a*b for a,b in zip(q, v))\<close>.\<close>

definition dotp :: "builtins \<Rightarrow> real list \<Rightarrow> real list \<Rightarrow> real" where
  "dotp h q v = py_sum h (map (\<lambda>(a, b). fl (a * b)) (zip q v))"

text \<open>\<^verbatim>\<open>xs[:k]\<close>: a negative \<open>k\<close> counts from the end.\<close>

definition slice_to :: "int \<Rightarrow> 'a list \<Rightarrow> 'a list" where
  "slice_to k xs = (if 0 \<le> k then take (nat k) xs else take (length xs - nat (- k)) xs)"

text \<open>
  The loop that fills \<^verbatim>\<open>scores\<close>, and the sort. \<^verbatim>\<open>scores.sort(key=lambda x: x[1],
  reverse=True)\<close> is stable also when reversed: entries with equal scores keep their
  order. That is the stable ascending sort on the negated score.
\<close>

definition scores :: "builtins \<Rightarrow> real list \<Rightarrow> real list list \<Rightarrow> (nat \<times> real) list" where
  "scores h q vs = map (\<lambda>(i, v). (i, dotp h q v)) (enumerate 0 vs)"

definition ranked :: "builtins \<Rightarrow> real list \<Rightarrow> real list list \<Rightarrow> (nat \<times> real) list" where
  "ranked h q vs = sort_key (\<lambda>x. - snd x) (scores h q vs)"

text \<open>\<^verbatim>\<open>[(self.docs[i], score) for i, score in scores[:k]]\<close>, with the index checked.\<close>

fun lookup_docs :: "string list \<Rightarrow> (nat \<times> real) list \<Rightarrow> exn + (string \<times> real) list" where
  "lookup_docs ds [] = Inr []"
| "lookup_docs ds ((i, s) # rest) =
     (if i < length ds
      then (case lookup_docs ds rest of Inl e \<Rightarrow> Inl e | Inr r \<Rightarrow> Inr ((ds ! i, s) # r))
      else Inl IndexError)"

definition similarity_search ::
  "builtins \<Rightarrow> SimpleVectorStore \<Rightarrow> string \<Rightarrow> int \<Rightarrow> exn + (string \<times> real) list" where
  "similarity_search h st query k =
     (case embed h (vs_dim st) query of
        Inl e \<Rightarrow> Inl e
      | Inr q \<Rightarrow> lookup_docs (docs st) (slice_to k (ranked h q (vecs st))))"

text \<open>
  The specification's measure, in exact real arithmetic: the cosine similarity of two
  count vectors; 0 when one of them is the zero vector (a text without tokens).
\<close>

definition spec_cosine_similarity :: "real list \<Rightarrow> real list \<Rightarrow> real" where
  "spec_cosine_similarity u v =
     (let nu = sqrt (sum_list (map (\<lambda>x. x * x) u)); nv = sqrt (sum_list (map (\<lambda>x. x * x) v))
      in if nu = 0 \<or> nv = 0 then 0
         else sum_list (map (\<lambda>(a, b). a * b) (zip u v)) / (nu * nv))"

text \<open>Rounding: a real within half a unit of a double rounds to it.\<close>

lemma pow2_powr: "pow2 e = 2 powr (of_int e)"
  by (simp add: pow2_def powr_int)

lemma pow2_pos [simp]: "0 < pow2 e"
  by (simp add: pow2_powr)

lemma pow2_split: "pow2 e = 2 ^ 52 * pow2 (e - 52)"
proof -
  have "pow2 e = 2 powr (52 + of_int (e - 52))" by (simp add: pow2_powr)
  also have "\<dots> = 2 powr 52 * 2 powr (of_int (e - 52))" by (rule powr_add)
  finally show ?thesis by (simp add: pow2_powr)
qed

lemma pow2_Suc: "pow2 (e + 1) = 2 * pow2 e"
proof -
  have "pow2 (e + 1) = 2 powr (of_int e + 1)" by (simp add: pow2_powr)
  also have "\<dots> = 2 powr (of_int e) * 2 powr 1" by (rule powr_add)
  finally show ?thesis by (simp add: pow2_powr)
qed

lemma round_half_even_nearest:
  assumes "of_int m - 1 / 2 < y" and "y < of_int m + 1 / 2"
  shows "round_half_even y = m"
proof (cases "of_int m \<le> y")
  case True
  then have "\<lfloor>y\<rfloor> = m" using assms(2) by linarith
  then show ?thesis using assms(2) by (simp add: round_half_even_def Let_def)
next
  case False
  then have f: "\<lfloor>y\<rfloor> = m - 1" using assms(1) by linarith
  have "1 / 2 < y - of_int (m - 1)" using assms(1) by simp
  then show ?thesis using f by (simp add: round_half_even_def Let_def)
qed

lemma fl_nearest:
  assumes "pow2 e \<le> x" and "x < pow2 (e + 1)"
    and "(of_int m - 1 / 2) * pow2 (e - 52) < x"
    and "x < (of_int m + 1 / 2) * pow2 (e - 52)"
  shows "fl x = of_int m * pow2 (e - 52)"
proof -
  have pos: "0 < x" using assms(1) pow2_pos [of e] by linarith
  have "\<lfloor>log 2 x\<rfloor> = e"
    using pos assms(1,2) by (simp add: floor_log_eq_powr_iff pow2_powr)
  then have e: "\<lfloor>log 2 \<bar>x\<bar>\<rfloor> = e" using pos by simp
  have u: "0 < pow2 (e - 52)" by simp
  have "of_int m - 1 / 2 < x / pow2 (e - 52)"
    using assms(3) u by (simp add: pos_less_divide_eq)
  moreover have "x / pow2 (e - 52) < of_int m + 1 / 2"
    using assms(4) u by (simp add: pos_divide_less_eq)
  ultimately have "round_half_even (x / pow2 (e - 52)) = m"
    by (rule round_half_even_nearest)
  then show ?thesis using pos e by (simp add: fl_def Let_def)
qed

lemma fl_exact:
  assumes "x = of_int m * pow2 (e - 52)" and "2 ^ 52 \<le> m" and "m < 2 ^ 53"
  shows "fl x = x"
proof -
  have u: "0 < pow2 (e - 52)" by simp
  have m1: "(2::real) ^ 52 \<le> of_int m"
    using assms(2) by (metis of_int_le_iff of_int_numeral of_int_power)
  have m2: "of_int m < (2::real) ^ 53"
    using assms(3) by (metis of_int_less_iff of_int_numeral of_int_power)
  have lo: "pow2 e \<le> x"
    unfolding assms(1) pow2_split [of e] using m1 u by simp
  have hi: "x < pow2 (e + 1)"
    unfolding assms(1) pow2_Suc pow2_split [of e] using m2 u by simp
  have a: "(of_int m - 1 / 2) * pow2 (e - 52) < x"
    unfolding assms(1) using u by simp
  have b: "x < (of_int m + 1 / 2) * pow2 (e - 52)"
    unfolding assms(1) using u by simp
  show ?thesis using fl_nearest [OF lo hi a b] assms(1) by simp
qed

lemma fl_0 [simp]: "fl 0 = 0"
  by (simp add: fl_def)

lemma fl_1 [simp]: "fl 1 = 1"
  using fl_exact [of 1 "2 ^ 52" 0] by (simp add: pow2_def)

lemma fl_2: "fl 2 = 2"
  using fl_exact [of 2 "2 ^ 52" 1] by (simp add: pow2_def)

lemma fl_3: "fl 3 = 3"
  using fl_exact [of 3 "3 * 2 ^ 51" 1] by (simp add: pow2_def)

lemma fl_9: "fl 9 = 9"
  using fl_exact [of 9 "9 * 2 ^ 49" 3] by (simp add: pow2_def)

lemma fl_18: "fl 18 = 18"
  using fl_exact [of 18 "9 * 2 ^ 49" 4] by (simp add: pow2_def)

text \<open>
  Some roundings: \<^verbatim>\<open>math.sqrt(2.0)\<close> is 1.4142135623730951 and \<^verbatim>\<open>math.sqrt(18.0)\<close> is
  4.242640687119285; 1.0 divided by the first is 0.7071067811865475 and 3.0 divided by
  the second is 0.7071067811865476.
\<close>

lemma fl_sqrt_2: "fl (sqrt 2) = 6369051672525773 / 2 ^ 52"
proof -
  have lo: "pow2 0 \<le> sqrt 2" by (simp add: pow2_def)
  have "sqrt 2 < 2" by (rule real_less_lsqrt) simp_all
  then have hi: "sqrt 2 < pow2 (0 + 1)" by (simp add: pow2_def)
  have "(12738103345051545 / 9007199254740992 :: real) < sqrt 2"
    by (rule real_less_rsqrt) (simp add: power2_eq_square)
  then have a: "(of_int 6369051672525773 - 1 / 2) * pow2 (0 - 52) < sqrt 2"
    by (simp add: pow2_def)
  have "sqrt 2 < (12738103345051547 / 9007199254740992 :: real)"
    by (rule real_less_lsqrt) (simp_all add: power2_eq_square)
  then have b: "sqrt 2 < (of_int 6369051672525773 + 1 / 2) * pow2 (0 - 52)"
    by (simp add: pow2_def)
  show ?thesis using fl_nearest [OF lo hi a b] by (simp add: pow2_def)
qed

lemma fl_sqrt_18: "fl (sqrt 18) = 4776788754394329 / 2 ^ 50"
proof -
  have "4 \<le> sqrt 18" by (rule real_le_rsqrt) simp
  then have lo: "pow2 2 \<le> sqrt 18" by (simp add: pow2_def)
  have "sqrt 18 < 8" by (rule real_less_lsqrt) simp_all
  then have hi: "sqrt 18 < pow2 (2 + 1)" by (simp add: pow2_def)
  have "(9553577508788657 / 2251799813685248 :: real) < sqrt 18"
    by (rule real_less_rsqrt) (simp add: power2_eq_square)
  then have a: "(of_int 4776788754394329 - 1 / 2) * pow2 (2 - 52) < sqrt 18"
    by (simp add: pow2_def)
  have "sqrt 18 < (9553577508788659 / 2251799813685248 :: real)"
    by (rule real_less_lsqrt) (simp_all add: power2_eq_square)
  then have b: "sqrt 18 < (of_int 4776788754394329 + 1 / 2) * pow2 (2 - 52)"
    by (simp add: pow2_def)
  show ?thesis using fl_nearest [OF lo hi a b] by (simp add: pow2_def)
qed

lemma fl_inv_sqrt_2: "fl (1 / (6369051672525773 / 2 ^ 52)) = 6369051672525772 / 2 ^ 53"
proof -
  let ?x = "1 / (6369051672525773 / 2 ^ 52) :: real"
  have lo: "pow2 (- 1) \<le> ?x" by (simp add: pow2_def)
  have hi: "?x < pow2 (- 1 + 1)" by (simp add: pow2_def)
  have a: "(of_int 6369051672525772 - 1 / 2) * pow2 (- 1 - 52) < ?x"
    by (simp add: pow2_def field_simps)
  have b: "?x < (of_int 6369051672525772 + 1 / 2) * pow2 (- 1 - 52)"
    by (simp add: pow2_def field_simps)
  show ?thesis using fl_nearest [OF lo hi a b] by (simp add: pow2_def)
qed

lemma fl_3_div_sqrt_18: "fl (3 / (4776788754394329 / 2 ^ 50)) = 6369051672525773 / 2 ^ 53"
proof -
  let ?x = "3 / (4776788754394329 / 2 ^ 50) :: real"
  have lo: "pow2 (- 1) \<le> ?x" by (simp add: pow2_def)
  have hi: "?x < pow2 (- 1 + 1)" by (simp add: pow2_def)
  have a: "(of_int 6369051672525773 - 1 / 2) * pow2 (- 1 - 52) < ?x"
    by (simp add: pow2_def field_simps)
  have b: "?x < (of_int 6369051672525773 + 1 / 2) * pow2 (- 1 - 52)"
    by (simp add: pow2_def field_simps)
  show ?thesis using fl_nearest [OF lo hi a b] by (simp add: pow2_def)
qed

lemma fl_below_inv_sqrt_2: "fl (6369051672525772 / 2 ^ 53) = 6369051672525772 / 2 ^ 53"
  using fl_exact [of "6369051672525772 / 2 ^ 53" 6369051672525772 "- 1"] by (simp add: pow2_def)

lemma fl_above_inv_sqrt_2: "fl (6369051672525773 / 2 ^ 53) = 6369051672525773 / 2 ^ 53"
  using fl_exact [of "6369051672525773 / 2 ^ 53" 6369051672525773 "- 1"] by (simp add: pow2_def)

text \<open>The store after \<^verbatim>\<open>add_texts\<close>, for a positive dimension.\<close>

lemma embed_pos: "0 < d \<Longrightarrow> embed h d text = Inr (normalize h (bag h d text))"
  by (simp add: embed_def)

lemma add_texts_pos:
  "0 < vs_dim st \<Longrightarrow>
   add_texts h st ts =
     Inr (st\<lparr>docs := docs st @ ts,
             vecs := vecs st @ map (\<lambda>t. normalize h (bag h (vs_dim st) t)) ts\<rparr>)"
proof (induction ts arbitrary: st)
  case Nil
  then show ?case by simp
next
  case (Cons t ts)
  let ?st = "st\<lparr>docs := docs st @ [t], vecs := vecs st @ [normalize h (bag h (vs_dim st) t)]\<rparr>"
  have "0 < vs_dim ?st" using Cons.prems by simp
  from Cons.IH [OF this] Cons.prems show ?case by (simp add: embed_pos)
qed

text \<open>
  The stable sort of a list that is strictly ascending in \<open>g\<close> (the position) is ordered
  by the key first and by \<open>g\<close> among equal keys.
\<close>

lemma insort_key_by_key_then_position:
  fixes f :: "'a \<Rightarrow> 'k::linorder" and g :: "'a \<Rightarrow> nat"
  assumes "sorted_wrt (\<lambda>a b. f a < f b \<or> (f a = f b \<and> g a < g b)) ys"
    and "\<forall>y \<in> set ys. g x < g y"
  shows "sorted_wrt (\<lambda>a b. f a < f b \<or> (f a = f b \<and> g a < g b)) (insort_key f x ys)"
  using assms
proof (induction ys)
  case Nil
  then show ?case by simp
next
  case (Cons y ys)
  show ?case
  proof (cases "f x \<le> f y")
    case True
    have "\<forall>z \<in> set (y # ys). f x < f z \<or> (f x = f z \<and> g x < g z)"
    proof
      fix z assume z: "z \<in> set (y # ys)"
      have "f y \<le> f z" using z Cons.prems(1) by auto
      with True have "f x \<le> f z" by simp
      moreover have "g x < g z" using z Cons.prems(2) by auto
      ultimately show "f x < f z \<or> (f x = f z \<and> g x < g z)" by auto
    qed
    with True Cons.prems(1) show ?thesis by simp
  next
    case False
    have rest: "sorted_wrt (\<lambda>a b. f a < f b \<or> (f a = f b \<and> g a < g b)) (insort_key f x ys)"
      using Cons.IH Cons.prems by simp
    have "\<forall>z \<in> set (insort_key f x ys). f y < f z \<or> (f y = f z \<and> g y < g z)"
      using False Cons.prems(1) by (auto simp: set_insort_key)
    with False rest show ?thesis by simp
  qed
qed

lemma sort_key_by_key_then_position:
  fixes f :: "'a \<Rightarrow> 'k::linorder" and g :: "'a \<Rightarrow> nat"
  assumes "sorted_wrt (\<lambda>a b. g a < g b) xs"
  shows "sorted_wrt (\<lambda>a b. f a < f b \<or> (f a = f b \<and> g a < g b)) (sort_key f xs)"
  using assms
proof (induction xs)
  case Nil
  then show ?case by simp
next
  case (Cons x xs)
  have "\<forall>y \<in> set (sort_key f xs). g x < g y" using Cons.prems by simp
  with Cons show ?case by (simp add: insort_key_by_key_then_position)
qed

lemma map_fst_scores: "map fst (scores h q vs) = [0..<length vs]"
  by (simp add: scores_def enumerate_eq_zip split_beta comp_def)

lemma scores_positions_ascending: "sorted_wrt (\<lambda>a b. fst a < fst b) (scores h q vs)"
proof -
  have "sorted_wrt (<) (map fst (scores h q vs))"
    by (simp add: map_fst_scores)
  then show ?thesis by (simp add: sorted_wrt_map)
qed

lemma ranked_order:
  "sorted_wrt (\<lambda>a b. snd a > snd b \<or> (snd a = snd b \<and> fst a < fst b)) (ranked h q vs)"
proof -
  have "sorted_wrt (\<lambda>a b. - snd a < - snd b \<or> (- snd a = - snd b \<and> fst a < fst b))
          (sort_key (\<lambda>x. - snd x) (scores h q vs))"
    by (rule sort_key_by_key_then_position [OF scores_positions_ascending])
  then show ?thesis by (simp add: ranked_def)
qed

lemma ranked_entries:
  assumes "(i, s) \<in> set (ranked h q vs)"
  shows "i < length vs \<and> s = dotp h q (vs ! i)"
proof -
  from assms have "(i, s) \<in> set (scores h q vs)" by (simp add: ranked_def)
  then show ?thesis by (auto simp: scores_def in_set_enumerate_eq)
qed

lemma mset_map_fst_ranked: "mset (map fst (ranked h q vs)) = mset [0..<length vs]"
proof -
  have "mset (ranked h q vs) = mset (scores h q vs)" by (simp add: ranked_def)
  then have "mset (map fst (ranked h q vs)) = mset (map fst (scores h q vs))"
    by (metis mset_map)
  then show ?thesis by (simp only: map_fst_scores)
qed

lemma lookup_docs_in_range:
  "\<forall>x \<in> set xs. fst x < length ds \<Longrightarrow>
   lookup_docs ds xs = Inr (map (\<lambda>x. (ds ! fst x, snd x)) xs)"
proof (induction xs)
  case Nil
  then show ?case by simp
next
  case (Cons x xs)
  obtain i s where x: "x = (i, s)" by (cases x)
  with Cons show ?case by simp
qed

lemma ranked_single: "ranked h q [v] = [(0, dotp h q v)]"
  by (simp add: ranked_def scores_def)

section \<open>The navigator (executor/web\_navigator.py)\<close>

subsection \<open>State\<close>

text \<open>
  The logger's records: level and formatted message. The rate buckets are the dict
  \<^verbatim>\<open>SecurityManager.buckets\<close>, an association list from origin to bucket.
\<close>

datatype level = INFO | WARNING | ERROR

record SecurityManager =
  allowed_domains :: "string list"
  rate_limit_per_min :: int
  buckets :: "(string \<times> TokenBucket) list"

text \<open>
  The navigator's world: the browser page (a state \<open>'p\<close> of the browser, which the
  program reaches only through the operations below), the security manager, the selector
  table behind \<^verbatim>\<open>sel_mem\<close>, the wall clock and the log.
\<close>

record 'p nav =
  nav_page :: 'p
  security :: SecurityManager
  sel_mem :: "selector_row list"
  clock :: rat
  logged :: "(level \<times> string) list"

definition log_to :: "level \<Rightarrow> string \<Rightarrow> 'p nav \<Rightarrow> 'p nav" where
  "log_to lv msg w = w\<lparr>logged := logged w @ [(lv, msg)]\<rparr>"

text \<open>
  The browser operations the navigator calls. Each takes the page and returns the
  exception it raised, if any, and the page afterwards. \<^verbatim>\<open>candidate_docs\<close> stands for the
  collection loop of \<^verbatim>\<open>_semantic_candidate\<close> (query the clickable or the editable elements,
  join each element's text and attributes, drop the empty ones); it is None when the
  query raised. The flag is True for mode \<^verbatim>\<open>click\<close>.
\<close>

record 'p browser =
  page_url :: "'p \<Rightarrow> string"
  page_goto :: "'p \<Rightarrow> string \<Rightarrow> exn option \<times> 'p"
  wait_for_selector :: "'p \<Rightarrow> string \<Rightarrow> exn option \<times> 'p"
  page_click :: "'p \<Rightarrow> string \<Rightarrow> exn option \<times> 'p"
  page_fill :: "'p \<Rightarrow> string \<Rightarrow> string \<Rightarrow> exn option \<times> 'p"
  role_button_click :: "'p \<Rightarrow> string \<Rightarrow> exn option \<times> 'p"
  text_click :: "'p \<Rightarrow> string \<Rightarrow> exn option \<times> 'p"
  placeholder_fill :: "'p \<Rightarrow> string \<Rightarrow> string \<Rightarrow> exn option \<times> 'p"
  label_fill :: "'p \<Rightarrow> string \<Rightarrow> string \<Rightarrow> exn option \<times> 'p"
  candidate_docs :: "'p \<Rightarrow> bool \<Rightarrow> string list option"

subsection \<open>Rate limit per origin\<close>

text \<open>
  \<^verbatim>\<open>_bucket_for\<close> makes the origin's bucket on first use; \<^verbatim>\<open>enforce_rate_limit\<close> takes one
  token from it at the current clock reading and logs a warning when there is none.
\<close>

definition bucket_for :: "rat \<Rightarrow> SecurityManager \<Rightarrow> string \<Rightarrow> TokenBucket \<times> SecurityManager" where
  "bucket_for now sm origin =
     (case map_of (buckets sm) origin of
        Some b \<Rightarrow> (b, sm)
      | None \<Rightarrow>
          (let b = TokenBucket_init (max 1 (rate_limit_per_min sm))
                     (of_int (max 1 (rate_limit_per_min sm)) / 60) now
           in (b, sm\<lparr>buckets := buckets sm @ [(origin, b)]\<rparr>)))"

definition enforce_rate_limit :: "'p nav \<Rightarrow> string \<Rightarrow> (exn + bool) \<times> 'p nav" where
  "enforce_rate_limit w url =
     (case urlparse_error url of
        Some e \<Rightarrow> (Inl e, w)
      | None \<Rightarrow>
          (let origin = urlparse_scheme url @ ''://'' @ urlparse_netloc url;
               (bucket, sm) = bucket_for (clock w) (security w) origin;
               (allowed, bucket') = consume bucket (clock w) 1;
               w1 = w\<lparr>security := sm\<lparr>buckets := AList.update origin bucket' (buckets sm)\<rparr>\<rparr>
           in if \<not> allowed
              then (Inr allowed, log_to WARNING (''Rate limit exceeded for origin: '' @ origin) w1)
              else (Inr allowed, w1)))"

text \<open>\<^verbatim>\<open>is_domain_allowed\<close> with its log record when the answer is no.\<close>

definition check_domain :: "'p nav \<Rightarrow> string \<Rightarrow> (exn + bool) \<times> 'p nav" where
  "check_domain w url =
     (case is_domain_allowed (allowed_domains (security w)) url of
        Inl e \<Rightarrow> (Inl e, w)
      | Inr True \<Rightarrow> (Inr True, w)
      | Inr False \<Rightarrow>
          (Inr False, log_to ERROR (''Blocked navigation to non-allowed domain: ''
                                      @ urlparse_netloc url) w))"

subsection \<open>The retry decorator\<close>

text \<open>
  \<^verbatim>\<open>@retry(reraise=True, stop=stop_after_attempt(3), wait=wait_exponential(multiplier=0.5,
  min=0.5, max=4))\<close> from the tenacity library, with no \<^verbatim>\<open>retry=\<close> argument: the decorated
  function is called again after any exception. After a failed attempt number \<open>k\<close> it
  stops and re-raises when \<open>k \<ge> 3\<close>, and otherwise sleeps
  \<open>max (max 0 min) (min (multiplier * 2 ^ (k - 1)) max)\<close> seconds and calls again.
\<close>

definition wait_exponential :: "nat \<Rightarrow> rat" where
  "wait_exponential attempt_number =
     max (max 0 (1 / 2)) (min ((1 / 2) * 2 ^ (attempt_number - 1)) 4)"

definition sleep :: "rat \<Rightarrow> 'p nav \<Rightarrow> 'p nav" where
  "sleep secs w = w\<lparr>clock := clock w + secs\<rparr>"

function retrying ::
  "('p nav \<Rightarrow> exn option \<times> 'p nav) \<Rightarrow> nat \<Rightarrow> 'p nav \<Rightarrow> exn option \<times> 'p nav" where
  "retrying body attempt_number w =
     (case body w of
        (None, w') \<Rightarrow> (None, w')
      | (Some e, w') \<Rightarrow>
          if attempt_number \<ge> 3 then (Some e, w')
          else retrying body (attempt_number + 1) (sleep (wait_exponential attempt_number) w'))"
  by pat_completeness auto
termination
  by (relation "measure (\<lambda>(body, attempt_number, w). 3 - attempt_number)") auto

declare retrying.simps [simp del]

subsection \<open>goto\<close>

text \<open>The body of \<^verbatim>\<open>goto\<close>, that is, what the decorator calls on each attempt.\<close>

definition goto_body :: "'p browser \<Rightarrow> string \<Rightarrow> 'p nav \<Rightarrow> exn option \<times> 'p nav" where
  "goto_body B url w =
     (case check_domain w url of
        (Inl e, w1) \<Rightarrow> (Some e, w1)
      | (Inr False, w1) \<Rightarrow>
          (Some (PermissionError (''Navigation blocked by security policy: '' @ url)), w1)
      | (Inr True, w1) \<Rightarrow>
          (case enforce_rate_limit w1 url of
             (Inl e, w2) \<Rightarrow> (Some e, w2)
           | (Inr False, w2) \<Rightarrow> (Some (RuntimeError ''Rate limit exceeded, retry later''), w2)
           | (Inr True, w2) \<Rightarrow>
               (case page_goto B (nav_page w2) url of
                  (Some e, p) \<Rightarrow> (Some e, w2\<lparr>nav_page := p\<rparr>)
                | (None, p) \<Rightarrow> (None, log_to INFO (''Navigated to '' @ url) (w2\<lparr>nav_page := p\<rparr>)))))"

definition goto :: "'p browser \<Rightarrow> string \<Rightarrow> 'p nav \<Rightarrow> exn option \<times> 'p nav" where
  "goto B url w = retrying (goto_body B url) 1 w"

text \<open>
  A browser for examples: its page is the list of the operations performed on it, and
  every operation succeeds.
\<close>

definition recording_browser :: "string list browser" where
  "recording_browser =
     \<lparr>page_url = (\<lambda>p. ''https://example.com/''),
      page_goto = (\<lambda>p url. (None, p @ [''goto '' @ url])),
      wait_for_selector = (\<lambda>p sel. (None, p @ [''wait '' @ sel])),
      page_click = (\<lambda>p sel. (None, p @ [''click '' @ sel])),
      page_fill = (\<lambda>p sel txt. (None, p @ [''fill '' @ sel])),
      role_button_click = (\<lambda>p name. (None, p @ [''role '' @ name])),
      text_click = (\<lambda>p txt. (None, p @ [''text '' @ txt])),
      placeholder_fill = (\<lambda>p ph txt. (None, p @ [''placeholder '' @ ph])),
      label_fill = (\<lambda>p lb txt. (None, p @ [''label '' @ lb])),
      candidate_docs = (\<lambda>p click. Some [])\<rparr>"

definition example_nav :: "string list \<Rightarrow> int \<Rightarrow> string list nav" where
  "example_nav allowed per_min =
     \<lparr>nav_page = [],
      security = \<lparr>allowed_domains = allowed, rate_limit_per_min = per_min, buckets = []\<rparr>,
      sel_mem = [], clock = 0, logged = []\<rparr>"

lemma wait_exponential_values [simp]:
  "wait_exponential 1 = 1 / 2" "wait_exponential 2 = 1"
  by (simp_all add: wait_exponential_def)

lemma check_domain_simps [simp]:
  "allowed_domains (security (sleep d w)) = allowed_domains (security w)"
  "allowed_domains (security (log_to lv m w)) = allowed_domains (security w)"
  by (simp_all add: sleep_def log_to_def)

lemma goto_body_blocked:
  assumes "is_domain_allowed (allowed_domains (security w)) url = Inr False"
  shows "goto_body B url w =
           (Some (PermissionError (''Navigation blocked by security policy: '' @ url)),
            log_to ERROR (''Blocked navigation to non-allowed domain: '' @ urlparse_netloc url) w)"
  using assms by (simp add: goto_body_def check_domain_def)

lemma goto_body_rate_limited:
  assumes "is_domain_allowed (allowed_domains (security w)) url = Inr True"
    and "fst (enforce_rate_limit w url) = Inr False"
  shows "goto_body B url w =
           (Some (RuntimeError ''Rate limit exceeded, retry later''), snd (enforce_rate_limit w url))"
  using assms by (cases "enforce_rate_limit w url") (simp add: goto_body_def check_domain_def)

lemma enforce_rate_limit_frame [simp]:
  "nav_page (snd (enforce_rate_limit w url)) = nav_page w"
  "allowed_domains (security (snd (enforce_rate_limit w url))) = allowed_domains (security w)"
  "sel_mem (snd (enforce_rate_limit w url)) = sel_mem w"
  by (simp_all add: enforce_rate_limit_def bucket_for_def log_to_def Let_def split_beta
      split: option.split)

lemma retrying_first_failure:
  assumes "body w = (Some e, w')"
  shows "retrying body 1 w = retrying body 2 (sleep (1 / 2) w')"
  by (subst retrying.simps) (simp add: assms wait_exponential_def numeral_2_eq_2)

lemma retrying_second_failure:
  assumes "body w = (Some e, w')"
  shows "retrying body 2 w = retrying body 3 (sleep 1 w')"
  by (subst retrying.simps) (simp add: assms)

lemma retrying_third_failure:
  assumes "body w = (Some e, w')"
  shows "retrying body 3 w = (Some e, w')"
  by (subst retrying.simps) (simp add: assms)

lemma retrying_three_failures:
  assumes "body w = (Some e1, w1)"
    and "body (sleep (1 / 2) w1) = (Some e2, w2)"
    and "body (sleep 1 w2) = (Some e3, w3)"
  shows "retrying body 1 w = (Some e3, w3)"
  by (simp only: retrying_first_failure [where body = body, OF assms(1)]
      retrying_second_failure [where body = body, OF assms(2)]
      retrying_third_failure [where body = body, OF assms(3)])

subsection \<open>Resolving a click or type target\<close>

text \<open>
  \<^verbatim>\<open>host = self.page.url.split('/')[2] if self.page and self.page.url else ''\<close>, with
  \<^verbatim>\<open>except Exception: host = ''\<close> around it: the third piece of the URL, and the empty
  string when the URL is empty or has fewer than three pieces (\<^verbatim>\<open>about:blank\<close>).
\<close>

definition page_host :: "'p browser \<Rightarrow> 'p \<Rightarrow> string" where
  "page_host B p =
     (let url = page_url B p
      in if url = [] then []
         else (case split_on CHR ''/'' url of
                 a # b # host # rest \<Rightarrow> host
               | _ \<Rightarrow> []))"

text \<open>
  \<^verbatim>\<open>repr\<close> of a list of strings, as the f-string writes \<^verbatim>\<open>tried\<close>: the items' \<^verbatim>\<open>repr\<close>
  between brackets, separated by a comma and a space.
\<close>

fun join :: "string \<Rightarrow> string list \<Rightarrow> string" where
  "join sep [] = []"
| "join sep [x] = x"
| "join sep (x # y # ys) = x @ sep @ join sep (y # ys)"

definition repr_list :: "string list \<Rightarrow> string" where
  "repr_list xs = ''['' @ join '', '' (map repr_str xs) @ '']''"

text \<open>
  \<^verbatim>\<open>sanitize_input\<close>: the case-insensitive search for one of four markers, and the removal
  of angle brackets when one is found.
\<close>

definition sanitize_input :: "string \<Rightarrow> 'p nav \<Rightarrow> string \<times> 'p nav" where
  "sanitize_input s w =
     (if list_ex (\<lambda>k. contains (lower s) k) [''<script'', ''javascript:'', ''onerror='', ''onload='']
      then (filter (\<lambda>c. c \<noteq> CHR ''<'' \<and> c \<noteq> CHR ''>'') s,
            log_to WARNING ''Sanitized potentially unsafe input'' w)
      else (s, w))"

text \<open>
  \<^verbatim>\<open>_semantic_candidate\<close>: no candidate when the element query raised or found no text;
  otherwise a fresh \<^verbatim>\<open>SimpleVectorStore()\<close> of dimension 512 is filled with the texts and
  asked for the best match. Any exception on the way gives None.
\<close>

definition semantic_candidate ::
  "builtins \<Rightarrow> 'p browser \<Rightarrow> 'p \<Rightarrow> bool \<Rightarrow> string \<Rightarrow> string option" where
  "semantic_candidate h B p click_mode query =
     (case candidate_docs B p click_mode of
        None \<Rightarrow> None
      | Some ds \<Rightarrow>
          if ds = [] then None
          else (case add_texts h (SimpleVectorStore_init 512) ds of
                  Inl e \<Rightarrow> None
                | Inr vs \<Rightarrow>
                    (case similarity_search h vs query 1 of
                       Inl e \<Rightarrow> None
                     | Inr [] \<Rightarrow> None
                     | Inr ((best, score) # rest) \<Rightarrow> Some best)))"

text \<open>
  \<^verbatim>\<open>if host: self.sel_mem.save_success(host, action, label, descriptor)\<close>, stamped with
  the current clock reading.
\<close>

definition remember :: "string \<Rightarrow> string \<Rightarrow> string \<Rightarrow> string \<Rightarrow> 'p nav \<Rightarrow> 'p nav" where
  "remember host act label descriptor w =
     (if host \<noteq> [] then w\<lparr>sel_mem := save_success (sel_mem w) host act label descriptor (clock w)\<rparr>
      else w)"

text \<open>
  What a stage of the fallback chain reports: \<open>Done\<close> when it resolved the target (the
  method returns), \<open>Failed (Some e)\<close> when it raised \<open>e\<close>, \<open>Failed None\<close> when it had
  nothing to try.
\<close>

datatype outcome = Done | Failed "exn option"

text \<open>\<^verbatim>\<open>wait_for_selector(sel, state='visible')\<close> followed by the action on \<open>sel\<close>.\<close>

definition wait_and_click :: "'p browser \<Rightarrow> 'p \<Rightarrow> string \<Rightarrow> exn option \<times> 'p" where
  "wait_and_click B p sel =
     (case wait_for_selector B p sel of
        (Some e, p1) \<Rightarrow> (Some e, p1)
      | (None, p1) \<Rightarrow> page_click B p1 sel)"

definition wait_and_fill :: "'p browser \<Rightarrow> 'p \<Rightarrow> string \<Rightarrow> string \<Rightarrow> exn option \<times> 'p" where
  "wait_and_fill B p sel txt =
     (case wait_for_selector B p sel of
        (Some e, p1) \<Rightarrow> (Some e, p1)
      | (None, p1) \<Rightarrow> page_fill B p1 sel txt)"

text \<open>
  A stage that performs one browser action: on success it logs, records the descriptor
  (unless the host is empty) and is done; on an exception it fails, and the exception is
  swallowed by the caller.
\<close>

definition stage ::
  "exn option \<times> 'p \<Rightarrow> string \<Rightarrow> string \<Rightarrow> string \<Rightarrow> string \<Rightarrow> string \<Rightarrow> 'p nav
   \<Rightarrow> outcome \<times> 'p nav" where
  "stage result msg host act label descriptor w =
     (case result of
        (Some e, p) \<Rightarrow> (Failed (Some e), w\<lparr>nav_page := p\<rparr>)
      | (None, p) \<Rightarrow> (Done, remember host act label descriptor (log_to INFO msg (w\<lparr>nav_page := p\<rparr>))))"

subsubsection \<open>click\_best\<close>

text \<open>
  Stage 1: \<^verbatim>\<open>for sel in self.sel_mem.get(host, 'click', target)[:5]\<close>. The result tells
  whether a selector worked, and lists the selectors that did not (\<^verbatim>\<open>tried\<close>).
\<close>

fun click_from_memory ::
  "'p browser \<Rightarrow> string list \<Rightarrow> string list \<Rightarrow> 'p nav \<Rightarrow> bool \<times> string list \<times> 'p nav" where
  "click_from_memory B [] tried w = (False, tried, w)"
| "click_from_memory B (sel # sels) tried w =
     (case wait_and_click B (nav_page w) sel of
        (Some e, p) \<Rightarrow> click_from_memory B sels (tried @ [sel]) (w\<lparr>nav_page := p\<rparr>)
      | (None, p) \<Rightarrow> (True, tried, log_to INFO (''Clicked from memory: '' @ sel) (w\<lparr>nav_page := p\<rparr>)))"

definition click_memory :: "'p browser \<Rightarrow> string \<Rightarrow> 'p nav \<Rightarrow> bool \<times> string list \<times> 'p nav" where
  "click_memory B target w =
     (let host = page_host B (nav_page w)
      in if host \<noteq> []
         then click_from_memory B (take 5 (get (sel_mem w) host ''click'' target)) [] w
         else (False, [], w))"

definition click_css :: "'p browser \<Rightarrow> string \<Rightarrow> string \<Rightarrow> 'p nav \<Rightarrow> outcome \<times> 'p nav" where
  "click_css B target host w =
     stage (wait_and_click B (nav_page w) target) (''Clicked CSS: '' @ target)
           host ''click'' target target w"

definition click_role :: "'p browser \<Rightarrow> string \<Rightarrow> string \<Rightarrow> 'p nav \<Rightarrow> outcome \<times> 'p nav" where
  "click_role B target host w =
     stage (role_button_click B (nav_page w) target)
           (''Clicked role=button name='' @ [CHR 0x27] @ target @ [CHR 0x27])
           host ''click'' target (''role=button,name='' @ target) w"

definition click_semantic ::
  "builtins \<Rightarrow> 'p browser \<Rightarrow> string \<Rightarrow> string \<Rightarrow> 'p nav \<Rightarrow> outcome \<times> 'p nav" where
  "click_semantic h B target host w =
     (case semantic_candidate h B (nav_page w) True target of
        None \<Rightarrow> (Failed None, w)
      | Some cand \<Rightarrow>
          if cand = [] then (Failed None, w)
          else stage (text_click B (nav_page w) cand)
                     (''Clicked by semantic text '' @ [CHR 0x27] @ cand @ [CHR 0x27])
                     host ''click'' target (''semantic_text='' @ cand) w)"

text \<open>
  The last stage: on an exception it logs the error with \<^verbatim>\<open>tried\<close> and re-raises with a
  bare \<^verbatim>\<open>raise\<close>, that is, the exception the browser raised.
\<close>

definition click_text ::
  "'p browser \<Rightarrow> string \<Rightarrow> string \<Rightarrow> string list \<Rightarrow> 'p nav \<Rightarrow> exn option \<times> 'p nav" where
  "click_text B target host tried w =
     (case text_click B (nav_page w) target of
        (None, p) \<Rightarrow>
          (None, remember host ''click'' target (''text='' @ target)
                   (log_to INFO (''Clicked by text '' @ [CHR 0x27] @ target @ [CHR 0x27])
                      (w\<lparr>nav_page := p\<rparr>)))
      | (Some e, p) \<Rightarrow>
          (Some e, log_to ERROR (''All click strategies failed for '' @ target @ '': ''
                                  @ exn_message e @ ''; tried='' @ repr_list tried)
                     (w\<lparr>nav_page := p\<rparr>)))"

definition click_best ::
  "builtins \<Rightarrow> 'p browser \<Rightarrow> string \<Rightarrow> 'p nav \<Rightarrow> exn option \<times> 'p nav" where
  "click_best h B target w =
     (let host = page_host B (nav_page w)
      in case click_memory B target w of
           (True, tried, w1) \<Rightarrow> (None, w1)
         | (False, tried, w1) \<Rightarrow>
             (case click_css B target host w1 of
                (Done, w2) \<Rightarrow> (None, w2)
              | (Failed x, w2) \<Rightarrow>
                  (case click_role B target host w2 of
                     (Done, w3) \<Rightarrow> (None, w3)
                   | (Failed y, w3) \<Rightarrow>
                       (case click_semantic h B target host w3 of
                          (Done, w4) \<Rightarrow> (None, w4)
                        | (Failed z, w4) \<Rightarrow> click_text B target host tried w4))))"

subsubsection \<open>type\_best\<close>

fun type_from_memory ::
  "'p browser \<Rightarrow> string \<Rightarrow> string list \<Rightarrow> string list \<Rightarrow> 'p nav
   \<Rightarrow> bool \<times> string list \<times> 'p nav" where
  "type_from_memory B stext [] tried w = (False, tried, w)"
| "type_from_memory B stext (sel # sels) tried w =
     (case wait_and_fill B (nav_page w) sel stext of
        (Some e, p) \<Rightarrow> type_from_memory B stext sels (tried @ [sel]) (w\<lparr>nav_page := p\<rparr>)
      | (None, p) \<Rightarrow> (True, tried, log_to INFO (''Filled from memory '' @ sel) (w\<lparr>nav_page := p\<rparr>)))"

definition type_memory ::
  "'p browser \<Rightarrow> string \<Rightarrow> string \<Rightarrow> 'p nav \<Rightarrow> bool \<times> string list \<times> 'p nav" where
  "type_memory B field stext w =
     (let host = page_host B (nav_page w)
      in if host \<noteq> []
         then type_from_memory B stext (take 5 (get (sel_mem w) host ''type'' field)) [] w
         else (False, [], w))"

definition type_css ::
  "'p browser \<Rightarrow> string \<Rightarrow> string \<Rightarrow> string \<Rightarrow> 'p nav \<Rightarrow> outcome \<times> 'p nav" where
  "type_css B field stext host w =
     stage (wait_and_fill B (nav_page w) field stext) (''Filled CSS '' @ field)
           host ''type'' field field w"

definition type_placeholder ::
  "'p browser \<Rightarrow> string \<Rightarrow> string \<Rightarrow> string \<Rightarrow> 'p nav \<Rightarrow> outcome \<times> 'p nav" where
  "type_placeholder B field stext host w =
     stage (placeholder_fill B (nav_page w) field stext) (''Filled by placeholder '' @ field)
           host ''type'' field (''placeholder='' @ field) w"

definition type_label ::
  "'p browser \<Rightarrow> string \<Rightarrow> string \<Rightarrow> string \<Rightarrow> 'p nav \<Rightarrow> outcome \<times> 'p nav" where
  "type_label B field stext host w =
     stage (label_fill B (nav_page w) field stext) (''Filled by label '' @ field)
           host ''type'' field (''label='' @ field) w"

text \<open>
  The last \<^verbatim>\<open>try\<close> block of \<^verbatim>\<open>type_best\<close>. With a candidate, the placeholder attempt has
  its own handler, and an exception of the label attempt is logged with \<^verbatim>\<open>tried\<close> and
  re-raised. Without a candidate the \<^verbatim>\<open>if cand:\<close> body is skipped, nothing is raised, and
  the method ends: it returns None.
\<close>

definition type_semantic ::
  "builtins \<Rightarrow> 'p browser \<Rightarrow> string \<Rightarrow> string \<Rightarrow> string \<Rightarrow> string list \<Rightarrow> 'p nav
   \<Rightarrow> exn option \<times> 'p nav" where
  "type_semantic h B field stext host tried w =
     (case semantic_candidate h B (nav_page w) False field of
        None \<Rightarrow> (None, w)
      | Some cand \<Rightarrow>
          if cand = [] then (None, w)
          else
            (case stage (placeholder_fill B (nav_page w) cand stext)
                        (''Filled by semantic placeholder '' @ [CHR 0x27] @ cand @ [CHR 0x27])
                        host ''type'' field (''semantic_placeholder='' @ cand) w of
               (Done, w1) \<Rightarrow> (None, w1)
             | (Failed x, w1) \<Rightarrow>
                 (case label_fill B (nav_page w1) cand stext of
                    (None, p) \<Rightarrow>
                      (None, remember host ''type'' field (''semantic_label='' @ cand)
                               (log_to INFO (''Filled by semantic label '' @ [CHR 0x27] @ cand
                                              @ [CHR 0x27]) (w1\<lparr>nav_page := p\<rparr>)))
                  | (Some e, p) \<Rightarrow>
                      (Some e, log_to ERROR (''All type strategies failed for '' @ field @ '': ''
                                              @ exn_message e @ ''; tried='' @ repr_list tried)
                                 (w1\<lparr>nav_page := p\<rparr>)))))"

definition type_best ::
  "builtins \<Rightarrow> 'p browser \<Rightarrow> string \<Rightarrow> string \<Rightarrow> 'p nav \<Rightarrow> exn option \<times> 'p nav" where
  "type_best h B field text w =
     (let (stext, w0) = sanitize_input text w;
          host = page_host B (nav_page w0)
      in case type_memory B field stext w0 of
           (True, tried, w1) \<Rightarrow> (None, w1)
         | (False, tried, w1) \<Rightarrow>
             (case type_css B field stext host w1 of
                (Done, w2) \<Rightarrow> (None, w2)
              | (Failed x, w2) \<Rightarrow>
                  (case type_placeholder B field stext host w2 of
                     (Done, w3) \<Rightarrow> (None, w3)
                   | (Failed y, w3) \<Rightarrow>
                       (case type_label B field stext host w3 of
                          (Done, w4) \<Rightarrow> (None, w4)
                        | (Failed z, w4) \<Rightarrow> type_semantic h B field stext host tried w4))))"

text \<open>
  A browser for examples, scripted by the list of the actions that work: an action in the
  list succeeds, any other times out. The page is the list of the actions attempted. The
  element query returns the given texts.
\<close>

definition scripted_act :: "string list \<Rightarrow> string \<Rightarrow> string list \<Rightarrow> exn option \<times> string list" where
  "scripted_act works a p =
     (if a \<in> set works then (None, p @ [a])
      else (Some (PlaywrightError ''Timeout 10000ms exceeded''), p @ [''failed '' @ a]))"

definition scripted_browser :: "string \<Rightarrow> string list \<Rightarrow> string list \<Rightarrow> string list browser" where
  "scripted_browser url works texts =
     \<lparr>page_url = (\<lambda>p. url),
      page_goto = (\<lambda>p u. scripted_act works (''goto '' @ u) p),
      wait_for_selector = (\<lambda>p sel. scripted_act works (''wait '' @ sel) p),
      page_click = (\<lambda>p sel. scripted_act works (''click '' @ sel) p),
      page_fill = (\<lambda>p sel txt. scripted_act works (''fill '' @ sel) p),
      role_button_click = (\<lambda>p name. scripted_act works (''role '' @ name) p),
      text_click = (\<lambda>p txt. scripted_act works (''text '' @ txt) p),
      placeholder_fill = (\<lambda>p ph txt. scripted_act works (''placeholder '' @ ph) p),
      label_fill = (\<lambda>p lb txt. scripted_act works (''label '' @ lb) p),
      candidate_docs = (\<lambda>p click. Some texts)\<rparr>"

definition empty_nav :: "'p \<Rightarrow> selector_row list \<Rightarrow> 'p nav" where
  "empty_nav p tbl =
     \<lparr>nav_page = p,
      security = \<lparr>allowed_domains = [], rate_limit_per_min = 60, buckets = []\<rparr>,
      sel_mem = tbl, clock = 100, logged = []\<rparr>"

lemma stage_Done:
  assumes "stage r msg host act label d w = (Done, w')"
  shows "sel_mem w' = (if host \<noteq> [] then save_success (sel_mem w) host act label d (clock w)
                       else sel_mem w)"
    and "clock w' = clock w"
  using assms by (auto simp: stage_def remember_def log_to_def split: prod.splits option.splits)

lemma stage_Failed:
  assumes "stage r msg host act label d w = (Failed x, w')"
  shows "sel_mem w' = sel_mem w" and "clock w' = clock w"
    and "\<exists>e. x = Some e \<and> r = (Some e, nav_page w')"
  using assms by (auto simp: stage_def split: prod.splits option.splits)

lemma click_from_memory_frame:
  "click_from_memory B sels tried w = (found, tried', w') \<Longrightarrow>
   sel_mem w' = sel_mem w \<and> clock w' = clock w"
proof (induction sels arbitrary: tried w)
  case Nil
  then show ?case by simp
next
  case (Cons sel sels)
  obtain r p where r: "wait_and_click B (nav_page w) sel = (r, p)"
    by (cases "wait_and_click B (nav_page w) sel")
  show ?case
  proof (cases r)
    case None
    with Cons.prems r show ?thesis by (auto simp: log_to_def)
  next
    case (Some e)
    with Cons.prems r
    have "click_from_memory B sels (tried @ [sel]) (w\<lparr>nav_page := p\<rparr>) = (found, tried', w')"
      by simp
    from Cons.IH [OF this] show ?thesis by simp
  qed
qed

lemma click_memory_frame:
  "click_memory B target w = (found, tried, w') \<Longrightarrow>
   sel_mem w' = sel_mem w \<and> clock w' = clock w"
  by (auto simp: click_memory_def Let_def split: if_splits dest: click_from_memory_frame)

lemma click_memory_found_host:
  "click_memory B target w = (True, tried, w') \<Longrightarrow> page_host B (nav_page w) \<noteq> []"
  by (auto simp: click_memory_def Let_def split: if_splits)

lemma type_from_memory_frame:
  "type_from_memory B stext sels tried w = (found, tried', w') \<Longrightarrow>
   sel_mem w' = sel_mem w \<and> clock w' = clock w"
proof (induction sels arbitrary: tried w)
  case Nil
  then show ?case by simp
next
  case (Cons sel sels)
  obtain r p where r: "wait_and_fill B (nav_page w) sel stext = (r, p)"
    by (cases "wait_and_fill B (nav_page w) sel stext")
  show ?case
  proof (cases r)
    case None
    with Cons.prems r show ?thesis by (auto simp: log_to_def)
  next
    case (Some e)
    with Cons.prems r
    have "type_from_memory B stext sels (tried @ [sel]) (w\<lparr>nav_page := p\<rparr>) = (found, tried', w')"
      by simp
    from Cons.IH [OF this] show ?thesis by simp
  qed
qed

lemma type_memory_frame:
  "type_memory B field stext w = (found, tried, w') \<Longrightarrow>
   sel_mem w' = sel_mem w \<and> clock w' = clock w"
  by (auto simp: type_memory_def Let_def split: if_splits dest: type_from_memory_frame)

lemma sanitize_input_frame:
  "sanitize_input text w = (stext, w0) \<Longrightarrow>
   sel_mem w0 = sel_mem w \<and> clock w0 = clock w \<and> nav_page w0 = nav_page w"
  by (auto simp: sanitize_input_def log_to_def split: if_splits)

lemma click_semantic_Failed:
  "click_semantic h B target host w = (Failed z, w') \<Longrightarrow>
   sel_mem w' = sel_mem w \<and> clock w' = clock w"
  by (auto simp: click_semantic_def split: option.splits if_splits dest: stage_Failed)

lemma click_semantic_Done:
  assumes "click_semantic h B target host w = (Done, w')"
  shows "\<exists>cand. semantic_candidate h B (nav_page w) True target = Some cand \<and> cand \<noteq> []
           \<and> sel_mem w' = (if host \<noteq> []
                then save_success (sel_mem w) host ''click'' target (''semantic_text='' @ cand) (clock w)
                else sel_mem w)"
  using assms
  by (auto simp: click_semantic_def split: option.splits if_splits dest: stage_Done(1))

lemma semantic_candidate_single:
  assumes "candidate_docs B p click_mode = Some [d]"
  shows "semantic_candidate h B p click_mode query = Some d"
proof -
  have filled: "add_texts h (SimpleVectorStore_init 512) [d]
        = Inr \<lparr>vs_dim = 512, docs = [d], vecs = [normalize h (bag h 512 d)]\<rparr>"
    using add_texts_pos [of "SimpleVectorStore_init 512" h "[d]"]
    by (simp add: SimpleVectorStore_init_def)
  have "similarity_search h \<lparr>vs_dim = 512, docs = [d], vecs = [normalize h (bag h 512 d)]\<rparr> query 1
        = Inr [(d, dotp h (normalize h (bag h 512 query)) (normalize h (bag h 512 d)))]"
    by (simp add: similarity_search_def embed_pos ranked_single slice_to_def)
  with filled assms show ?thesis by (simp add: semantic_candidate_def)
qed

lemma click_css_Done:
  "click_css B target host w = (Done, w') \<Longrightarrow> host \<noteq> [] \<Longrightarrow>
   sel_mem w' = save_success (sel_mem w) host ''click'' target target (clock w)"
  unfolding click_css_def by (drule stage_Done(1)) simp

lemma click_css_Failed:
  "click_css B target host w = (Failed x, w') \<Longrightarrow> sel_mem w' = sel_mem w \<and> clock w' = clock w"
  unfolding click_css_def by (auto dest: stage_Failed)

lemma click_role_Done:
  "click_role B target host w = (Done, w') \<Longrightarrow> host \<noteq> [] \<Longrightarrow>
   sel_mem w' = save_success (sel_mem w) host ''click'' target (''role=button,name='' @ target)
                  (clock w)"
  unfolding click_role_def by (drule stage_Done(1)) simp

lemma click_role_Failed:
  "click_role B target host w = (Failed x, w') \<Longrightarrow> sel_mem w' = sel_mem w \<and> clock w' = clock w"
  unfolding click_role_def by (auto dest: stage_Failed)

lemma type_css_Done:
  "type_css B field stext host w = (Done, w') \<Longrightarrow> host \<noteq> [] \<Longrightarrow>
   sel_mem w' = save_success (sel_mem w) host ''type'' field field (clock w)"
  unfolding type_css_def by (drule stage_Done(1)) simp

lemma type_css_Failed:
  "type_css B field stext host w = (Failed x, w') \<Longrightarrow>
   sel_mem w' = sel_mem w \<and> clock w' = clock w"
  unfolding type_css_def by (auto dest: stage_Failed)

lemma type_placeholder_Done:
  "type_placeholder B field stext host w = (Done, w') \<Longrightarrow> host \<noteq> [] \<Longrightarrow>
   sel_mem w' = save_success (sel_mem w) host ''type'' field (''placeholder='' @ field) (clock w)"
  unfolding type_placeholder_def by (drule stage_Done(1)) simp

lemma type_placeholder_Failed:
  "type_placeholder B field stext host w = (Failed x, w') \<Longrightarrow>
   sel_mem w' = sel_mem w \<and> clock w' = clock w"
  unfolding type_placeholder_def by (auto dest: stage_Failed)

lemma type_label_Done:
  "type_label B field stext host w = (Done, w') \<Longrightarrow> host \<noteq> [] \<Longrightarrow>
   sel_mem w' = save_success (sel_mem w) host ''type'' field (''label='' @ field) (clock w)"
  unfolding type_label_def by (drule stage_Done(1)) simp

lemma type_label_Failed:
  "type_label B field stext host w = (Failed x, w') \<Longrightarrow>
   sel_mem w' = sel_mem w \<and> clock w' = clock w"
  unfolding type_label_def by (auto dest: stage_Failed)

text \<open>The click chain, stage by stage.\<close>

lemma click_best_memory:
  assumes "click_memory B target w = (True, tried, w1)"
  shows "click_best h B target w = (None, w1)" and "sel_mem w1 = sel_mem w"
  using assms click_memory_frame [OF assms] by (simp_all add: click_best_def)

lemma click_best_css:
  assumes "page_host B (nav_page w) \<noteq> []"
    and "click_memory B target w = (False, tried, w1)"
    and "click_css B target (page_host B (nav_page w)) w1 = (Done, w2)"
  shows "click_best h B target w = (None, w2)"
    and "sel_mem w2 = save_success (sel_mem w) (page_host B (nav_page w)) ''click'' target target
                        (clock w)"
  using assms click_memory_frame [OF assms(2)] click_css_Done [OF assms(3) assms(1)]
  by (simp_all add: click_best_def)

lemma click_best_role:
  assumes "page_host B (nav_page w) \<noteq> []"
    and "click_memory B target w = (False, tried, w1)"
    and "click_css B target (page_host B (nav_page w)) w1 = (Failed x, w2)"
    and "click_role B target (page_host B (nav_page w)) w2 = (Done, w3)"
  shows "click_best h B target w = (None, w3)"
    and "sel_mem w3 = save_success (sel_mem w) (page_host B (nav_page w)) ''click'' target
                        (''role=button,name='' @ target) (clock w)"
  using assms click_memory_frame [OF assms(2)] click_css_Failed [OF assms(3)]
    click_role_Done [OF assms(4) assms(1)]
  by (simp_all add: click_best_def)

lemma click_best_semantic:
  assumes "page_host B (nav_page w) \<noteq> []"
    and "click_memory B target w = (False, tried, w1)"
    and "click_css B target (page_host B (nav_page w)) w1 = (Failed x, w2)"
    and "click_role B target (page_host B (nav_page w)) w2 = (Failed y, w3)"
    and "click_semantic h B target (page_host B (nav_page w)) w3 = (Done, w4)"
    and "semantic_candidate h B (nav_page w3) True target = Some cand"
  shows "click_best h B target w = (None, w4)"
    and "sel_mem w4 = save_success (sel_mem w) (page_host B (nav_page w)) ''click'' target
                        (''semantic_text='' @ cand) (clock w)"
proof -
  show "click_best h B target w = (None, w4)"
    using assms by (simp add: click_best_def)
  from click_semantic_Done [OF assms(5)] assms(6) assms(1)
  have "sel_mem w4 = save_success (sel_mem w3) (page_host B (nav_page w)) ''click'' target
                        (''semantic_text='' @ cand) (clock w3)"
    by auto
  then show "sel_mem w4 = save_success (sel_mem w) (page_host B (nav_page w)) ''click'' target
                        (''semantic_text='' @ cand) (clock w)"
    using click_memory_frame [OF assms(2)] click_css_Failed [OF assms(3)]
      click_role_Failed [OF assms(4)] by simp
qed

lemma click_best_text:
  assumes "page_host B (nav_page w) \<noteq> []"
    and "click_memory B target w = (False, tried, w1)"
    and "click_css B target (page_host B (nav_page w)) w1 = (Failed x, w2)"
    and "click_role B target (page_host B (nav_page w)) w2 = (Failed y, w3)"
    and "click_semantic h B target (page_host B (nav_page w)) w3 = (Failed z, w4)"
    and "text_click B (nav_page w4) target = (None, p)"
  shows "fst (click_best h B target w) = None"
    and "sel_mem (snd (click_best h B target w))
           = save_success (sel_mem w) (page_host B (nav_page w)) ''click'' target
               (''text='' @ target) (clock w)"
  using assms click_memory_frame [OF assms(2)] click_css_Failed [OF assms(3)]
    click_role_Failed [OF assms(4)] click_semantic_Failed [OF assms(5)]
  by (simp_all add: click_best_def click_text_def remember_def log_to_def)

text \<open>The type chain, stage by stage.\<close>

lemma type_best_memory:
  assumes "sanitize_input typed v = (stext, v0)"
    and "type_memory B field stext v0 = (True, tried, v1)"
  shows "type_best h B field typed v = (None, v1)" and "sel_mem v1 = sel_mem v"
  using assms type_memory_frame [OF assms(2)] sanitize_input_frame [OF assms(1)]
  by (simp_all add: type_best_def)

lemma type_best_css:
  assumes "page_host B (nav_page v) \<noteq> []"
    and "sanitize_input typed v = (stext, v0)"
    and "type_memory B field stext v0 = (False, tried, v1)"
    and "type_css B field stext (page_host B (nav_page v)) v1 = (Done, v2)"
  shows "type_best h B field typed v = (None, v2)"
    and "sel_mem v2 = save_success (sel_mem v) (page_host B (nav_page v)) ''type'' field field
                        (clock v)"
  using assms type_memory_frame [OF assms(3)] sanitize_input_frame [OF assms(2)]
    type_css_Done [OF assms(4) assms(1)]
  by (simp_all add: type_best_def)

lemma type_best_placeholder:
  assumes "page_host B (nav_page v) \<noteq> []"
    and "sanitize_input typed v = (stext, v0)"
    and "type_memory B field stext v0 = (False, tried, v1)"
    and "type_css B field stext (page_host B (nav_page v)) v1 = (Failed x, v2)"
    and "type_placeholder B field stext (page_host B (nav_page v)) v2 = (Done, v3)"
  shows "type_best h B field typed v = (None, v3)"
    and "sel_mem v3 = save_success (sel_mem v) (page_host B (nav_page v)) ''type'' field
                        (''placeholder='' @ field) (clock v)"
  using assms type_memory_frame [OF assms(3)] sanitize_input_frame [OF assms(2)]
    type_css_Failed [OF assms(4)] type_placeholder_Done [OF assms(5) assms(1)]
  by (simp_all add: type_best_def)

lemma type_best_label:
  assumes "page_host B (nav_page v) \<noteq> []"
    and "sanitize_input typed v = (stext, v0)"
    and "type_memory B field stext v0 = (False, tried, v1)"
    and "type_css B field stext (page_host B (nav_page v)) v1 = (Failed x, v2)"
    and "type_placeholder B field stext (page_host B (nav_page v)) v2 = (Failed y, v3)"
    and "type_label B field stext (page_host B (nav_page v)) v3 = (Done, v4)"
  shows "type_best h B field typed v = (None, v4)"
    and "sel_mem v4 = save_success (sel_mem v) (page_host B (nav_page v)) ''type'' field
                        (''label='' @ field) (clock v)"
  using assms type_memory_frame [OF assms(3)] sanitize_input_frame [OF assms(2)]
    type_css_Failed [OF assms(4)] type_placeholder_Failed [OF assms(5)]
    type_label_Done [OF assms(6) assms(1)]
  by (simp_all add: type_best_def)

lemma type_best_semantic_placeholder:
  assumes "page_host B (nav_page v) \<noteq> []"
    and "sanitize_input typed v = (stext, v0)"
    and "type_memory B field stext v0 = (False, tried, v1)"
    and "type_css B field stext (page_host B (nav_page v)) v1 = (Failed x, v2)"
    and "type_placeholder B field stext (page_host B (nav_page v)) v2 = (Failed y, v3)"
    and "type_label B field stext (page_host B (nav_page v)) v3 = (Failed z, v4)"
    and "semantic_candidate h B (nav_page v4) False field = Some cand" and "cand \<noteq> []"
    and "placeholder_fill B (nav_page v4) cand stext = (None, q)"
  shows "fst (type_best h B field typed v) = None"
    and "sel_mem (snd (type_best h B field typed v))
           = save_success (sel_mem v) (page_host B (nav_page v)) ''type'' field
               (''semantic_placeholder='' @ cand) (clock v)"
  using assms type_memory_frame [OF assms(3)] sanitize_input_frame [OF assms(2)]
    type_css_Failed [OF assms(4)] type_placeholder_Failed [OF assms(5)]
    type_label_Failed [OF assms(6)]
  by (simp_all add: type_best_def type_semantic_def stage_def remember_def log_to_def)

lemma type_best_semantic_label:
  assumes "page_host B (nav_page v) \<noteq> []"
    and "sanitize_input typed v = (stext, v0)"
    and "type_memory B field stext v0 = (False, tried, v1)"
    and "type_css B field stext (page_host B (nav_page v)) v1 = (Failed x, v2)"
    and "type_placeholder B field stext (page_host B (nav_page v)) v2 = (Failed y, v3)"
    and "type_label B field stext (page_host B (nav_page v)) v3 = (Failed z, v4)"
    and "semantic_candidate h B (nav_page v4) False field = Some cand" and "cand \<noteq> []"
    and "placeholder_fill B (nav_page v4) cand stext = (Some e1, q1)"
    and "label_fill B q1 cand stext = (None, q2)"
  shows "fst (type_best h B field typed v) = None"
    and "sel_mem (snd (type_best h B field typed v))
           = save_success (sel_mem v) (page_host B (nav_page v)) ''type'' field
               (''semantic_label='' @ cand) (clock v)"
  using assms type_memory_frame [OF assms(3)] sanitize_input_frame [OF assms(2)]
    type_css_Failed [OF assms(4)] type_placeholder_Failed [OF assms(5)]
    type_label_Failed [OF assms(6)]
  by (simp_all add: type_best_def type_semantic_def stage_def remember_def log_to_def)

section \<open>Theorems\<close>

text \<open>
  C1. The claim: \<^verbatim>\<open>is_domain_allowed\<close> is true exactly when the URL's host equals an
  allowlist entry or ends with a dot followed by one. The code tests a bare suffix of the
  netloc, so with the allowlist \<^verbatim>\<open>['example.com']\<close> the URL
  \<^verbatim>\<open>https://evilexample.com/\<close> is let through, although its host neither equals the entry
  nor is a sub-domain of it.
\<close>

theorem is_domain_allowed_bare_suffix:
  "urlparse_netloc ''https://evilexample.com/'' = ''evilexample.com''
   \<and> is_domain_allowed [''example.com''] ''https://evilexample.com/'' = Inr True
   \<and> \<not> spec_host_allowed [''example.com''] (urlparse_netloc ''https://evilexample.com/'')"
  by code_simp

text \<open>
  C2, as the claim states it, fails: the retry decorator wraps the whole of \<^verbatim>\<open>goto\<close>, the
  policy checks included, and retries on any exception. A URL outside the allowlist is
  checked, and its block logged, three times, with 0.5 s and 1 s of sleep in between,
  before the third PermissionError reaches the caller.
\<close>

theorem goto_blocked_url_attempted_three_times:
  "goto recording_browser ''https://evil.test/'' (example_nav [''example.com''] 60)
     = (Some (PermissionError ''Navigation blocked by security policy: https://evil.test/''),
        \<lparr>nav_page = [],
         security = \<lparr>allowed_domains = [''example.com''], rate_limit_per_min = 60, buckets = []\<rparr>,
         sel_mem = [], clock = 3 / 2,
         logged = [(ERROR, ''Blocked navigation to non-allowed domain: evil.test''),
                   (ERROR, ''Blocked navigation to non-allowed domain: evil.test''),
                   (ERROR, ''Blocked navigation to non-allowed domain: evil.test'')]\<rparr>)"
  by code_simp

text \<open>
  C2, amended. For every URL that fails the allowlist check, \<^verbatim>\<open>goto\<close> runs its body three
  times, sleeping 0.5 s and 1 s in between, never reaches the browser navigation and
  re-raises the third PermissionError. When the allowlist passes and the origin's bucket
  is exhausted, the attempt raises the rate-limit error without touching the page and
  \<^verbatim>\<open>goto\<close> makes attempt 2 after 0.5 s of sleep; if the rate check fails in all three
  attempts, the third rate-limit error reaches the caller and the page is untouched.
\<close>

theorem goto_policy_failures_are_retried:
  "(is_domain_allowed (allowed_domains (security w)) url = Inr False \<longrightarrow>
      goto B url w =
        (Some (PermissionError (''Navigation blocked by security policy: '' @ url)),
         w\<lparr>clock := clock w + 3 / 2,
           logged := logged w
             @ replicate 3 (ERROR, ''Blocked navigation to non-allowed domain: ''
                                     @ urlparse_netloc url)\<rparr>))
   \<and> (is_domain_allowed (allowed_domains (security w)) url = Inr True
        \<and> fst (enforce_rate_limit w url) = Inr False \<longrightarrow>
      goto_body B url w =
        (Some (RuntimeError ''Rate limit exceeded, retry later''), snd (enforce_rate_limit w url))
      \<and> nav_page (snd (goto_body B url w)) = nav_page w
      \<and> goto B url w
          = retrying (goto_body B url) 2 (sleep (1 / 2) (snd (enforce_rate_limit w url))))
   \<and> (is_domain_allowed (allowed_domains (security w)) url = Inr True
        \<and> fst (enforce_rate_limit w url) = Inr False
        \<and> fst (enforce_rate_limit (sleep (1 / 2) (snd (enforce_rate_limit w url))) url)
            = Inr False
        \<and> fst (enforce_rate_limit
                  (sleep 1 (snd (enforce_rate_limit
                     (sleep (1 / 2) (snd (enforce_rate_limit w url))) url))) url)
            = Inr False \<longrightarrow>
      fst (goto B url w) = Some (RuntimeError ''Rate limit exceeded, retry later'')
      \<and> nav_page (snd (goto B url w)) = nav_page w)"
proof (intro conjI impI)
  assume blocked: "is_domain_allowed (allowed_domains (security w)) url = Inr False"
  let ?e = "PermissionError (''Navigation blocked by security policy: '' @ url)"
  let ?m = "''Blocked navigation to non-allowed domain: '' @ urlparse_netloc url"
  let ?w1 = "log_to ERROR ?m w"
  let ?w2 = "log_to ERROR ?m (sleep (1 / 2) ?w1)"
  let ?w3 = "log_to ERROR ?m (sleep 1 ?w2)"
  have b1: "goto_body B url w = (Some ?e, ?w1)"
    using blocked by (rule goto_body_blocked)
  have b2: "goto_body B url (sleep (1 / 2) ?w1) = (Some ?e, ?w2)"
    using blocked by (intro goto_body_blocked) simp
  have b3: "goto_body B url (sleep 1 ?w2) = (Some ?e, ?w3)"
    using blocked by (intro goto_body_blocked) simp
  have "goto B url w = (Some ?e, ?w3)"
    unfolding goto_def by (rule retrying_three_failures [where body = "goto_body B url", OF b1 b2 b3])
  also have "?w3 = w\<lparr>clock := clock w + 3 / 2, logged := logged w @ replicate 3 (ERROR, ?m)\<rparr>"
    by (simp add: log_to_def sleep_def numeral_3_eq_3)
  finally show "goto B url w =
        (Some ?e, w\<lparr>clock := clock w + 3 / 2, logged := logged w @ replicate 3 (ERROR, ?m)\<rparr>)" .
next
  assume a: "is_domain_allowed (allowed_domains (security w)) url = Inr True
        \<and> fst (enforce_rate_limit w url) = Inr False"
  then have b1: "goto_body B url w =
        (Some (RuntimeError ''Rate limit exceeded, retry later''), snd (enforce_rate_limit w url))"
    by (simp add: goto_body_rate_limited)
  then show "goto_body B url w =
        (Some (RuntimeError ''Rate limit exceeded, retry later''), snd (enforce_rate_limit w url))" .
  from b1 show "nav_page (snd (goto_body B url w)) = nav_page w" by simp
  from b1 show "goto B url w
          = retrying (goto_body B url) 2 (sleep (1 / 2) (snd (enforce_rate_limit w url)))"
    unfolding goto_def by (rule retrying_first_failure [where body = "goto_body B url"])
next
  let ?e = "RuntimeError ''Rate limit exceeded, retry later''"
  let ?w1 = "snd (enforce_rate_limit w url)"
  let ?w2 = "snd (enforce_rate_limit (sleep (1 / 2) ?w1) url)"
  let ?w3 = "snd (enforce_rate_limit (sleep 1 ?w2) url)"
  assume a: "is_domain_allowed (allowed_domains (security w)) url = Inr True
        \<and> fst (enforce_rate_limit w url) = Inr False
        \<and> fst (enforce_rate_limit (sleep (1 / 2) ?w1) url) = Inr False
        \<and> fst (enforce_rate_limit (sleep 1 ?w2) url) = Inr False"
  have b1: "goto_body B url w = (Some ?e, ?w1)"
    using a by (simp add: goto_body_rate_limited)
  have b2: "goto_body B url (sleep (1 / 2) ?w1) = (Some ?e, ?w2)"
    using a by (simp add: goto_body_rate_limited)
  have b3: "goto_body B url (sleep 1 ?w2) = (Some ?e, ?w3)"
    using a by (simp add: goto_body_rate_limited)
  have g: "goto B url w = (Some ?e, ?w3)"
    unfolding goto_def by (rule retrying_three_failures [where body = "goto_body B url", OF b1 b2 b3])
  from g show "fst (goto B url w) = Some ?e" by simp
  from g show "nav_page (snd (goto B url w)) = nav_page w" by (simp add: sleep_def)
qed

text \<open>
  Two runs: a URL outside the allowlist, and an allowed URL whose bucket (one token per
  minute, none left) is still empty after the two backoff sleeps.
\<close>

theorem goto_policy_failures_are_retried_witness:
  "fst (goto recording_browser ''https://blocked.test/x'' (example_nav [''example.com''] 60))
     = Some (PermissionError ''Navigation blocked by security policy: https://blocked.test/x'')
   \<and> clock (snd (goto recording_browser ''https://blocked.test/x''
                    (example_nav [''example.com''] 60))) = 3 / 2
   \<and> length (logged (snd (goto recording_browser ''https://blocked.test/x''
                    (example_nav [''example.com''] 60)))) = 3
   \<and> fst (goto recording_browser ''https://example.com/''
        ((example_nav [''example.com''] 1)
           \<lparr>security := \<lparr>allowed_domains = [''example.com''], rate_limit_per_min = 1,
              buckets = [(''https://example.com'',
                \<lparr>capacity = 1, tokens = 0, refill_rate = 1 / 60, last_refill = 0\<rparr>)]\<rparr>\<rparr>))
     = Some (RuntimeError ''Rate limit exceeded, retry later'')
   \<and> nav_page (snd (goto recording_browser ''https://example.com/''
        ((example_nav [''example.com''] 1)
           \<lparr>security := \<lparr>allowed_domains = [''example.com''], rate_limit_per_min = 1,
              buckets = [(''https://example.com'',
                \<lparr>capacity = 1, tokens = 0, refill_rate = 1 / 60, last_refill = 0\<rparr>)]\<rparr>\<rparr>))) = []"
proof -
  let ?w = "example_nav [''example.com''] 60"
  let ?v = "(example_nav [''example.com''] 1)
           \<lparr>security := \<lparr>allowed_domains = [''example.com''], rate_limit_per_min = 1,
              buckets = [(''https://example.com'',
                \<lparr>capacity = 1, tokens = 0, refill_rate = 1 / 60, last_refill = 0\<rparr>)]\<rparr>\<rparr>"
  have blocked: "is_domain_allowed (allowed_domains (security ?w)) ''https://blocked.test/x''
                 = Inr False"
    by code_simp
  have limited: "is_domain_allowed (allowed_domains (security ?v)) ''https://example.com/''
          = Inr True
        \<and> fst (enforce_rate_limit ?v ''https://example.com/'') = Inr False
        \<and> fst (enforce_rate_limit
              (sleep (1 / 2) (snd (enforce_rate_limit ?v ''https://example.com/'')))
              ''https://example.com/'') = Inr False
        \<and> fst (enforce_rate_limit
                    (sleep 1 (snd (enforce_rate_limit
                       (sleep (1 / 2) (snd (enforce_rate_limit ?v ''https://example.com/'')))
                       ''https://example.com/''))) ''https://example.com/'') = Inr False"
    by code_simp
  have host: "urlparse_netloc ''https://blocked.test/x'' = ''blocked.test''"
    by code_simp
  note first = goto_policy_failures_are_retried
      [of ?w "''https://blocked.test/x''" recording_browser, THEN conjunct1, rule_format, OF blocked]
  note third = goto_policy_failures_are_retried
      [of ?v "''https://example.com/''" recording_browser, THEN conjunct2, THEN conjunct2,
       rule_format, OF limited]
  have a: "fst (goto recording_browser ''https://blocked.test/x'' ?w)
     = Some (PermissionError ''Navigation blocked by security policy: https://blocked.test/x'')"
    by (simp add: first)
  have b: "clock (snd (goto recording_browser ''https://blocked.test/x'' ?w)) = 3 / 2"
    unfolding first by (simp add: example_nav_def)
  have c: "length (logged (snd (goto recording_browser ''https://blocked.test/x'' ?w))) = 3"
    unfolding first by (simp add: example_nav_def)
  have d: "nav_page ?v = []"
    by (simp add: example_nav_def)
  show ?thesis using a b c third d by simp
qed

text \<open>
  C3. The claim: after a failed step the loop goes on with step 1 of the plan that
  \<^verbatim>\<open>replan\<close> returned. In the code the \<^verbatim>\<open>for\<close> loop keeps iterating over the list it started
  with. With the first plan \<^verbatim>\<open>click #buy\<close>, \<^verbatim>\<open>wait 1s\<close>, \<^verbatim>\<open>extract title\<close>, a timeout in the
  first step and a planner that answers \<^verbatim>\<open>open https://shop.example/cart\<close>, \<^verbatim>\<open>click #pay\<close>,
  both loops dispatch the three steps of the first plan and no step of the new one; the
  new plan only reaches the result's \<^verbatim>\<open>plan\<close> entry.
\<close>

theorem run_continues_old_plan_after_replan:
  "snd (run example_env [] [''click #buy'', ''wait 1s'', ''extract title''])
     = [''click #buy'', ''wait 1s'', ''extract title'']
   \<and> plan (fst (run example_env [] [''click #buy'', ''wait 1s'', ''extract title'']))
     = [''open https://shop.example/cart'', ''click #pay'']
   \<and> step_log (fst (run example_env [] [''click #buy'', ''wait 1s'', ''extract title'']))
     = [(2, ''base:wait 1s'', ''done''), (3, ''base:extract title'', ''done'')]
   \<and> snd (base_run example_env [] [''click #buy'', ''wait 1s'', ''extract title''])
     = [''click #buy'', ''wait 1s'', ''extract title'']
   \<and> plan (fst (base_run example_env [] [''click #buy'', ''wait 1s'', ''extract title'']))
     = [''open https://shop.example/cart'', ''click #pay'']"
  by (simp add: run_def base_run_def example_env_def classify_def validate_def lower_def
      lower_char_def ascii_upper_def ascii_lower_def startswith_def newline_def)

text \<open>
  C4, as the claim states it, fails on two counts. On a page where every action times out
  and the semantic resolver finds no element, \<^verbatim>\<open>type_best\<close> has tried the CSS selector,
  the placeholder and the label (three actions) and then returns normally, with nothing
  logged. And the exception that \<^verbatim>\<open>click_best\<close> raises is the browser's own: it is the
  same whether the attempted memory selectors were none or \<^verbatim>\<open>#old\<close>; the list only shows
  in the error log.
\<close>

theorem exhausted_type_returns_and_click_error_is_the_browsers:
  "type_best (python_with_hash (\<lambda>t. 0))
          (scripted_browser ''https://example.com/x'' [] []) ''Email'' ''a@b.c''
       (empty_nav [] [])
     = (None, (empty_nav [] [])\<lparr>nav_page :=
          [''failed wait Email'', ''failed placeholder Email'', ''failed label Email'']\<rparr>)
   \<and> fst (click_best (python_with_hash (\<lambda>t. 0))
          (scripted_browser ''https://example.com/x'' [] []) ''Submit''
            (empty_nav [] []))
     = Some (PlaywrightError ''Timeout 10000ms exceeded'')
   \<and> logged (snd (click_best (python_with_hash (\<lambda>t. 0))
          (scripted_browser ''https://example.com/x'' [] [])
            ''Submit'' (empty_nav [] [])))
     = [(ERROR, ''All click strategies failed for Submit: ''
                @ ''Timeout 10000ms exceeded; tried=[]'')]
   \<and> fst (click_best (python_with_hash (\<lambda>t. 0))
          (scripted_browser ''https://example.com/x'' [] []) ''Submit''
       (empty_nav [] [\<lparr>rowid = 1, sel_host = ''example.com'', sel_action = ''click'',
                      sel_label = ''Submit'', selector = ''#old'', success_count = 2,
                      updated = 50\<rparr>]))
     = Some (PlaywrightError ''Timeout 10000ms exceeded'')
   \<and> logged (snd (click_best (python_with_hash (\<lambda>t. 0))
          (scripted_browser ''https://example.com/x'' [] [])
       ''Submit''
       (empty_nav [] [\<lparr>rowid = 1, sel_host = ''example.com'', sel_action = ''click'',
                      sel_label = ''Submit'', selector = ''#old'', success_count = 2,
                      updated = 50\<rparr>])))
     = [(ERROR, ''All click strategies failed for Submit: ''
                @ ''Timeout 10000ms exceeded; tried=['' @ [CHR 0x27] @ ''#old''
                @ [CHR 0x27] @ '']'')]"
  by (simp add: click_best_def click_memory_def click_css_def click_role_def click_semantic_def
      click_text_def type_best_def type_memory_def type_css_def type_placeholder_def
      type_label_def type_semantic_def stage_def remember_def log_to_def wait_and_click_def
      wait_and_fill_def semantic_candidate_def page_host_def scripted_browser_def scripted_act_def
      empty_nav_def sanitize_input_def get_def get_rows_def where_hal_def order_by_def
      repr_list_def repr_str_def repr_char_def printable_def Let_def lower_def lower_char_def ascii_lower_def ascii_upper_def startswith_def)

text \<open>
  C4, amended. When every stage of \<^verbatim>\<open>click_best\<close> fails (each in the state its predecessor
  left), the method raises, and what it raises is the exception of the last stage, the
  text locator, as the browser raised it; the attempted memory selectors are written to
  the error log. When every stage of \<^verbatim>\<open>type_best\<close> fails and the semantic resolver
  named a candidate, the method raises the exception of the last attempt, the label
  lookup of the candidate, and logs in the same way.
\<close>

theorem exhausted_fallback_reraises_last_exception:
  "(click_memory B target w = (False, tried, w1)
    \<and> click_css B target (page_host B (nav_page w)) w1 = (Failed x, w2)
    \<and> click_role B target (page_host B (nav_page w)) w2 = (Failed y, w3)
    \<and> click_semantic h B target (page_host B (nav_page w)) w3 = (Failed z, w4)
    \<and> text_click B (nav_page w4) target = (Some e, p)
    \<longrightarrow> click_best h B target w
          = (Some e, log_to ERROR (''All click strategies failed for '' @ target @ '': ''
                                    @ exn_message e @ ''; tried='' @ repr_list tried)
                       (w4\<lparr>nav_page := p\<rparr>)))
   \<and> (sanitize_input typed v = (stext, v0)
    \<and> type_memory B field stext v0 = (False, tried', v1)
    \<and> type_css B field stext (page_host B (nav_page v)) v1 = (Failed x', v2)
    \<and> type_placeholder B field stext (page_host B (nav_page v)) v2 = (Failed y', v3)
    \<and> type_label B field stext (page_host B (nav_page v)) v3 = (Failed z', v4)
    \<and> semantic_candidate h B (nav_page v4) False field = Some cand \<and> cand \<noteq> []
    \<and> placeholder_fill B (nav_page v4) cand stext = (Some e1, q1)
    \<and> label_fill B q1 cand stext = (Some e2, q2)
    \<longrightarrow> type_best h B field typed v
          = (Some e2, log_to ERROR (''All type strategies failed for '' @ field @ '': ''
                                     @ exn_message e2 @ ''; tried='' @ repr_list tried')
                        (v4\<lparr>nav_page := q2\<rparr>)))"
proof (intro conjI impI)
  assume "click_memory B target w = (False, tried, w1)
    \<and> click_css B target (page_host B (nav_page w)) w1 = (Failed x, w2)
    \<and> click_role B target (page_host B (nav_page w)) w2 = (Failed y, w3)
    \<and> click_semantic h B target (page_host B (nav_page w)) w3 = (Failed z, w4)
    \<and> text_click B (nav_page w4) target = (Some e, p)"
  then show "click_best h B target w
          = (Some e, log_to ERROR (''All click strategies failed for '' @ target @ '': ''
                                    @ exn_message e @ ''; tried='' @ repr_list tried)
                       (w4\<lparr>nav_page := p\<rparr>))"
    by (simp add: click_best_def click_text_def Let_def)
next
  assume a: "sanitize_input typed v = (stext, v0)
    \<and> type_memory B field stext v0 = (False, tried', v1)
    \<and> type_css B field stext (page_host B (nav_page v)) v1 = (Failed x', v2)
    \<and> type_placeholder B field stext (page_host B (nav_page v)) v2 = (Failed y', v3)
    \<and> type_label B field stext (page_host B (nav_page v)) v3 = (Failed z', v4)
    \<and> semantic_candidate h B (nav_page v4) False field = Some cand \<and> cand \<noteq> []
    \<and> placeholder_fill B (nav_page v4) cand stext = (Some e1, q1)
    \<and> label_fill B q1 cand stext = (Some e2, q2)"
  then have page: "nav_page v0 = nav_page v"
    using sanitize_input_frame [of typed v stext v0] by simp
  from a page show "type_best h B field typed v
          = (Some e2, log_to ERROR (''All type strategies failed for '' @ field @ '': ''
                                     @ exn_message e2 @ ''; tried='' @ repr_list tried')
                        (v4\<lparr>nav_page := q2\<rparr>))"
    by (simp add: type_best_def type_semantic_def stage_def Let_def)
qed


text \<open>
  A page on \<^verbatim>\<open>example.com\<close> where every action times out and the element query finds one
  text, \<^verbatim>\<open>Pay now\<close>: both chains run through all their stages and raise the timeout of
  their last attempt.
\<close>

theorem exhausted_fallback_reraises_last_exception_witness:
  "click_best (python_with_hash (\<lambda>t. 0))
          (scripted_browser ''https://example.com/x'' [] [''Pay now'']) ''Submit''
      (empty_nav [] [])
     = (Some (PlaywrightError ''Timeout 10000ms exceeded''),
        (empty_nav [] [])
          \<lparr>nav_page := [''failed wait Submit'', ''failed role Submit'',
                        ''failed text Pay now'', ''failed text Submit''],
           logged := [(ERROR, ''All click strategies failed for Submit: ''
                              @ ''Timeout 10000ms exceeded; tried=[]'')]\<rparr>)
   \<and> type_best (python_with_hash (\<lambda>t. 0))
          (scripted_browser ''https://example.com/x'' [] [''Pay now''])
        ''Email'' ''a@b.c'' (empty_nav [] [])
     = (Some (PlaywrightError ''Timeout 10000ms exceeded''),
        (empty_nav [] [])
          \<lparr>nav_page := [''failed wait Email'', ''failed placeholder Email'',
                        ''failed label Email'', ''failed placeholder Pay now'',
                        ''failed label Pay now''],
           logged := [(ERROR, ''All type strategies failed for Email: ''
                              @ ''Timeout 10000ms exceeded; tried=[]'')]\<rparr>)"
proof -
  let ?B = "scripted_browser ''https://example.com/x'' [] [''Pay now'']"
  let ?w = "empty_nav [] [] :: string list nav"
  let ?e = "PlaywrightError ''Timeout 10000ms exceeded''"
  let ?h = "python_with_hash (\<lambda>t. 0)"
  note defs = click_memory_def click_css_def click_role_def click_semantic_def
      type_memory_def type_css_def type_placeholder_def type_label_def
      stage_def remember_def log_to_def wait_and_click_def wait_and_fill_def
      page_host_def scripted_browser_def scripted_act_def empty_nav_def sanitize_input_def
      get_def get_rows_def where_hal_def order_by_def repr_list_def repr_str_def repr_char_def printable_def Let_def lower_def lower_char_def
      ascii_lower_def ascii_upper_def startswith_def
  have cand: "semantic_candidate ?h ?B p m q = Some ''Pay now''" for p m q
    by (rule semantic_candidate_single) (simp add: scripted_browser_def)
  have click_chain:
    "click_memory ?B ''Submit'' ?w = (False, [], ?w)
     \<and> click_css ?B ''Submit'' (page_host ?B (nav_page ?w)) ?w
         = (Failed (Some ?e), ?w\<lparr>nav_page := [''failed wait Submit'']\<rparr>)
     \<and> click_role ?B ''Submit'' (page_host ?B (nav_page ?w))
          (?w\<lparr>nav_page := [''failed wait Submit'']\<rparr>)
         = (Failed (Some ?e), ?w\<lparr>nav_page := [''failed wait Submit'', ''failed role Submit'']\<rparr>)
     \<and> click_semantic ?h ?B ''Submit'' (page_host ?B (nav_page ?w))
          (?w\<lparr>nav_page := [''failed wait Submit'', ''failed role Submit'']\<rparr>)
         = (Failed (Some ?e),
            ?w\<lparr>nav_page := [''failed wait Submit'', ''failed role Submit'',
                             ''failed text Pay now'']\<rparr>)
     \<and> text_click ?B (nav_page (?w\<lparr>nav_page := [''failed wait Submit'', ''failed role Submit'',
                             ''failed text Pay now'']\<rparr>)) ''Submit''
         = (Some ?e, [''failed wait Submit'', ''failed role Submit'',
                      ''failed text Pay now'', ''failed text Submit''])"
    unfolding click_semantic_def cand by (simp add: defs)
  have type_chain:
    "sanitize_input ''a@b.c'' ?w = (''a@b.c'', ?w)
     \<and> type_memory ?B ''Email'' ''a@b.c'' ?w = (False, [], ?w)
     \<and> type_css ?B ''Email'' ''a@b.c'' (page_host ?B (nav_page ?w)) ?w
         = (Failed (Some ?e), ?w\<lparr>nav_page := [''failed wait Email'']\<rparr>)
     \<and> type_placeholder ?B ''Email'' ''a@b.c'' (page_host ?B (nav_page ?w))
          (?w\<lparr>nav_page := [''failed wait Email'']\<rparr>)
         = (Failed (Some ?e),
            ?w\<lparr>nav_page := [''failed wait Email'', ''failed placeholder Email'']\<rparr>)
     \<and> type_label ?B ''Email'' ''a@b.c'' (page_host ?B (nav_page ?w))
          (?w\<lparr>nav_page := [''failed wait Email'', ''failed placeholder Email'']\<rparr>)
         = (Failed (Some ?e),
            ?w\<lparr>nav_page := [''failed wait Email'', ''failed placeholder Email'',
                             ''failed label Email'']\<rparr>)
     \<and> semantic_candidate ?h ?B
          (nav_page (?w\<lparr>nav_page := [''failed wait Email'', ''failed placeholder Email'',
                             ''failed label Email'']\<rparr>)) False ''Email'' = Some ''Pay now''
     \<and> ''Pay now'' \<noteq> []
     \<and> placeholder_fill ?B
          (nav_page (?w\<lparr>nav_page := [''failed wait Email'', ''failed placeholder Email'',
                             ''failed label Email'']\<rparr>)) ''Pay now'' ''a@b.c''
         = (Some ?e, [''failed wait Email'', ''failed placeholder Email'',
                      ''failed label Email'', ''failed placeholder Pay now''])
     \<and> label_fill ?B [''failed wait Email'', ''failed placeholder Email'',
                      ''failed label Email'', ''failed placeholder Pay now''] ''Pay now'' ''a@b.c''
         = (Some ?e, [''failed wait Email'', ''failed placeholder Email'',
                      ''failed label Email'', ''failed placeholder Pay now'',
                      ''failed label Pay now''])"
    unfolding cand by (simp add: defs)
  note both = exhausted_fallback_reraises_last_exception
      [where B = ?B and h = ?h and target = "''Submit''" and w = ?w and field = "''Email''"
         and typed = "''a@b.c''" and v = ?w]
  from both [THEN conjunct1, rule_format, OF click_chain]
       both [THEN conjunct2, rule_format, OF type_chain]
  show ?thesis
    by (simp add: log_to_def empty_nav_def repr_list_def)
qed

text \<open>
  C5, as the claim states it, fails: a \<^verbatim>\<open>consume\<close> call may pass a negative request, the
  comparison \<^verbatim>\<open>self.tokens >= tokens\<close> then holds and the subtraction adds tokens. On a fresh
  bucket of capacity 1, \<^verbatim>\<open>consume(-1)\<close> returns True and leaves 2 tokens.
\<close>

theorem consume_negative_exceeds_capacity:
  "fst (consume (TokenBucket_init 1 (1 / 60) 0) 0 (- 1))
   \<and> tokens (consume_all (TokenBucket_init 1 (1 / 60) 0) [(0, - 1)]) = 2
   \<and> \<not> tokens (consume_all (TokenBucket_init 1 (1 / 60) 0) [(0, - 1)])
        \<le> of_int (capacity (consume_all (TokenBucket_init 1 (1 / 60) 0) [(0, - 1)]))"
  by (simp add: consume_def refill_def TokenBucket_init_def)

text \<open>
  C5, amended. For every bucket, clock reading and request: if the request exceeds the
  tokens available after the lazy refill, \<^verbatim>\<open>consume\<close> returns False and the bucket is the
  refilled one (nothing is taken); otherwise it returns True and the count is the refilled
  count minus the request. For a bucket whose count is at most its capacity (as the
  constructor makes it) and any sequence of calls whose requests are all non-negative,
  the count after the sequence is at most the capacity.
\<close>

theorem consume_correct_nonneg_bounded:
  "(tokens (refill b now) < of_int n \<longrightarrow> consume b now n = (False, refill b now))
   \<and> (of_int n \<le> tokens (refill b now) \<longrightarrow>
        consume b now n = (True, (refill b now)\<lparr>tokens := tokens (refill b now) - of_int n\<rparr>))
   \<and> (tokens b0 \<le> of_int (capacity b0) \<and> list_all (\<lambda>c. 0 \<le> snd c) calls \<longrightarrow>
        tokens (consume_all b0 calls) \<le> of_int (capacity (consume_all b0 calls))
        \<and> capacity (consume_all b0 calls) = capacity b0)"
proof (intro conjI impI)
  assume "tokens (refill b now) < of_int n"
  then show "consume b now n = (False, refill b now)"
    by (simp add: consume_def Let_def)
next
  assume "of_int n \<le> tokens (refill b now)"
  then show "consume b now n = (True, (refill b now)\<lparr>tokens := tokens (refill b now) - of_int n\<rparr>)"
    by (simp add: consume_def Let_def)
next
  assume "tokens b0 \<le> of_int (capacity b0) \<and> list_all (\<lambda>c. 0 \<le> snd c) calls"
  then have inv: "tokens (consume_all b0 calls) \<le> of_int (capacity (consume_all b0 calls))
        \<and> capacity (consume_all b0 calls) = capacity b0"
  proof (induction calls arbitrary: b0)
    case Nil
    then show ?case by simp
  next
    case (Cons c calls)
    obtain t m where c: "c = (t, m)" by (cases c)
    from Cons.prems c have m: "0 \<le> m" by simp
    have step: "tokens (snd (consume b0 t m)) \<le> of_int (capacity (snd (consume b0 t m)))
                \<and> capacity (snd (consume b0 t m)) = capacity b0"
      using consume_preserves_bound [of b0 m t] Cons.prems m by simp
    from Cons.IH [of "snd (consume b0 t m)"] step Cons.prems c
    show ?case by simp
  qed
  from inv show "tokens (consume_all b0 calls) \<le> of_int (capacity (consume_all b0 calls))" by simp
  from inv show "capacity (consume_all b0 calls) = capacity b0" by simp
qed

theorem consume_correct_nonneg_bounded_witness:
  "consume (TokenBucket_init 2 (1 / 30) 0) 15 3 = (False, refill (TokenBucket_init 2 (1 / 30) 0) 15)
   \<and> consume (TokenBucket_init 2 (1 / 30) 0) 15 1
       = (True, \<lparr>capacity = 2, tokens = 1, refill_rate = 1 / 30, last_refill = 15\<rparr>)
   \<and> tokens (consume_all (TokenBucket_init 2 (1 / 30) 0) [(15, 1), (15, 1), (15, 1), (45, 1)]) = 0
   \<and> tokens (consume_all (TokenBucket_init 2 (1 / 30) 0) [(15, 1), (15, 1), (15, 1), (45, 1)])
       \<le> of_int (capacity (consume_all (TokenBucket_init 2 (1 / 30) 0) [(15, 1), (15, 1), (15, 1), (45, 1)]))"
  using consume_correct_nonneg_bounded
          [of "TokenBucket_init 2 (1 / 30) 0" 15 3
              "TokenBucket_init 2 (1 / 30) 0" "[(15, 1), (15, 1), (15, 1), (45, 1)]"]
        consume_correct_nonneg_bounded
          [of "TokenBucket_init 2 (1 / 30) 0" 15 1
              "TokenBucket_init 2 (1 / 30) 0" "[(15, 1), (15, 1), (15, 1), (45, 1)]"]
  by (simp add: consume_def refill_def TokenBucket_init_def)

text \<open>
  C6. For every (host, action, label), \<^verbatim>\<open>SelectorMemory.get\<close> returns the selectors of
  exactly the rows stored under that key, ordered by success count descending and, among
  equal counts, by timestamp descending. \<^verbatim>\<open>save_success\<close> on a (host, action, label,
  selector) tuple that is present adds exactly 1 to that row's count and sets its
  timestamp to the current time, leaving every other row as it was; on a tuple that is
  absent it appends a row with count 1. Row ids stay unique.
\<close>

theorem selector_memory_get_sorted_save_upsert:
  "get tbl h a l = map selector (get_rows tbl h a l)
   \<and> mset (get_rows tbl h a l) = filter_mset (where_hal h a l) (mset tbl)
   \<and> sorted_wrt (\<lambda>r r'. success_count r > success_count r'
                   \<or> (success_count r = success_count r' \<and> updated r \<ge> updated r'))
        (get_rows tbl h a l)
   \<and> (distinct (map rowid tbl) \<and> tbl = pre @ r # post
        \<and> where_hals h a l s r \<and> \<not> list_ex (where_hals h a l s) pre \<longrightarrow>
          save_success tbl h a l s now
            = pre @ r\<lparr>success_count := success_count r + 1, updated := now\<rparr> # post)
   \<and> (\<not> list_ex (where_hals h a l s) tbl \<longrightarrow>
          save_success tbl h a l s now
            = tbl @ [\<lparr>rowid = next_rowid tbl, sel_host = h, sel_action = a, sel_label = l,
                      selector = s, success_count = 1, updated = now\<rparr>])
   \<and> (distinct (map rowid tbl) \<longrightarrow> distinct (map rowid (save_success tbl h a l s now)))"
proof (intro conjI impI)
  show "get tbl h a l = map selector (get_rows tbl h a l)"
    by (simp add: get_def)
  show "mset (get_rows tbl h a l) = filter_mset (where_hal h a l) (mset tbl)"
    by (simp add: get_rows_def)
  show "sorted_wrt (\<lambda>r r'. success_count r > success_count r'
                   \<or> (success_count r = success_count r' \<and> updated r \<ge> updated r'))
        (get_rows tbl h a l)"
    by (rule get_rows_sorted)
next
  assume a: "distinct (map rowid tbl) \<and> tbl = pre @ r # post
        \<and> where_hals h a l s r \<and> \<not> list_ex (where_hals h a l s) pre"
  then have f: "find (where_hals h a l s) tbl = Some r"
    by (simp add: find_split)
  from a have t: "tbl = pre @ r # post" by blast
  from a have "distinct (map rowid tbl)" by blast
  then have d: "distinct (map rowid (pre @ r # post))" by (simp only: t)
  have "map (\<lambda>x. if rowid x = rowid r
                  then x\<lparr>success_count := success_count r + 1, updated := now\<rparr> else x)
          (pre @ r # post)
        = pre @ r\<lparr>success_count := success_count r + 1, updated := now\<rparr> # post"
    by (rule map_update_unique [OF d])
  with f t show "save_success tbl h a l s now
            = pre @ r\<lparr>success_count := success_count r + 1, updated := now\<rparr> # post"
    by (simp add: save_success_def)
next
  assume "\<not> list_ex (where_hals h a l s) tbl"
  then have "find (where_hals h a l s) tbl = None" by (rule find_none)
  then show "save_success tbl h a l s now
            = tbl @ [\<lparr>rowid = next_rowid tbl, sel_host = h, sel_action = a, sel_label = l,
                      selector = s, success_count = 1, updated = now\<rparr>]"
    by (simp add: save_success_def)
next
  assume "distinct (map rowid tbl)"
  then show "distinct (map rowid (save_success tbl h a l s now))"
    by (rule save_success_distinct)
qed


theorem selector_memory_get_sorted_save_upsert_witness:
  "get [\<lparr>rowid = 1, sel_host = ''example.com'', sel_action = ''click'', sel_label = ''Submit'',
          selector = ''#a'', success_count = 1, updated = 10\<rparr>,
        \<lparr>rowid = 2, sel_host = ''example.com'', sel_action = ''click'', sel_label = ''Submit'',
          selector = ''#b'', success_count = 3, updated = 5\<rparr>,
        \<lparr>rowid = 3, sel_host = ''example.com'', sel_action = ''click'', sel_label = ''Submit'',
          selector = ''#c'', success_count = 3, updated = 7\<rparr>]
       ''example.com'' ''click'' ''Submit'' = [''#c'', ''#b'', ''#a'']
   \<and> save_success
        [\<lparr>rowid = 1, sel_host = ''example.com'', sel_action = ''click'', sel_label = ''Submit'',
          selector = ''#a'', success_count = 1, updated = 10\<rparr>,
        \<lparr>rowid = 2, sel_host = ''example.com'', sel_action = ''click'', sel_label = ''Submit'',
          selector = ''#b'', success_count = 3, updated = 5\<rparr>,
        \<lparr>rowid = 3, sel_host = ''example.com'', sel_action = ''click'', sel_label = ''Submit'',
          selector = ''#c'', success_count = 3, updated = 7\<rparr>]
       ''example.com'' ''click'' ''Submit'' ''#b'' 20
       = [\<lparr>rowid = 1, sel_host = ''example.com'', sel_action = ''click'', sel_label = ''Submit'',
          selector = ''#a'', success_count = 1, updated = 10\<rparr>,
        \<lparr>rowid = 2, sel_host = ''example.com'', sel_action = ''click'', sel_label = ''Submit'',
          selector = ''#b'', success_count = 4, updated = 20\<rparr>,
        \<lparr>rowid = 3, sel_host = ''example.com'', sel_action = ''click'', sel_label = ''Submit'',
          selector = ''#c'', success_count = 3, updated = 7\<rparr>]
   \<and> save_success
        [\<lparr>rowid = 1, sel_host = ''example.com'', sel_action = ''click'', sel_label = ''Submit'',
          selector = ''#a'', success_count = 1, updated = 10\<rparr>]
       ''example.com'' ''click'' ''Submit'' ''#z'' 20
       = [\<lparr>rowid = 1, sel_host = ''example.com'', sel_action = ''click'', sel_label = ''Submit'',
          selector = ''#a'', success_count = 1, updated = 10\<rparr>,
        \<lparr>rowid = 2, sel_host = ''example.com'', sel_action = ''click'', sel_label = ''Submit'',
          selector = ''#z'', success_count = 1, updated = 20\<rparr>]"
proof -
  let ?r1 = "\<lparr>rowid = 1, sel_host = ''example.com'', sel_action = ''click'', sel_label = ''Submit'',
          selector = ''#a'', success_count = 1, updated = 10\<rparr>"
  let ?r2 = "\<lparr>rowid = 2, sel_host = ''example.com'', sel_action = ''click'', sel_label = ''Submit'',
          selector = ''#b'', success_count = 3, updated = 5\<rparr>"
  let ?r3 = "\<lparr>rowid = 3, sel_host = ''example.com'', sel_action = ''click'', sel_label = ''Submit'',
          selector = ''#c'', success_count = 3, updated = 7\<rparr>"
  note upd = selector_memory_get_sorted_save_upsert
      [of "[?r1, ?r2, ?r3]" "''example.com''" "''click''" "''Submit''" "[?r1]" ?r2 "[?r3]" "''#b''" 20]
  note ins = selector_memory_get_sorted_save_upsert
      [of "[?r1]" "''example.com''" "''click''" "''Submit''" "[]" ?r1 "[]" "''#z''" 20]
  have g: "get [?r1, ?r2, ?r3] ''example.com'' ''click'' ''Submit'' = [''#c'', ''#b'', ''#a'']"
    by (simp add: get_def get_rows_def where_hal_def order_by_def less_eq_prod_def)
  have u: "save_success [?r1, ?r2, ?r3] ''example.com'' ''click'' ''Submit'' ''#b'' 20
           = [?r1, ?r2\<lparr>success_count := success_count ?r2 + 1, updated := 20\<rparr>, ?r3]"
    using upd by (simp add: where_hals_def)
  have i: "save_success [?r1] ''example.com'' ''click'' ''Submit'' ''#z'' 20
           = [?r1] @ [\<lparr>rowid = next_rowid [?r1], sel_host = ''example.com'', sel_action = ''click'',
                sel_label = ''Submit'', selector = ''#z'', success_count = 1, updated = 20\<rparr>]"
    using ins by (simp add: where_hals_def)
  show ?thesis using g u i by (simp add: next_rowid_def)
qed

text \<open>
  C7, as the claim states it, fails in its second half: the descriptor is recorded only
  under \<^verbatim>\<open>if host:\<close>. On a page without a host (\<^verbatim>\<open>about:blank\<close>) the CSS stage resolves
  \<^verbatim>\<open>#go\<close>, the click is logged, and the selector table stays empty.
\<close>

theorem later_stage_success_without_host_records_nothing:
  "page_host (scripted_browser ''about:blank'' [''wait #go'', ''click #go''] []) [] = []
   \<and> click_best (python_with_hash (\<lambda>t. 0))
          (scripted_browser ''about:blank'' [''wait #go'', ''click #go''] [])
        ''#go'' (empty_nav [] [])
     = (None, (empty_nav [] [])\<lparr>nav_page := [''wait #go'', ''click #go''],
                                logged := [(INFO, ''Clicked CSS: #go'')]\<rparr>)
   \<and> sel_mem (snd (click_best (python_with_hash (\<lambda>t. 0))
          (scripted_browser ''about:blank'' [''wait #go'', ''click #go''] [])
          ''#go'' (empty_nav [] []))) = []"
  by (simp add: click_best_def click_memory_def click_css_def stage_def remember_def log_to_def
      wait_and_click_def page_host_def scripted_browser_def scripted_act_def empty_nav_def)

text \<open>
  C7, amended. When a click or type target resolves from a selector that
  \<^verbatim>\<open>SelectorMemory.get\<close> returned (stage 1), the method returns in the state that stage
  left: no later stage runs, \<^verbatim>\<open>save_success\<close> is not called, the selector table is
  unchanged. When stage 1 fails and a later stage is the first to resolve the target, and
  the page URL has a host, the table afterwards is the table before with one
  \<^verbatim>\<open>save_success\<close> for (host, action, label) and the descriptor of that stage: the target
  itself for the CSS stage, \<^verbatim>\<open>role=button,name=<target>\<close>, \<^verbatim>\<open>semantic_text=<candidate>\<close>
  and \<^verbatim>\<open>text=<target>\<close> for clicks; the field itself, \<^verbatim>\<open>placeholder=<field>\<close>,
  \<^verbatim>\<open>label=<field>\<close>, \<^verbatim>\<open>semantic_placeholder=<candidate>\<close> and
  \<^verbatim>\<open>semantic_label=<candidate>\<close> for typing. Each stage is taken in the state its
  predecessor left.
\<close>

theorem memory_hit_writes_nothing_later_stage_records_descriptor:
  "(click_memory B target w = (True, tried, w1) \<longrightarrow>
      click_best h B target w = (None, w1) \<and> sel_mem w1 = sel_mem w)
   \<and> (page_host B (nav_page w) \<noteq> [] \<and> click_memory B target w = (False, tried, w1)
       \<and> click_css B target (page_host B (nav_page w)) w1 = (Done, w2) \<longrightarrow>
      click_best h B target w = (None, w2)
      \<and> sel_mem w2 = save_success (sel_mem w) (page_host B (nav_page w)) ''click'' target
                         target (clock w))
   \<and> (page_host B (nav_page w) \<noteq> [] \<and> click_memory B target w = (False, tried, w1)
       \<and> click_css B target (page_host B (nav_page w)) w1 = (Failed x, w2)
       \<and> click_role B target (page_host B (nav_page w)) w2 = (Done, w3) \<longrightarrow>
      click_best h B target w = (None, w3)
      \<and> sel_mem w3 = save_success (sel_mem w) (page_host B (nav_page w)) ''click'' target
                         (''role=button,name='' @ target) (clock w))
   \<and> (page_host B (nav_page w) \<noteq> [] \<and> click_memory B target w = (False, tried, w1)
       \<and> click_css B target (page_host B (nav_page w)) w1 = (Failed x, w2)
       \<and> click_role B target (page_host B (nav_page w)) w2 = (Failed y, w3)
       \<and> click_semantic h B target (page_host B (nav_page w)) w3 = (Done, w4)
       \<and> semantic_candidate h B (nav_page w3) True target = Some cand \<longrightarrow>
      click_best h B target w = (None, w4)
      \<and> sel_mem w4 = save_success (sel_mem w) (page_host B (nav_page w)) ''click'' target
                         (''semantic_text='' @ cand) (clock w))
   \<and> (page_host B (nav_page w) \<noteq> [] \<and> click_memory B target w = (False, tried, w1)
       \<and> click_css B target (page_host B (nav_page w)) w1 = (Failed x, w2)
       \<and> click_role B target (page_host B (nav_page w)) w2 = (Failed y, w3)
       \<and> click_semantic h B target (page_host B (nav_page w)) w3 = (Failed z, w4)
       \<and> text_click B (nav_page w4) target = (None, p) \<longrightarrow>
      fst (click_best h B target w) = None
      \<and> sel_mem (snd (click_best h B target w))
          = save_success (sel_mem w) (page_host B (nav_page w)) ''click'' target
              (''text='' @ target) (clock w))
   \<and> (sanitize_input typed v = (stext, v0)
       \<and> type_memory B field stext v0 = (True, tried', v1) \<longrightarrow>
      type_best h B field typed v = (None, v1) \<and> sel_mem v1 = sel_mem v)
   \<and> (page_host B (nav_page v) \<noteq> [] \<and> sanitize_input typed v = (stext, v0)
       \<and> type_memory B field stext v0 = (False, tried', v1)
       \<and> type_css B field stext (page_host B (nav_page v)) v1 = (Done, v2) \<longrightarrow>
      type_best h B field typed v = (None, v2)
      \<and> sel_mem v2 = save_success (sel_mem v) (page_host B (nav_page v)) ''type'' field field
                         (clock v))
   \<and> (page_host B (nav_page v) \<noteq> [] \<and> sanitize_input typed v = (stext, v0)
       \<and> type_memory B field stext v0 = (False, tried', v1)
       \<and> type_css B field stext (page_host B (nav_page v)) v1 = (Failed x', v2)
       \<and> type_placeholder B field stext (page_host B (nav_page v)) v2 = (Done, v3) \<longrightarrow>
      type_best h B field typed v = (None, v3)
      \<and> sel_mem v3 = save_success (sel_mem v) (page_host B (nav_page v)) ''type'' field
                         (''placeholder='' @ field) (clock v))
   \<and> (page_host B (nav_page v) \<noteq> [] \<and> sanitize_input typed v = (stext, v0)
       \<and> type_memory B field stext v0 = (False, tried', v1)
       \<and> type_css B field stext (page_host B (nav_page v)) v1 = (Failed x', v2)
       \<and> type_placeholder B field stext (page_host B (nav_page v)) v2 = (Failed y', v3)
       \<and> type_label B field stext (page_host B (nav_page v)) v3 = (Done, v4) \<longrightarrow>
      type_best h B field typed v = (None, v4)
      \<and> sel_mem v4 = save_success (sel_mem v) (page_host B (nav_page v)) ''type'' field
                         (''label='' @ field) (clock v))
   \<and> (page_host B (nav_page v) \<noteq> [] \<and> sanitize_input typed v = (stext, v0)
       \<and> type_memory B field stext v0 = (False, tried', v1)
       \<and> type_css B field stext (page_host B (nav_page v)) v1 = (Failed x', v2)
       \<and> type_placeholder B field stext (page_host B (nav_page v)) v2 = (Failed y', v3)
       \<and> type_label B field stext (page_host B (nav_page v)) v3 = (Failed z', v4)
       \<and> semantic_candidate h B (nav_page v4) False field = Some cand' \<and> cand' \<noteq> []
       \<and> placeholder_fill B (nav_page v4) cand' stext = (None, q) \<longrightarrow>
      fst (type_best h B field typed v) = None
      \<and> sel_mem (snd (type_best h B field typed v))
          = save_success (sel_mem v) (page_host B (nav_page v)) ''type'' field
              (''semantic_placeholder='' @ cand') (clock v))
   \<and> (page_host B (nav_page v) \<noteq> [] \<and> sanitize_input typed v = (stext, v0)
       \<and> type_memory B field stext v0 = (False, tried', v1)
       \<and> type_css B field stext (page_host B (nav_page v)) v1 = (Failed x', v2)
       \<and> type_placeholder B field stext (page_host B (nav_page v)) v2 = (Failed y', v3)
       \<and> type_label B field stext (page_host B (nav_page v)) v3 = (Failed z', v4)
       \<and> semantic_candidate h B (nav_page v4) False field = Some cand' \<and> cand' \<noteq> []
       \<and> placeholder_fill B (nav_page v4) cand' stext = (Some e1, q1)
       \<and> label_fill B q1 cand' stext = (None, q2) \<longrightarrow>
      fst (type_best h B field typed v) = None
      \<and> sel_mem (snd (type_best h B field typed v))
          = save_success (sel_mem v) (page_host B (nav_page v)) ''type'' field
              (''semantic_label='' @ cand') (clock v))"
proof (intro conjI impI; (elim conjE)?)
  assume "click_memory B target w = (True, tried, w1)"
  then show "click_best h B target w = (None, w1)" "sel_mem w1 = sel_mem w"
    by (rule click_best_memory)+
next
  assume "page_host B (nav_page w) \<noteq> []" "click_memory B target w = (False, tried, w1)"
    "click_css B target (page_host B (nav_page w)) w1 = (Done, w2)"
  then show "click_best h B target w = (None, w2)"
    "sel_mem w2 = save_success (sel_mem w) (page_host B (nav_page w)) ''click'' target
                         target (clock w)"
    by (rule click_best_css)+
next
  assume "page_host B (nav_page w) \<noteq> []" "click_memory B target w = (False, tried, w1)"
    "click_css B target (page_host B (nav_page w)) w1 = (Failed x, w2)"
    "click_role B target (page_host B (nav_page w)) w2 = (Done, w3)"
  then show "click_best h B target w = (None, w3)"
    "sel_mem w3 = save_success (sel_mem w) (page_host B (nav_page w)) ''click'' target
                         (''role=button,name='' @ target) (clock w)"
    by (rule click_best_role)+
next
  assume "page_host B (nav_page w) \<noteq> []" "click_memory B target w = (False, tried, w1)"
    "click_css B target (page_host B (nav_page w)) w1 = (Failed x, w2)"
    "click_role B target (page_host B (nav_page w)) w2 = (Failed y, w3)"
    "click_semantic h B target (page_host B (nav_page w)) w3 = (Done, w4)"
    "semantic_candidate h B (nav_page w3) True target = Some cand"
  then show "click_best h B target w = (None, w4)"
    "sel_mem w4 = save_success (sel_mem w) (page_host B (nav_page w)) ''click'' target
                         (''semantic_text='' @ cand) (clock w)"
    by (rule click_best_semantic)+
next
  assume "page_host B (nav_page w) \<noteq> []" "click_memory B target w = (False, tried, w1)"
    "click_css B target (page_host B (nav_page w)) w1 = (Failed x, w2)"
    "click_role B target (page_host B (nav_page w)) w2 = (Failed y, w3)"
    "click_semantic h B target (page_host B (nav_page w)) w3 = (Failed z, w4)"
    "text_click B (nav_page w4) target = (None, p)"
  then show "fst (click_best h B target w) = None"
    "sel_mem (snd (click_best h B target w))
          = save_success (sel_mem w) (page_host B (nav_page w)) ''click'' target
              (''text='' @ target) (clock w)"
    by (rule click_best_text)+
next
  assume "sanitize_input typed v = (stext, v0)"
    "type_memory B field stext v0 = (True, tried', v1)"
  then show "type_best h B field typed v = (None, v1)" "sel_mem v1 = sel_mem v"
    by (rule type_best_memory)+
next
  assume "page_host B (nav_page v) \<noteq> []" "sanitize_input typed v = (stext, v0)"
    "type_memory B field stext v0 = (False, tried', v1)"
    "type_css B field stext (page_host B (nav_page v)) v1 = (Done, v2)"
  then show "type_best h B field typed v = (None, v2)"
    "sel_mem v2 = save_success (sel_mem v) (page_host B (nav_page v)) ''type'' field field
                         (clock v)"
    by (rule type_best_css)+
next
  assume "page_host B (nav_page v) \<noteq> []" "sanitize_input typed v = (stext, v0)"
    "type_memory B field stext v0 = (False, tried', v1)"
    "type_css B field stext (page_host B (nav_page v)) v1 = (Failed x', v2)"
    "type_placeholder B field stext (page_host B (nav_page v)) v2 = (Done, v3)"
  then show "type_best h B field typed v = (None, v3)"
    "sel_mem v3 = save_success (sel_mem v) (page_host B (nav_page v)) ''type'' field
                         (''placeholder='' @ field) (clock v)"
    by (rule type_best_placeholder)+
next
  assume "page_host B (nav_page v) \<noteq> []" "sanitize_input typed v = (stext, v0)"
    "type_memory B field stext v0 = (False, tried', v1)"
    "type_css B field stext (page_host B (nav_page v)) v1 = (Failed x', v2)"
    "type_placeholder B field stext (page_host B (nav_page v)) v2 = (Failed y', v3)"
    "type_label B field stext (page_host B (nav_page v)) v3 = (Done, v4)"
  then show "type_best h B field typed v = (None, v4)"
    "sel_mem v4 = save_success (sel_mem v) (page_host B (nav_page v)) ''type'' field
                         (''label='' @ field) (clock v)"
    by (rule type_best_label)+
next
  assume "page_host B (nav_page v) \<noteq> []" "sanitize_input typed v = (stext, v0)"
    "type_memory B field stext v0 = (False, tried', v1)"
    "type_css B field stext (page_host B (nav_page v)) v1 = (Failed x', v2)"
    "type_placeholder B field stext (page_host B (nav_page v)) v2 = (Failed y', v3)"
    "type_label B field stext (page_host B (nav_page v)) v3 = (Failed z', v4)"
    "semantic_candidate h B (nav_page v4) False field = Some cand'" "cand' \<noteq> []"
    "placeholder_fill B (nav_page v4) cand' stext = (None, q)"
  then show "fst (type_best h B field typed v) = None"
    "sel_mem (snd (type_best h B field typed v))
          = save_success (sel_mem v) (page_host B (nav_page v)) ''type'' field
              (''semantic_placeholder='' @ cand') (clock v)"
    by (rule type_best_semantic_placeholder)+
next
  assume "page_host B (nav_page v) \<noteq> []" "sanitize_input typed v = (stext, v0)"
    "type_memory B field stext v0 = (False, tried', v1)"
    "type_css B field stext (page_host B (nav_page v)) v1 = (Failed x', v2)"
    "type_placeholder B field stext (page_host B (nav_page v)) v2 = (Failed y', v3)"
    "type_label B field stext (page_host B (nav_page v)) v3 = (Failed z', v4)"
    "semantic_candidate h B (nav_page v4) False field = Some cand'" "cand' \<noteq> []"
    "placeholder_fill B (nav_page v4) cand' stext = (Some e1, q1)"
    "label_fill B q1 cand' stext = (None, q2)"
  then show "fst (type_best h B field typed v) = None"
    "sel_mem (snd (type_best h B field typed v))
          = save_success (sel_mem v) (page_host B (nav_page v)) ''type'' field
              (''semantic_label='' @ cand') (clock v)"
    by (rule type_best_semantic_label)+
qed


text \<open>
  Four runs on a page of \<^verbatim>\<open>example.com\<close>: a click resolved from the remembered selector
  \<^verbatim>\<open>#old\<close> (the table keeps its one row, count 2); a click resolved by the CSS stage; a
  click resolved by the semantic stage; typing resolved by the placeholder stage. Each of
  the last three leaves one new row with the descriptor of its stage.
\<close>

theorem memory_hit_writes_nothing_later_stage_records_descriptor_witness:
  "click_best (python_with_hash (\<lambda>t. 0))
      (scripted_browser ''https://example.com/x'' [''wait #old'', ''click #old''] []) ''Submit''
      (empty_nav [] [\<lparr>rowid = 1, sel_host = ''example.com'', sel_action = ''click'',
                      sel_label = ''Submit'', selector = ''#old'', success_count = 2,
                      updated = 50\<rparr>])
     = (None,
        (empty_nav [] [\<lparr>rowid = 1, sel_host = ''example.com'', sel_action = ''click'',
                      sel_label = ''Submit'', selector = ''#old'', success_count = 2,
                      updated = 50\<rparr>])
          \<lparr>nav_page := [''wait #old'', ''click #old''],
           logged := [(INFO, ''Clicked from memory: #old'')]\<rparr>)
   \<and> sel_mem (snd (click_best (python_with_hash (\<lambda>t. 0))
        (scripted_browser ''https://example.com/x'' [''wait #go'', ''click #go''] []) ''#go''
        (empty_nav [] [])))
     = [\<lparr>rowid = 1, sel_host = ''example.com'', sel_action = ''click'', sel_label = ''#go'',
         selector = ''#go'', success_count = 1, updated = 100\<rparr>]
   \<and> sel_mem (snd (click_best (python_with_hash (\<lambda>t. 0))
        (scripted_browser ''https://example.com/x'' [''text Pay now''] [''Pay now'']) ''Buy''
        (empty_nav [] [])))
     = [\<lparr>rowid = 1, sel_host = ''example.com'', sel_action = ''click'', sel_label = ''Buy'',
         selector = ''semantic_text=Pay now'', success_count = 1, updated = 100\<rparr>]
   \<and> sel_mem (snd (type_best (python_with_hash (\<lambda>t. 0))
        (scripted_browser ''https://example.com/x'' [''placeholder Email''] []) ''Email''
        ''a@b.c'' (empty_nav [] [])))
     = [\<lparr>rowid = 1, sel_host = ''example.com'', sel_action = ''type'', sel_label = ''Email'',
         selector = ''placeholder=Email'', success_count = 1, updated = 100\<rparr>]"
proof -
  let ?h = "python_with_hash (\<lambda>t. 0)"
  let ?e = "PlaywrightError ''Timeout 10000ms exceeded''"
  let ?row = "\<lparr>rowid = 1, sel_host = ''example.com'', sel_action = ''click'',
                sel_label = ''Submit'', selector = ''#old'', success_count = 2, updated = 50\<rparr>"
  let ?B1 = "scripted_browser ''https://example.com/x'' [''wait #old'', ''click #old''] []"
  let ?B2 = "scripted_browser ''https://example.com/x'' [''wait #go'', ''click #go''] []"
  let ?B3 = "scripted_browser ''https://example.com/x'' [''text Pay now''] [''Pay now'']"
  let ?B4 = "scripted_browser ''https://example.com/x'' [''placeholder Email''] []"
  let ?m = "empty_nav [] [?row] :: string list nav"
  let ?w = "empty_nav [] [] :: string list nav"
  note defs = click_memory_def click_css_def click_role_def click_semantic_def
      type_memory_def type_css_def type_placeholder_def type_label_def
      stage_def remember_def log_to_def wait_and_click_def wait_and_fill_def
      page_host_def scripted_browser_def scripted_act_def empty_nav_def sanitize_input_def
      get_def get_rows_def where_hal_def where_hals_def order_by_def save_success_def
      next_rowid_def lower_def lower_char_def ascii_lower_def ascii_upper_def startswith_def
  have cand: "semantic_candidate ?h ?B3 p m q = Some ''Pay now''" for p m q
    by (rule semantic_candidate_single) (simp add: scripted_browser_def)
  have hit: "click_memory ?B1 ''Submit'' ?m
       = (True, [], ?m\<lparr>nav_page := [''wait #old'', ''click #old''],
                        logged := [(INFO, ''Clicked from memory: #old'')]\<rparr>)"
    by (simp add: defs)
  have css: "page_host ?B2 (nav_page ?w) \<noteq> [] \<and> click_memory ?B2 ''#go'' ?w = (False, [], ?w)
       \<and> click_css ?B2 ''#go'' (page_host ?B2 (nav_page ?w)) ?w
          = (Done, ?w\<lparr>nav_page := [''wait #go'', ''click #go''],
                       sel_mem := [\<lparr>rowid = 1, sel_host = ''example.com'',
                          sel_action = ''click'', sel_label = ''#go'', selector = ''#go'',
                          success_count = 1, updated = 100\<rparr>],
                       logged := [(INFO, ''Clicked CSS: #go'')]\<rparr>)"
    by (simp add: defs)
  have sem: "page_host ?B3 (nav_page ?w) \<noteq> [] \<and> click_memory ?B3 ''Buy'' ?w = (False, [], ?w)
       \<and> click_css ?B3 ''Buy'' (page_host ?B3 (nav_page ?w)) ?w
          = (Failed (Some ?e), ?w\<lparr>nav_page := [''failed wait Buy'']\<rparr>)
       \<and> click_role ?B3 ''Buy'' (page_host ?B3 (nav_page ?w)) (?w\<lparr>nav_page := [''failed wait Buy'']\<rparr>)
          = (Failed (Some ?e), ?w\<lparr>nav_page := [''failed wait Buy'', ''failed role Buy'']\<rparr>)
       \<and> click_semantic ?h ?B3 ''Buy'' (page_host ?B3 (nav_page ?w))
            (?w\<lparr>nav_page := [''failed wait Buy'', ''failed role Buy'']\<rparr>)
          = (Done, ?w\<lparr>nav_page := [''failed wait Buy'', ''failed role Buy'', ''text Pay now''],
                       sel_mem := [\<lparr>rowid = 1, sel_host = ''example.com'',
                          sel_action = ''click'', sel_label = ''Buy'',
                          selector = ''semantic_text=Pay now'', success_count = 1,
                          updated = 100\<rparr>],
                       logged := [(INFO, ''Clicked by semantic text '' @ [CHR 0x27]
                                         @ ''Pay now'' @ [CHR 0x27])]\<rparr>)
       \<and> semantic_candidate ?h ?B3
            (nav_page (?w\<lparr>nav_page := [''failed wait Buy'', ''failed role Buy'']\<rparr>)) True ''Buy''
          = Some ''Pay now''"
    unfolding click_semantic_def cand by (simp add: defs)
  have plc: "page_host ?B4 (nav_page ?w) \<noteq> [] \<and> sanitize_input ''a@b.c'' ?w = (''a@b.c'', ?w)
       \<and> type_memory ?B4 ''Email'' ''a@b.c'' ?w = (False, [], ?w)
       \<and> type_css ?B4 ''Email'' ''a@b.c'' (page_host ?B4 (nav_page ?w)) ?w
          = (Failed (Some ?e), ?w\<lparr>nav_page := [''failed wait Email'']\<rparr>)
       \<and> type_placeholder ?B4 ''Email'' ''a@b.c'' (page_host ?B4 (nav_page ?w))
            (?w\<lparr>nav_page := [''failed wait Email'']\<rparr>)
          = (Done, ?w\<lparr>nav_page := [''failed wait Email'', ''placeholder Email''],
                       sel_mem := [\<lparr>rowid = 1, sel_host = ''example.com'',
                          sel_action = ''type'', sel_label = ''Email'',
                          selector = ''placeholder=Email'', success_count = 1,
                          updated = 100\<rparr>],
                       logged := [(INFO, ''Filled by placeholder Email'')]\<rparr>)"
    by (simp add: defs)
  note t1 = memory_hit_writes_nothing_later_stage_records_descriptor
      [where B = ?B1 and h = ?h and target = "''Submit''" and w = ?m,
       THEN conjunct1, rule_format, OF hit]
  note t2 = memory_hit_writes_nothing_later_stage_records_descriptor
      [where B = ?B2 and h = ?h and target = "''#go''" and w = ?w,
       THEN conjunct2, THEN conjunct1, rule_format, OF css]
  note t4 = memory_hit_writes_nothing_later_stage_records_descriptor
      [where B = ?B3 and h = ?h and target = "''Buy''" and w = ?w,
       THEN conjunct2, THEN conjunct2, THEN conjunct2, THEN conjunct1, rule_format, OF sem]
  note t8 = memory_hit_writes_nothing_later_stage_records_descriptor
      [where B = ?B4 and h = ?h and field = "''Email''" and typed = "''a@b.c''" and v = ?w,
       THEN conjunct2, THEN conjunct2, THEN conjunct2, THEN conjunct2, THEN conjunct2,
       THEN conjunct2, THEN conjunct2, THEN conjunct1, rule_format, OF plc]
  have a: "click_best ?h ?B1 ''Submit'' ?m
       = (None, ?m\<lparr>nav_page := [''wait #old'', ''click #old''],
                       logged := [(INFO, ''Clicked from memory: #old'')]\<rparr>)"
    using t1 by simp
  have b: "sel_mem (snd (click_best ?h ?B2 ''#go'' ?w))
       = [\<lparr>rowid = 1, sel_host = ''example.com'', sel_action = ''click'', sel_label = ''#go'',
           selector = ''#go'', success_count = 1, updated = 100\<rparr>]"
    using t2 by simp
  have c: "sel_mem (snd (click_best ?h ?B3 ''Buy'' ?w))
       = [\<lparr>rowid = 1, sel_host = ''example.com'', sel_action = ''click'', sel_label = ''Buy'',
           selector = ''semantic_text=Pay now'', success_count = 1, updated = 100\<rparr>]"
    using t4 by simp
  have d: "sel_mem (snd (type_best ?h ?B4 ''Email'' ''a@b.c'' ?w))
       = [\<lparr>rowid = 1, sel_host = ''example.com'', sel_action = ''type'', sel_label = ''Email'',
           selector = ''placeholder=Email'', success_count = 1, updated = 100\<rparr>]"
    using t8 by simp
  show ?thesis using a b c d by simp
qed

text \<open>
  C8, as the claim states it, fails on three counts. With \<open>k = -1\<close> the slice
  \<^verbatim>\<open>scores[:k]\<close> drops the last entry only: on three indexed texts the search returns two.
  The similarity is computed in floats: for the query \<^verbatim>\<open>a\<close>, the texts \<^verbatim>\<open>a b\<close> and
  \<^verbatim>\<open>a a a b b b\<close> have the same cosine similarity, yet their computed scores are
  0.7071067811865475 and 0.7071067811865476, and the text inserted later is returned
  first. And a store of dimension 0 raises on the first token of the query.
\<close>

theorem similarity_search_negative_k_and_rounded_tie:
  "add_texts (python_with_hash (\<lambda>t. int (length t))) (SimpleVectorStore_init 4)
       [''cc'', ''b'', ''a'']
     = Inr \<lparr>vs_dim = 4, docs = [''cc'', ''b'', ''a''],
            vecs = [[0, 0, 1, 0], [0, 1, 0, 0], [0, 1, 0, 0]]\<rparr>
   \<and> similarity_search (python_with_hash (\<lambda>t. int (length t)))
        \<lparr>vs_dim = 4, docs = [''cc'', ''b'', ''a''],
         vecs = [[0, 0, 1, 0], [0, 1, 0, 0], [0, 1, 0, 0]]\<rparr> ''a'' (- 1)
     = Inr [(''b'', 1), (''a'', 1)]
   \<and> add_texts (python_with_hash (\<lambda>t. if t = ''b'' then 1 else 0)) (SimpleVectorStore_init 2)
       [''a b'', ''a a a b b b'']
     = Inr \<lparr>vs_dim = 2, docs = [''a b'', ''a a a b b b''],
            vecs = [[6369051672525772 / 2 ^ 53, 6369051672525772 / 2 ^ 53],
                    [6369051672525773 / 2 ^ 53, 6369051672525773 / 2 ^ 53]]\<rparr>
   \<and> spec_cosine_similarity
        (bag (python_with_hash (\<lambda>t. if t = ''b'' then 1 else 0)) 2 ''a'')
        (bag (python_with_hash (\<lambda>t. if t = ''b'' then 1 else 0)) 2 ''a b'')
     = spec_cosine_similarity
        (bag (python_with_hash (\<lambda>t. if t = ''b'' then 1 else 0)) 2 ''a'')
        (bag (python_with_hash (\<lambda>t. if t = ''b'' then 1 else 0)) 2 ''a a a b b b'')
   \<and> similarity_search (python_with_hash (\<lambda>t. if t = ''b'' then 1 else 0))
        \<lparr>vs_dim = 2, docs = [''a b'', ''a a a b b b''],
         vecs = [[6369051672525772 / 2 ^ 53, 6369051672525772 / 2 ^ 53],
                 [6369051672525773 / 2 ^ 53, 6369051672525773 / 2 ^ 53]]\<rparr> ''a'' 2
     = Inr [(''a a a b b b'', 6369051672525773 / 2 ^ 53), (''a b'', 6369051672525772 / 2 ^ 53)]
   \<and> similarity_search (python_with_hash (\<lambda>t. 0)) (SimpleVectorStore_init 0) ''a'' 1
     = Inl ZeroDivisionError"
proof -
  let ?l = "python_with_hash (\<lambda>t. int (length t))"
  let ?h = "python_with_hash (\<lambda>t. if t = ''b'' then 1 else 0)"
  define s2 :: real where "s2 = 6369051672525773 / 2 ^ 52"
  define s18 :: real where "s18 = 4776788754394329 / 2 ^ 50"
  define c0 :: real where "c0 = 6369051672525772 / 2 ^ 53"
  define c1 :: real where "c1 = 6369051672525773 / 2 ^ 53"
  note tok_defs = tokenize_def alnum_def lower_def lower_char_def ascii_lower_def
      ascii_upper_def digits_def
  have tok: "tokenize ''cc'' = [''cc'']" "tokenize ''b'' = [''b'']" "tokenize ''a'' = [''a'']"
    "tokenize ''a b'' = [''a'', ''b'']"
    "tokenize ''a a a b b b'' = [''a'', ''a'', ''a'', ''b'', ''b'', ''b'']"
    by (simp_all add: tok_defs)
  have sums: "py_sum ?l xs = (if xs = [] then 0 else sum_left xs)"
    "py_sum ?h xs = (if xs = [] then 0 else sum_left xs)" for xs
    by (simp_all add: py_sum_def python_with_hash_def)
  text \<open>Three texts in dimension 4.\<close>
  have bags4: "bag ?l 4 ''cc'' = [0, 0, 1, 0]" "bag ?l 4 ''b'' = [0, 1, 0, 0]"
    "bag ?l 4 ''a'' = [0, 1, 0, 0]"
    by (simp_all add: bag_def tok hash_def python_with_hash_def eval_nat_numeral)
  have norms4: "norm2 ?l [0, 0, 1, 0] = 1" "norm2 ?l [0, 1, 0, 0] = 1"
    by (simp_all add: norm2_def sums sum_left_def)
  have embs4: "normalize ?l [0, 0, 1, 0] = [0, 0, 1, 0]" "normalize ?l [0, 1, 0, 0] = [0, 1, 0, 0]"
    by (simp_all add: normalize_def norms4)
  have dots4: "dotp ?l [0, 1, 0, 0] [0, 0, 1, 0] = 0" "dotp ?l [0, 1, 0, 0] [0, 1, 0, 0] = 1"
    by (simp_all add: dotp_def sums sum_left_def)
  have rank4: "ranked ?l [0, 1, 0, 0] [[0, 0, 1, 0], [0, 1, 0, 0], [0, 1, 0, 0]]
              = [(1, 1), (2, 1), (0, 0)]"
    by (simp add: ranked_def scores_def enumerate_eq_zip upt_rec dots4)
  have filled4: "add_texts ?l (SimpleVectorStore_init 4) [''cc'', ''b'', ''a'']
     = Inr \<lparr>vs_dim = 4, docs = [''cc'', ''b'', ''a''],
            vecs = [[0, 0, 1, 0], [0, 1, 0, 0], [0, 1, 0, 0]]\<rparr>"
    by (simp add: SimpleVectorStore_init_def embed_def tok bags4 embs4)
  have negative: "similarity_search ?l
        \<lparr>vs_dim = 4, docs = [''cc'', ''b'', ''a''],
         vecs = [[0, 0, 1, 0], [0, 1, 0, 0], [0, 1, 0, 0]]\<rparr> ''a'' (- 1)
     = Inr [(''b'', 1), (''a'', 1)]"
    by (simp add: similarity_search_def embed_def tok bags4 embs4 rank4 slice_to_def)
  text \<open>Two texts in dimension 2.\<close>
  have bags: "bag ?h 2 ''a'' = [1, 0]" "bag ?h 2 ''a b'' = [1, 1]"
    "bag ?h 2 ''a a a b b b'' = [3, 3]"
    by (simp_all add: bag_def tok hash_def python_with_hash_def fl_2 fl_3 numeral_2_eq_2)
  have "norm2 ?h [1, 0] = 1"
    by (simp add: norm2_def sums sum_left_def)
  moreover have "norm2 ?h [1, 1] = s2"
    by (simp add: norm2_def sums sum_left_def fl_2 fl_sqrt_2 s2_def)
  moreover have "norm2 ?h [3, 3] = s18"
    by (simp add: norm2_def sums sum_left_def fl_9 fl_18 fl_sqrt_18 s18_def)
  ultimately have norms: "norm2 ?h [1, 0] = 1" "norm2 ?h [1, 1] = s2" "norm2 ?h [3, 3] = s18"
    by blast+
  have quot: "fl (1 / s2) = c0" "fl (3 / s18) = c1"
    unfolding s2_def s18_def c0_def c1_def by (rule fl_inv_sqrt_2, rule fl_3_div_sqrt_18)
  have exact: "fl c0 = c0" "fl c1 = c1"
    unfolding c0_def c1_def by (rule fl_below_inv_sqrt_2, rule fl_above_inv_sqrt_2)
  have less: "c0 < c1"
    by (simp add: c0_def c1_def)
  have embs: "normalize ?h [1, 0] = [1, 0]" "normalize ?h [1, 1] = [c0, c0]"
    "normalize ?h [3, 3] = [c1, c1]"
    by (simp_all add: normalize_def norms quot)
  have dots: "dotp ?h [1, 0] [c0, c0] = c0" "dotp ?h [1, 0] [c1, c1] = c1"
    by (simp_all add: dotp_def sums sum_left_def exact)
  have rank: "ranked ?h [1, 0] [[c0, c0], [c1, c1]] = [(1, c1), (0, c0)]"
    using less by (simp add: ranked_def scores_def enumerate_eq_zip upt_rec dots)
  have filled: "add_texts ?h (SimpleVectorStore_init 2) [''a b'', ''a a a b b b'']
     = Inr \<lparr>vs_dim = 2, docs = [''a b'', ''a a a b b b''], vecs = [[c0, c0], [c1, c1]]\<rparr>"
    by (simp add: SimpleVectorStore_init_def embed_def tok bags embs)
  have search: "similarity_search ?h
        \<lparr>vs_dim = 2, docs = [''a b'', ''a a a b b b''], vecs = [[c0, c0], [c1, c1]]\<rparr> ''a'' 2
     = Inr [(''a a a b b b'', c1), (''a b'', c0)]"
    by (simp add: similarity_search_def embed_def tok bags embs rank slice_to_def)
  have "sqrt 9 = 3" using real_sqrt_abs2 [of 3] by simp
  then have "sqrt 18 = 3 * sqrt 2" using real_sqrt_mult [of 9 2] by simp
  then have tie: "spec_cosine_similarity (bag ?h 2 ''a'') (bag ?h 2 ''a b'')
     = spec_cosine_similarity (bag ?h 2 ''a'') (bag ?h 2 ''a a a b b b'')"
    by (simp add: bags spec_cosine_similarity_def)
  have zero: "similarity_search (python_with_hash (\<lambda>t. 0)) (SimpleVectorStore_init 0) ''a'' 1
     = Inl ZeroDivisionError"
    by (simp add: similarity_search_def embed_def tok SimpleVectorStore_init_def)
  from filled4 negative filled tie search zero show ?thesis
    unfolding c0_def c1_def by blast
qed

text \<open>
  C8, amended. For a store of positive dimension filled by \<^verbatim>\<open>add_texts\<close> and a count
  \<open>k \<ge> 0\<close>, \<^verbatim>\<open>similarity_search(query, k)\<close> returns the first \<open>k\<close> entries (all of them when
  there are fewer) of the ranking of the indexed texts, each with its score. The score of
  a text is the one the code computes in floats: the sum of the rounded products of the
  two embeddings, each embedding being the count vector divided, with rounding, by its
  rounded norm. The ranking holds every index once and is ordered by score descending,
  and by insertion position ascending among equal scores. This holds for every hash and
  every summation the interpreter may have.
\<close>

theorem similarity_search_top_k_by_computed_score:
  assumes "0 < d" and "0 \<le> k"
  shows
    "(let st = \<lparr>vs_dim = d, docs = texts, vecs = map (\<lambda>t. normalize h (bag h d t)) texts\<rparr>;
          score = (\<lambda>i. dotp h (normalize h (bag h d query)) (normalize h (bag h d (texts ! i))));
          ranking = map fst (ranked h (normalize h (bag h d query)) (vecs st))
      in add_texts h (SimpleVectorStore_init d) texts = Inr st
         \<and> mset ranking = mset [0..<length texts]
         \<and> sorted_wrt (\<lambda>i j. score i > score j \<or> (score i = score j \<and> i < j)) ranking
         \<and> similarity_search h st query k
             = Inr (map (\<lambda>i. (texts ! i, score i)) (take (nat k) ranking))
         \<and> length (take (nat k) ranking) = min (nat k) (length texts))"
proof -
  let ?vs = "map (\<lambda>t. normalize h (bag h d t)) texts"
  let ?st = "\<lparr>vs_dim = d, docs = texts, vecs = ?vs\<rparr>"
  let ?q = "normalize h (bag h d query)"
  let ?score = "\<lambda>i. dotp h ?q (normalize h (bag h d (texts ! i)))"
  let ?r = "ranked h ?q ?vs"
  have filled: "add_texts h (SimpleVectorStore_init d) texts = Inr ?st"
    using assms(1) add_texts_pos [of "SimpleVectorStore_init d" h texts]
    by (simp add: SimpleVectorStore_init_def)
  have perm: "mset (map fst ?r) = mset [0..<length texts]"
    using mset_map_fst_ranked [of h ?q ?vs] by simp
  have entry: "i < length texts \<and> s = ?score i" if "(i, s) \<in> set ?r" for i s
  proof -
    from ranked_entries [OF that] have i: "i < length texts" and s: "s = dotp h ?q (?vs ! i)"
      by simp_all
    from i s show ?thesis by simp
  qed
  have order: "sorted_wrt (\<lambda>i j. ?score i > ?score j \<or> (?score i = ?score j \<and> i < j)) (map fst ?r)"
  proof -
    have "sorted_wrt (\<lambda>a b. ?score (fst a) > ?score (fst b)
                             \<or> (?score (fst a) = ?score (fst b) \<and> fst a < fst b)) ?r"
    proof (rule sorted_wrt_mono_rel [OF _ ranked_order])
      fix a b assume a: "a \<in> set ?r" and b: "b \<in> set ?r"
        and ab: "snd a > snd b \<or> (snd a = snd b \<and> fst a < fst b)"
      have "snd a = ?score (fst a)" using entry [of "fst a" "snd a"] a by simp
      moreover have "snd b = ?score (fst b)" using entry [of "fst b" "snd b"] b by simp
      ultimately show "?score (fst a) > ?score (fst b)
                       \<or> (?score (fst a) = ?score (fst b) \<and> fst a < fst b)"
        using ab by simp
    qed
    then show ?thesis by (simp add: sorted_wrt_map)
  qed
  have inrange: "\<forall>x \<in> set (take (nat k) ?r). fst x < length texts"
  proof
    fix x assume "x \<in> set (take (nat k) ?r)"
    then have "x \<in> set ?r" by (rule in_set_takeD)
    then show "fst x < length texts" using entry [of "fst x" "snd x"] by simp
  qed
  have same: "map (\<lambda>x. (texts ! fst x, snd x)) (take (nat k) ?r)
              = map (\<lambda>i. (texts ! i, ?score i)) (take (nat k) (map fst ?r))"
  proof -
    have "map (\<lambda>x. (texts ! fst x, snd x)) (take (nat k) ?r)
          = map (\<lambda>x. (texts ! fst x, ?score (fst x))) (take (nat k) ?r)"
    proof (rule map_cong [OF refl])
      fix x assume "x \<in> set (take (nat k) ?r)"
      then have "x \<in> set ?r" by (rule in_set_takeD)
      then have "snd x = ?score (fst x)" using entry [of "fst x" "snd x"] by simp
      then show "(texts ! fst x, snd x) = (texts ! fst x, ?score (fst x))" by simp
    qed
    then show ?thesis by (simp add: take_map comp_def)
  qed
  have search: "similarity_search h ?st query k
             = Inr (map (\<lambda>i. (texts ! i, ?score i)) (take (nat k) (map fst ?r)))"
    using assms lookup_docs_in_range [OF inrange] same
    by (simp add: similarity_search_def embed_pos slice_to_def)
  have len: "length (take (nat k) (map fst ?r)) = min (nat k) (length texts)"
    by (simp add: ranked_def scores_def min.commute)
  show ?thesis
    unfolding Let_def using filled perm order search len by simp
qed

text \<open>
  An example with the hash \<open>\<lambda>t. int (length t)\<close> and dimension 4: \<^verbatim>\<open>b\<close> and \<^verbatim>\<open>a\<close> fall
  into the same bucket as the query \<^verbatim>\<open>a\<close> and tie at score 1; the earlier one comes
  first.
\<close>

theorem similarity_search_top_k_by_computed_score_witness:
  "(0::int) < 4 \<and> (0::int) \<le> 2
   \<and> add_texts (python_with_hash (\<lambda>t. int (length t))) (SimpleVectorStore_init 4)
       [''cc'', ''b'', ''a'']
       = Inr \<lparr>vs_dim = 4, docs = [''cc'', ''b'', ''a''],
              vecs = [[0, 0, 1, 0], [0, 1, 0, 0], [0, 1, 0, 0]]\<rparr>
   \<and> similarity_search (python_with_hash (\<lambda>t. int (length t)))
        \<lparr>vs_dim = 4, docs = [''cc'', ''b'', ''a''],
         vecs = [[0, 0, 1, 0], [0, 1, 0, 0], [0, 1, 0, 0]]\<rparr> ''a'' 2
       = Inr [(''b'', 1), (''a'', 1)]"
proof -
  let ?h = "python_with_hash (\<lambda>t. int (length t))"
  have tok: "tokenize ''cc'' = [''cc'']" "tokenize ''b'' = [''b'']" "tokenize ''a'' = [''a'']"
    by (simp_all add: tokenize_def alnum_def lower_def lower_char_def ascii_lower_def
        ascii_upper_def digits_def)
  have sums: "py_sum ?h xs = (if xs = [] then 0 else sum_left xs)" for xs
    by (simp add: py_sum_def python_with_hash_def)
  have bags: "bag ?h 4 ''cc'' = [0, 0, 1, 0]" "bag ?h 4 ''b'' = [0, 1, 0, 0]"
    "bag ?h 4 ''a'' = [0, 1, 0, 0]"
    by (simp_all add: bag_def tok hash_def python_with_hash_def eval_nat_numeral)
  have norms: "norm2 ?h [0, 0, 1, 0] = 1" "norm2 ?h [0, 1, 0, 0] = 1"
    by (simp_all add: norm2_def sums sum_left_def)
  have embs: "normalize ?h [0, 0, 1, 0] = [0, 0, 1, 0]" "normalize ?h [0, 1, 0, 0] = [0, 1, 0, 0]"
    by (simp_all add: normalize_def norms)
  have dots: "dotp ?h [0, 1, 0, 0] [0, 0, 1, 0] = 0" "dotp ?h [0, 1, 0, 0] [0, 1, 0, 0] = 1"
    by (simp_all add: dotp_def sums sum_left_def)
  have rank: "ranked ?h [0, 1, 0, 0] [[0, 0, 1, 0], [0, 1, 0, 0], [0, 1, 0, 0]]
              = [(1, 1), (2, 1), (0, 0)]"
    by (simp add: ranked_def scores_def enumerate_eq_zip upt_rec dots)
  have pos: "(0::int) < 4" and cnt: "(0::int) \<le> 2" by simp_all
  from similarity_search_top_k_by_computed_score
         [OF pos cnt, where h = ?h and texts = "[''cc'', ''b'', ''a'']" and query = "''a''"]
  show ?thesis
    by (simp add: Let_def bags embs dots rank eval_nat_numeral)
qed

text \<open>
  C9. \<^verbatim>\<open>PermissionManager.check\<close> returns True for every action string other than
  \<^verbatim>\<open>login\<close>, \<^verbatim>\<open>upload\<close> and \<^verbatim>\<open>off-allowlist\<close>, whatever the policy is: action kinds the
  gate does not know are allowed.
\<close>

theorem check_unrecognized_allowed:
  assumes "action \<noteq> ''login''" and "action \<noteq> ''upload''" and "action \<noteq> ''off-allowlist''"
  shows "check policy action"
  using assms by (simp add: check_def)

theorem check_unrecognized_allowed_witness:
  "''delete'' \<noteq> ''login'' \<and> ''delete'' \<noteq> ''upload'' \<and> ''delete'' \<noteq> ''off-allowlist''
   \<and> check \<lparr>allow_login = False, allow_upload = False,
             allow_off_allowlist = False, auto_approve = False\<rparr> ''delete''"
  using check_unrecognized_allowed
    [of "''delete''" "\<lparr>allow_login = False, allow_upload = False,
                       allow_off_allowlist = False, auto_approve = False\<rparr>"]
  by simp

text \<open>
  C10. Releasing a handle whose slot index lies within the queue list puts the page back
  at the end of that slot's queue and closes nothing: the queues have no maximum size, so
  the non-blocking put cannot fail. When every queue of a started pool is empty,
  \<^verbatim>\<open>_acquire\<close> (with a non-negative timeout) makes an overflow page with slot index 0, and
  releasing it appends it to slot 0's queue. Releasing handles of slot 0 lengthens that
  queue by one each time, whatever \<^verbatim>\<open>max_pages_per_browser\<close> is.
\<close>

theorem release_requeues_without_bound:
  "(0 \<le> browser_idx h \<and> browser_idx h < int (length (pages_queues p)) \<longrightarrow>
      release p h =
        p\<lparr>pages_queues :=
             (pages_queues p)[nat (browser_idx h) :=
                pages_queues p ! nat (browser_idx h)
                  @ [(handle_page h, page_context (handle_page h))]]\<rparr>
      \<and> closed_pages (release p h) = closed_pages p)
   \<and> (started p \<and> browsers p \<noteq> [] \<and> pages_queues p \<noteq> []
        \<and> list_all (\<lambda>q. q = []) (pages_queues p) \<and> 0 \<le> t \<longrightarrow>
      acquire p (Some t) =
        Acquired \<lparr>handle_page = fst (new_page (fresh_name p)), browser_idx = 0\<rparr>
                 (p\<lparr>fresh_name := snd (new_page (fresh_name p))\<rparr>)
      \<and> pages_queues
           (release (p\<lparr>fresh_name := snd (new_page (fresh_name p))\<rparr>)
                    \<lparr>handle_page = fst (new_page (fresh_name p)), browser_idx = 0\<rparr>) ! 0
          = [(fst (new_page (fresh_name p)), page_context (fst (new_page (fresh_name p))))])
   \<and> (pages_queues p \<noteq> [] \<and> list_all (\<lambda>h. browser_idx h = 0) hs \<longrightarrow>
      length (pages_queues (release_all p hs) ! 0) = length (pages_queues p ! 0) + length hs)"
proof (intro conjI impI)
  assume a: "0 \<le> browser_idx h \<and> browser_idx h < int (length (pages_queues p))"
  then show "release p h =
        p\<lparr>pages_queues :=
             (pages_queues p)[nat (browser_idx h) :=
                pages_queues p ! nat (browser_idx h)
                  @ [(handle_page h, page_context (handle_page h))]]\<rparr>"
    by (simp add: release_def py_slot_def)
  from a show "closed_pages (release p h) = closed_pages p"
    by (simp add: release_def py_slot_def)
next
  assume a: "started p \<and> browsers p \<noteq> [] \<and> pages_queues p \<noteq> []
        \<and> list_all (\<lambda>q. q = []) (pages_queues p) \<and> 0 \<le> t"
  then have s: "scan_queues (Some t) [0..<length (pages_queues p)] p = None"
    by (simp add: scan_queues_all_empty)
  from a s show "acquire p (Some t) =
        Acquired \<lparr>handle_page = fst (new_page (fresh_name p)), browser_idx = 0\<rparr>
                 (p\<lparr>fresh_name := snd (new_page (fresh_name p))\<rparr>)"
    by (simp add: acquire_def Let_def split_beta)
  from a have e: "pages_queues p ! 0 = []"
    by (cases "pages_queues p") simp_all
  from a e show "pages_queues
           (release (p\<lparr>fresh_name := snd (new_page (fresh_name p))\<rparr>)
                    \<lparr>handle_page = fst (new_page (fresh_name p)), browser_idx = 0\<rparr>) ! 0
          = [(fst (new_page (fresh_name p)), page_context (fst (new_page (fresh_name p))))]"
    by (simp add: release_def py_slot_def)
next
  assume "pages_queues p \<noteq> [] \<and> list_all (\<lambda>h. browser_idx h = 0) hs"
  then show "length (pages_queues (release_all p hs) ! 0) = length (pages_queues p ! 0) + length hs"
    by (simp add: release_all_slot0_length)
qed

text \<open>
  A pool of one browser with one page: the second \<^verbatim>\<open>_acquire\<close> finds the only queue empty
  and makes an overflow page; after both handles are released, slot 0 holds two pages,
  more than \<^verbatim>\<open>max_pages_per_browser = 1\<close>.
\<close>

theorem release_requeues_without_bound_witness:
  "acquire (BrowserPool_init 1 1) (Some 5)
     = Acquired \<lparr>handle_page = \<lparr>page_id = 2, page_context = 1\<rparr>, browser_idx = 0\<rparr>
         \<lparr>max_browsers = 1, max_pages_per_browser = 1, browsers = [0], pages_queues = [[]],
          started = True, fresh_name = 3, closed_pages = []\<rparr>
   \<and> acquire \<lparr>max_browsers = 1, max_pages_per_browser = 1, browsers = [0], pages_queues = [[]],
          started = True, fresh_name = 3, closed_pages = []\<rparr> (Some 5)
     = Acquired \<lparr>handle_page = \<lparr>page_id = 4, page_context = 3\<rparr>, browser_idx = 0\<rparr>
         \<lparr>max_browsers = 1, max_pages_per_browser = 1, browsers = [0], pages_queues = [[]],
          started = True, fresh_name = 5, closed_pages = []\<rparr>
   \<and> release \<lparr>max_browsers = 1, max_pages_per_browser = 1, browsers = [0], pages_queues = [[]],
          started = True, fresh_name = 5, closed_pages = []\<rparr>
         \<lparr>handle_page = \<lparr>page_id = 4, page_context = 3\<rparr>, browser_idx = 0\<rparr>
     = \<lparr>max_browsers = 1, max_pages_per_browser = 1, browsers = [0],
        pages_queues = [[(\<lparr>page_id = 4, page_context = 3\<rparr>, 3)]],
        started = True, fresh_name = 5, closed_pages = []\<rparr>
   \<and> length (pages_queues
        (release_all \<lparr>max_browsers = 1, max_pages_per_browser = 1, browsers = [0],
            pages_queues = [[]], started = True, fresh_name = 5, closed_pages = []\<rparr>
          [\<lparr>handle_page = \<lparr>page_id = 2, page_context = 1\<rparr>, browser_idx = 0\<rparr>,
           \<lparr>handle_page = \<lparr>page_id = 4, page_context = 3\<rparr>, browser_idx = 0\<rparr>]) ! 0) = 2"
proof -
  let ?p = "\<lparr>max_browsers = 1, max_pages_per_browser = 1, browsers = [0], pages_queues = [[]],
          started = True, fresh_name = 3, closed_pages = []\<rparr>"
  let ?p' = "\<lparr>max_browsers = 1, max_pages_per_browser = 1, browsers = [0], pages_queues = [[]],
          started = True, fresh_name = 5, closed_pages = []\<rparr>"
  let ?h1 = "\<lparr>handle_page = \<lparr>page_id = 2, page_context = 1\<rparr>, browser_idx = 0\<rparr>"
  let ?h2 = "\<lparr>handle_page = \<lparr>page_id = 4, page_context = 3\<rparr>, browser_idx = 0\<rparr>"
  have first: "acquire (BrowserPool_init 1 1) (Some 5) = Acquired ?h1 ?p"
    by (simp add: acquire_def BrowserPool_init_def start_def new_page_def Let_def
        numeral_eq_Suc)
  have second: "acquire ?p (Some 5) = Acquired ?h2 ?p'"
    using release_requeues_without_bound [of ?h2 ?p 5 "[]"]
    by (simp add: new_page_def numeral_eq_Suc)
  have requeue: "release ?p' ?h2 = ?p'\<lparr>pages_queues := [[(\<lparr>page_id = 4, page_context = 3\<rparr>, 3)]]\<rparr>"
    using release_requeues_without_bound [of ?h2 ?p' 5 "[]"] by simp
  have both: "length (pages_queues (release_all ?p' [?h1, ?h2]) ! 0) = 2"
    using release_requeues_without_bound [of ?h2 ?p' 5 "[?h1, ?h2]"] by simp
  show ?thesis using first second requeue both by simp
qed

end
